(* ===== verification/Prelude.thy ===== *)
theory Prelude
  imports Complex_Main "HOL-Library.Word"
begin

text \<open>
  Shared vocabulary of the development: the part of Rust's \<open>str\<close>, integer and
  float library the sources use, durations, and the codec interface behind the words
  that hyprstate stores in files (\<open>as_str\<close> / \<open>FromStr\<close> pairs).

  A Rust string is a list of \<^typ>\<open>char\<close>, one per code point U+0000 to U+00FF. Inside
  that range the functions below agree with Rust's: in particular \<open>White_Space\<close> is the
  eight code points of \<open>is_whitespace\<close>.
\<close>

named_theorems frame_simps \<open>operations that leave a view of the daemon's state alone\<close>
named_theorems codec_simps \<open>spellings of the stored words\<close>

section \<open>Machine integers, time, floats\<close>

type_synonym u8 = "8 word"
type_synonym u16 = "16 word"
type_synonym u32 = "32 word"
type_synonym u64 = "64 word"

lemma unat_lt2p: "unat (x :: 'a::len word) < 2 ^ LENGTH('a)"
  by (rule unsigned_less)

text \<open>Instants and durations are natural numbers of nanoseconds, the resolution of
  \<open>std::time\<close>. \<open>Instant::duration_since\<close> saturates at zero, as \<open>nat\<close> subtraction does.\<close>

type_synonym instant = nat
type_synonym duration = nat

definition secs :: "nat \<Rightarrow> duration" where
  "secs n = n * 1000000000"

definition millis :: "nat \<Rightarrow> duration" where
  "millis n = n * 1000000"

text \<open>An \<open>f64\<close> as far as the sources look at one: it is compared with integers. Every
  comparison with NaN is false.\<close>

datatype f64 = Finite rat | PosInf | NegInf | NaN

fun f64_le :: "f64 \<Rightarrow> f64 \<Rightarrow> bool" where
  "f64_le NaN _ = False"
| "f64_le _ NaN = False"
| "f64_le NegInf _ = True"
| "f64_le _ PosInf = True"
| "f64_le (Finite a) (Finite b) = (a \<le> b)"
| "f64_le _ _ = False"

definition f64_of_nat :: "nat \<Rightarrow> f64" where
  "f64_of_nat n = Finite (of_nat n)"

lemma f64_le_nat_simps [simp]:
  "f64_le (Finite a) (f64_of_nat n) = (a \<le> of_nat n)"
  "f64_le (f64_of_nat n) (Finite a) = (of_nat n \<le> a)"
  "\<not> f64_le NaN (f64_of_nat n)"
  "\<not> f64_le (f64_of_nat n) NaN"
  by (simp_all add: f64_of_nat_def)

lemma f64_le_trans_nat: "f64_le x (f64_of_nat m) \<Longrightarrow> m \<le> n \<Longrightarrow> f64_le x (f64_of_nat n)"
  by (cases x) (auto simp: f64_of_nat_def elim: order_trans)

text \<open>Bounds \<open>m < n\<close> are never both met: the two ends of a hysteresis band exclude each other.\<close>

lemma f64_band: "f64_le x (f64_of_nat m) \<Longrightarrow> m < n \<Longrightarrow> \<not> f64_le (f64_of_nat n) x"
proof (cases x)
  case (Finite a)
  assume "f64_le x (f64_of_nat m)" "m < n"
  then have "a \<le> of_nat m" "(of_nat m :: rat) < of_nat n" using Finite by simp_all
  then show ?thesis using Finite by simp
qed (simp_all add: f64_of_nat_def)

definition clamp :: "int \<Rightarrow> int \<Rightarrow> int \<Rightarrow> int" where
  "clamp lo hi n = (if n < lo then lo else if hi < n then hi else n)"

lemma clamp_bounds: "lo \<le> hi \<Longrightarrow> lo \<le> clamp lo hi n \<and> clamp lo hi n \<le> hi"
  by (simp add: clamp_def)

lemma clamp_id: "lo \<le> n \<Longrightarrow> n \<le> hi \<Longrightarrow> clamp lo hi n = n"
  by (simp add: clamp_def)

section \<open>Strings\<close>

definition is_whitespace :: "char \<Rightarrow> bool" where
  "is_whitespace c = (let n = (of_char c :: nat) in
     (9 \<le> n \<and> n \<le> 13) \<or> n = 32 \<or> n = 133 \<or> n = 160)"

definition newline :: char where
  "newline = CHR 0x0A"

text \<open>The em dash some messages carry, by its UTF-8 bytes: text only ever passes it through.\<close>

definition em_dash :: string where
  "em_dash = [CHR 0xE2, CHR 0x80, CHR 0x94]"

definition is_ascii_digit :: "char \<Rightarrow> bool" where
  "is_ascii_digit c = (let n = (of_char c :: nat) in 48 \<le> n \<and> n \<le> 57)"

definition is_ascii_lowercase :: "char \<Rightarrow> bool" where
  "is_ascii_lowercase c = (let n = (of_char c :: nat) in 97 \<le> n \<and> n \<le> 122)"

definition starts_with :: "string \<Rightarrow> string \<Rightarrow> bool" where
  "starts_with p s = (take (length p) s = p)"

definition ends_with :: "string \<Rightarrow> string \<Rightarrow> bool" where
  "ends_with p s = starts_with (rev p) (rev s)"

fun str_contains :: "string \<Rightarrow> string \<Rightarrow> bool" where
  "str_contains p [] = (p = [])"
| "str_contains p (c # s) = (starts_with p (c # s) \<or> str_contains p s)"

definition strip_prefix :: "string \<Rightarrow> string \<Rightarrow> string option" where
  "strip_prefix p s = (if starts_with p s then Some (drop (length p) s) else None)"

definition trim_start :: "string \<Rightarrow> string" where
  "trim_start s = dropWhile is_whitespace s"

definition trim_end :: "string \<Rightarrow> string" where
  "trim_end s = rev (dropWhile is_whitespace (rev s))"

definition trim :: "string \<Rightarrow> string" where
  "trim s = trim_end (trim_start s)"

text \<open>\<open>split_once\<close>: the text before and after the first occurrence of a character.\<close>

definition split_once :: "char \<Rightarrow> string \<Rightarrow> (string \<times> string) option" where
  "split_once c s = (case dropWhile (\<lambda>d. d \<noteq> c) s of
      [] \<Rightarrow> None
    | _ # t \<Rightarrow> Some (takeWhile (\<lambda>d. d \<noteq> c) s, t))"

text \<open>\<open>split(c)\<close>: all the pieces, empty ones included.\<close>

fun split_char :: "char \<Rightarrow> string \<Rightarrow> string list" where
  "split_char c [] = [[]]"
| "split_char c (d # s) =
     (if d = c then [] # split_char c s
      else (case split_char c s of [] \<Rightarrow> [[d]] | w # ws \<Rightarrow> (d # w) # ws))"

lemma split_char_nonempty [simp]: "split_char c s \<noteq> []"
  by (cases s) (auto split: list.split)

lemma split_char_single: "split_char c s = [a] \<Longrightarrow> a = s"
  by (induction s arbitrary: a) (auto split: if_splits list.splits)

lemma split_char_suffix: "\<exists>pre. s = pre @ last (split_char c s)"
proof (induction s)
  case (Cons d s)
  have ne: "split_char c s \<noteq> []" by (cases s) (auto split: list.split)
  from Cons obtain pre where p: "s = pre @ last (split_char c s)" by blast
  show ?case
  proof (cases "d = c \<or> tl (split_char c s) \<noteq> []")
    case True
    then have "last (split_char c (d # s)) = last (split_char c s)"
      using ne by (cases "split_char c s") auto
    with p show ?thesis by (metis append_Cons)
  next
    case False
    then obtain a where "split_char c s = [a]" using ne by (cases "split_char c s") auto
    with False show ?thesis using split_char_single [of c s a] by (intro exI [of _ "[]"]) simp
  qed
qed simp

lemma last_split_char: "c \<notin> set t \<Longrightarrow> last (split_char c (s @ c # t)) = t \<and> length (split_char c (s @ c # t)) \<ge> 2"
proof (induction s)
  case Nil
  then have "split_char c t = [t]" by (induction t) auto
  then show ?case by simp
next
  case (Cons d s)
  then show ?case by (cases "split_char c (s @ c # t)") (auto split: if_splits)
qed

text \<open>First whitespace-separated word, \<open>split_whitespace().next()\<close>.\<close>

definition first_word :: "string \<Rightarrow> string option" where
  "first_word s = (case trim_start s of
      [] \<Rightarrow> None
    | t \<Rightarrow> Some (takeWhile (\<lambda>c. \<not> is_whitespace c) t))"

function split_whitespace :: "string \<Rightarrow> string list" where
  "split_whitespace s = (case trim_start s of
      [] \<Rightarrow> []
    | c # t \<Rightarrow> takeWhile (\<lambda>c. \<not> is_whitespace c) (c # t)
               # split_whitespace (dropWhile (\<lambda>c. \<not> is_whitespace c) t))"
  by pat_completeness auto
termination
proof (relation "measure length", simp)
  fix s c t
  assume "trim_start s = c # t"
  then have "length (c # t) \<le> length s"
    by (metis length_dropWhile_le trim_start_def)
  moreover have "length (dropWhile (\<lambda>c. \<not> is_whitespace c) t) \<le> length t"
    by (rule length_dropWhile_le)
  ultimately show "(dropWhile (\<lambda>c. \<not> is_whitespace c) t, s) \<in> measure length" by simp
qed

declare split_whitespace.simps [simp del]

text \<open>\<open>str::lines\<close>: pieces end at a newline, a carriage return before that newline goes
  with it, and a final empty piece is not produced.\<close>

definition strip_cr :: "string \<Rightarrow> string" where
  "strip_cr s = (if s \<noteq> [] \<and> last s = CHR 0x0D then butlast s else s)"

fun lines_from :: "string \<Rightarrow> string \<Rightarrow> string list" where
  "lines_from acc [] = (if acc = [] then [] else [rev acc])"
| "lines_from acc (c # s) =
     (if c = newline then strip_cr (rev acc) # lines_from [] s else lines_from (c # acc) s)"

definition lines :: "string \<Rightarrow> string list" where
  "lines s = lines_from [] s"

text \<open>A line written with its newline reads back as that line.\<close>

lemma lines_from_line:
  "newline \<notin> set l \<Longrightarrow>
     lines_from acc (l @ newline # s) = strip_cr (rev acc @ l) # lines_from [] s"
  by (induction l arbitrary: acc) auto

lemma lines_line: "newline \<notin> set l \<Longrightarrow> lines (l @ newline # s) = strip_cr l # lines s"
  by (simp add: lines_def lines_from_line)

lemma lines_last: "newline \<notin> set l \<Longrightarrow> l \<noteq> [] \<Longrightarrow> lines l = [l]"
proof -
  have "newline \<notin> set l \<Longrightarrow> lines_from acc l = (if acc = [] \<and> l = [] then [] else [rev acc @ l])" for acc
    by (induction l arbitrary: acc) auto
  then show "newline \<notin> set l \<Longrightarrow> l \<noteq> [] \<Longrightarrow> lines l = [l]" by (simp add: lines_def)
qed

lemma trim_no_ws: "\<lbrakk> \<forall>c \<in> set s. \<not> is_whitespace c \<rbrakk> \<Longrightarrow> trim s = s"
proof -
  assume s: "\<forall>c \<in> set s. \<not> is_whitespace c"
  have "dropWhile is_whitespace t = t" if "\<forall>c \<in> set t. \<not> is_whitespace c" for t
    using that by (cases t) auto
  from this [of s] this [of "rev s"] s show ?thesis
    by (simp add: trim_def trim_start_def trim_end_def)
qed

text \<open>Decimal integers as \<open>str::parse\<close> reads them: an optional sign, at least one digit,
  and an error when the value leaves the type's range.\<close>

fun digits_val :: "nat \<Rightarrow> string \<Rightarrow> nat option" where
  "digits_val acc [] = Some acc"
| "digits_val acc (c # s) =
     (if is_ascii_digit c then digits_val (10 * acc + (of_char c - 48)) s else None)"

definition parse_digits :: "string \<Rightarrow> nat option" where
  "parse_digits s = (if s = [] then None else digits_val 0 s)"

definition parse_signed :: "int \<Rightarrow> int \<Rightarrow> string \<Rightarrow> int option" where
  "parse_signed lo hi s =
     (let v = (case s of
          [] \<Rightarrow> None
        | c # t \<Rightarrow>
            if c = CHR ''-'' then map_option (\<lambda>n. - int n) (parse_digits t)
            else if c = CHR ''+'' then map_option int (parse_digits t)
            else map_option int (parse_digits s))
      in case v of None \<Rightarrow> None | Some n \<Rightarrow> if lo \<le> n \<and> n \<le> hi then Some n else None)"

definition parse_i64 :: "string \<Rightarrow> int option" where
  "parse_i64 s = parse_signed (- (2 ^ 63)) (2 ^ 63 - 1) s"

lemma parse_i64_range: "parse_i64 s = Some n \<Longrightarrow> - (2 ^ 63) \<le> n \<and> n \<le> 2 ^ 63 - 1"
  by (auto simp: parse_i64_def parse_signed_def Let_def split: option.splits if_splits)

text \<open>Decimal numerals as \<open>Display\<close> prints them.\<close>

fun nat_str :: "nat \<Rightarrow> string" where
  "nat_str n = (if n < 10 then [char_of (48 + n)] else nat_str (n div 10) @ [char_of (48 + n mod 10)])"

declare nat_str.simps [simp del]

definition int_str :: "int \<Rightarrow> string" where
  "int_str n = (if n < 0 then CHR ''-'' # nat_str (nat (- n)) else nat_str (nat n))"

lemma digits_val_append:
  "digits_val acc (s @ t) = (case digits_val acc s of None \<Rightarrow> None | Some a \<Rightarrow> digits_val a t)"
  by (induction s arbitrary: acc) auto

lemma digit_char:
  assumes "d < 10"
  shows "is_ascii_digit (char_of (48 + d))" and "of_char (char_of (48 + d) :: char) = (48 + d :: nat)"
  using assms by (simp_all add: is_ascii_digit_def Let_def)

lemma digits_val_nat_str: "digits_val 0 (nat_str n) = Some n"
proof (induction n rule: nat_str.induct)
  case (1 n)
  show ?case
  proof (cases "n < 10")
    case True
    then show ?thesis using digit_char [OF True] by (subst nat_str.simps) simp
  next
    case False
    then show ?thesis using 1 digit_char [of "n mod 10"]
      by (subst nat_str.simps) (simp add: digits_val_append)
  qed
qed

lemma nat_str_digits: "c \<in> set (nat_str n) \<Longrightarrow> is_ascii_digit c"
proof (induction n rule: nat_str.induct)
  case (1 n)
  then show ?case using digit_char(1) [of "n mod 10"] digit_char(1) [of n]
    by (subst (asm) (2) nat_str.simps) (auto split: if_splits)
qed

lemma nat_str_nonempty: "nat_str n \<noteq> []"
  by (subst nat_str.simps) simp

lemma parse_digits_nat_str: "parse_digits (nat_str n) = Some n"
  by (simp add: parse_digits_def nat_str_nonempty digits_val_nat_str)

lemma parse_signed_nat_str:
  assumes "lo \<le> int n" "int n \<le> hi"
  shows "parse_signed lo hi (nat_str n) = Some (int n)"
proof -
  obtain c t where ct: "nat_str n = c # t" using nat_str_nonempty by (cases "nat_str n") auto
  have "is_ascii_digit c" using nat_str_digits [of c n] ct by simp
  then have "c \<noteq> CHR ''-''" "c \<noteq> CHR ''+''" by (auto simp: is_ascii_digit_def Let_def)
  then show ?thesis using assms parse_digits_nat_str [of n] ct by (simp add: parse_signed_def)
qed

text \<open>Unsigned types take an optional \<open>+\<close> but no \<open>-\<close>; \<open>from_str_radix\<close> with base 16 takes
  both cases of the digits.\<close>

definition parse_unsigned :: "nat \<Rightarrow> string \<Rightarrow> nat option" where
  "parse_unsigned hi s =
     (case (case s of c # t \<Rightarrow> if c = CHR ''+'' then parse_digits t else parse_digits s | [] \<Rightarrow> None) of
        None \<Rightarrow> None | Some n \<Rightarrow> if n \<le> hi then Some n else None)"

definition parse_u32 :: "string \<Rightarrow> u32 option" where
  "parse_u32 s = map_option word_of_nat (parse_unsigned (2 ^ 32 - 1) s)"

definition hex_digit :: "char \<Rightarrow> nat option" where
  "hex_digit c = (let n = (of_char c :: nat) in
     if 48 \<le> n \<and> n \<le> 57 then Some (n - 48)
     else if 97 \<le> n \<and> n \<le> 102 then Some (n - 87)
     else if 65 \<le> n \<and> n \<le> 70 then Some (n - 55)
     else None)"

fun hex_val :: "nat \<Rightarrow> string \<Rightarrow> nat option" where
  "hex_val acc [] = Some acc"
| "hex_val acc (c # s) = (case hex_digit c of None \<Rightarrow> None | Some d \<Rightarrow> hex_val (16 * acc + d) s)"

definition parse_hex :: "nat \<Rightarrow> string \<Rightarrow> nat option" where
  "parse_hex hi s =
     (let t = (case s of c # t \<Rightarrow> if c = CHR ''+'' then t else s | [] \<Rightarrow> s) in
      if t = [] then None
      else case hex_val 0 t of None \<Rightarrow> None | Some n \<Rightarrow> if n \<le> hi then Some n else None)"

lemma unat_parse_u32: "parse_u32 s = Some w \<Longrightarrow> parse_unsigned (2 ^ 32 - 1) s = Some (unat w)"
  by (auto simp: parse_u32_def parse_unsigned_def unat_of_nat take_bit_nat_eq_self
      split: option.splits if_splits)

text \<open>The first word of a file that holds one word and a newline.\<close>

lemma first_word_line:
  assumes "w \<noteq> []" and "\<forall>c \<in> set w. \<not> is_whitespace c"
  shows "first_word (w @ [newline]) = Some w"
proof -
  obtain c s where cs: "w = c # s" using assms(1) by (cases w) auto
  have nl: "is_whitespace newline" by (simp add: is_whitespace_def newline_def Let_def)
  have "takeWhile (\<lambda>c. \<not> is_whitespace c) (s @ [newline]) = s"
    using assms(2) cs nl by (subst takeWhile_append2) auto
  then show ?thesis using assms(2) cs by (simp add: first_word_def trim_start_def)
qed

section \<open>The codec interface of stored words\<close>

text \<open>
  Every small enum of the program has an \<open>as_str\<close> and, where it is read back, a
  \<open>FromStr\<close> that accepts exactly those spellings. Files hold one such word and a newline;
  readers take the first word of the file.
\<close>

locale word_codec =
  fixes as_str :: "'a \<Rightarrow> string"
    and from_str :: "string \<Rightarrow> 'a option"
  assumes from_as_str: "from_str (as_str x) = Some x"
    and as_from_str: "from_str s = Some x \<Longrightarrow> s = as_str x"
    and as_str_word: "as_str x \<noteq> [] \<and> (\<forall>c \<in> set (as_str x). \<not> is_whitespace c)"
begin

lemma from_str_iff: "from_str s = Some x \<longleftrightarrow> s = as_str x"
  using from_as_str as_from_str by auto

lemma as_str_inj: "as_str x = as_str y \<longleftrightarrow> x = y"
  by (metis from_as_str option.inject)

lemma from_str_None: "from_str s = None \<longleftrightarrow> s \<notin> range as_str"
  by (metis from_str_iff not_None_eq rangeE rangeI)

lemma stored_word: "first_word (as_str x @ [newline]) = Some (as_str x)"
  using as_str_word by (simp add: first_word_line)

lemma stored_roundtrip: "Option.bind (first_word (as_str x @ [newline])) from_str = Some x"
  by (simp add: stored_word from_as_str)

lemma trim_as_str: "trim (as_str x) = as_str x"
  using as_str_word by (simp add: trim_no_ws)

end

end
