(* ===== verification/Fsm.thy ===== *)
theory Fsm
  imports Prelude
begin

text \<open>
  The pure main state machine of \<open>crates/hyprstate-fsm/src/fsm.rs\<close>: the states and
  event kinds, the world inputs, \<open>world_state\<close> (the Moore-style derivation),
  \<open>desired_state\<close> (the transition), the stuck-DPMS backstop and the internal panel
  guard. Rust's \<open>State::LidOpen\<close> is written \<open>fsm_state.LidOpen\<close> here, and
  \<open>EventKind::LidOpen\<close> is \<open>event_kind.LidOpen\<close>.
\<close>

section \<open>States, events, inputs\<close>

datatype fsm_state = LidOpen | Docked | Deferred | Countdown | Suspending

fun state_as_str :: "fsm_state \<Rightarrow> string" where
  "state_as_str fsm_state.LidOpen = ''LID_OPEN''"
| "state_as_str fsm_state.Docked = ''DOCKED''"
| "state_as_str fsm_state.Deferred = ''DEFERRED''"
| "state_as_str fsm_state.Countdown = ''COUNTDOWN''"
| "state_as_str fsm_state.Suspending = ''SUSPENDING''"

datatype event_kind =
    LidClose | LidOpen | MonitorAdded | MonitorRemoved | InhibitorOn | InhibitorOff
  | LockEngaged | LockReleased | AcPlugged | AcUnplugged | TimerExpired | Resumed
  | SuspendRequested | SuspendCancelled | Reconcile | MonitorsChanged | CtxRepaired
  | PlatformProfileChanged | GpuOverrideChanged | BatteryLowChanged
  | PowerOverrideChanged | PowerAcSettled

record world_inputs =
  wi_lid_closed :: bool
  wi_ext_mon_count :: u32
  wi_inhibitor :: bool
  wi_suspend_requested :: bool
  wi_locked :: bool
  wi_battery_low :: bool
  wi_lid_ac_hold :: bool

section \<open>Deriving the state from the world\<close>

definition claim_governs :: "world_inputs \<Rightarrow> bool" where
  "claim_governs w = (wi_inhibitor w \<and> \<not> wi_locked w \<and> \<not> wi_battery_low w)"

definition world_state :: "world_inputs \<Rightarrow> fsm_state" where
  "world_state w =
     (let claim = claim_governs w in
      if wi_suspend_requested w
      then (if claim then fsm_state.Deferred else fsm_state.Countdown)
      else if wi_lid_closed w \<and> wi_ext_mon_count w \<ge> 1 then fsm_state.Docked
      else if \<not> wi_lid_closed w then fsm_state.LidOpen
      else if claim \<or> wi_lid_ac_hold w then fsm_state.Deferred
      else fsm_state.Countdown)"

definition desired_state ::
  "fsm_state \<Rightarrow> event_kind \<Rightarrow> world_inputs \<Rightarrow> fsm_state option" where
  "desired_state st ev w =
     (if ev = event_kind.TimerExpired then
        (if st \<noteq> fsm_state.Countdown then None
         else let target = world_state w in
           Some (if target = fsm_state.Countdown then fsm_state.Suspending else target))
      else if ev = event_kind.Resumed then
        (if st = fsm_state.Suspending then Some (world_state w) else None)
      else if st = fsm_state.Suspending then None
      else let target = world_state w in
        if target \<noteq> st then Some target else None)"

section \<open>Screens\<close>

record stuck_screen_inputs =
  ss_dpms_off :: bool
  ss_locked :: bool
  ss_cursor_moved :: bool

definition dpms_stuck_off :: "fsm_state \<Rightarrow> stuck_screen_inputs \<Rightarrow> bool" where
  "dpms_stuck_off main s =
     (if \<not> ss_dpms_off s then False
      else if main \<noteq> fsm_state.LidOpen \<and> main \<noteq> fsm_state.Docked then False
      else \<not> ss_locked s \<or> ss_cursor_moved s)"

definition edp_may_disable :: "u32 \<Rightarrow> bool" where
  "edp_may_disable ext_mon_count = (ext_mon_count > 0)"

section \<open>The transition interface\<close>

text \<open>
  What the dispatcher relies on: a machine that, outside its one committed state, moves to
  what the world derives, enters the committed state only from one source state on one
  event, and leaves it on one other event only. The laws below are all its clients use.
\<close>

locale gated_moore =
  fixes derive :: "'w \<Rightarrow> 's"
    and nxt :: "'s \<Rightarrow> 'e \<Rightarrow> 'w \<Rightarrow> 's option"
    and commit src :: 's
    and fire release :: 'e
  assumes derive_not_commit: "derive w \<noteq> commit"
    and src_not_commit: "src \<noteq> commit"
    and nxt_commit: "nxt s e w = Some commit \<Longrightarrow> s = src \<and> e = fire \<and> derive w = src"
    and nxt_derive: "nxt s e w = Some t \<Longrightarrow> t \<noteq> commit \<Longrightarrow> t = derive w"
    and commit_released: "nxt commit e w = (if e = release then Some (derive w) else None)"
    and ordinary: "s \<noteq> commit \<Longrightarrow> e \<noteq> fire \<Longrightarrow> e \<noteq> release \<Longrightarrow>
        nxt s e w = (if derive w = s then None else Some (derive w))"
    and fire_src: "nxt src fire w = Some (if derive w = src then commit else derive w)"
begin

definition follow :: "'s \<Rightarrow> 'e \<times> 'w \<Rightarrow> 's" where
  "follow s ew = (case nxt s (fst ew) (snd ew) of None \<Rightarrow> s | Some t \<Rightarrow> t)"

lemma follow_ordinary:
  "s \<noteq> commit \<Longrightarrow> e \<noteq> fire \<Longrightarrow> e \<noteq> release \<Longrightarrow> follow s (e, w) = derive w"
  by (simp add: follow_def ordinary)

lemma follow_commit_stuck: "e \<noteq> release \<Longrightarrow> follow commit (e, w) = commit"
  by (simp add: follow_def commit_released)

lemma follow_enters_commit:
  "follow s (e, w) = commit \<Longrightarrow> s \<noteq> commit \<Longrightarrow> s = src \<and> e = fire \<and> derive w = src"
  using nxt_commit by (auto simp: follow_def split: option.splits)

text \<open>Without a release, a run that reaches the committed state stays there.\<close>

lemma foldl_commit_stuck:
  "release \<notin> fst ` set ews \<Longrightarrow> foldl follow commit ews = commit"
  by (induction ews) (auto simp: follow_commit_stuck)

text \<open>A run reaches the committed state only through a firing at the source state whose
  world derived the source state at that very moment: a stale firing never commits.\<close>

lemma foldl_commit_fired:
  assumes "foldl follow s ews = commit" and "s \<noteq> commit"
  shows "\<exists>xs w ys. ews = xs @ (fire, w) # ys \<and> foldl follow s xs = src \<and> derive w = src"
  using assms
proof (induction ews rule: rev_induct)
  case Nil
  then show ?case by simp
next
  case (snoc ew ews)
  obtain e w where ew: "ew = (e, w)" by (cases ew)
  show ?case
  proof (cases "foldl follow s ews = commit")
    case True
    with snoc obtain xs v ys where "ews = xs @ (fire, v) # ys"
      "foldl follow s xs = src" "derive v = src" by blast
    then show ?thesis by (intro exI [of _ xs] exI [of _ v] exI [of _ "ys @ [ew]"]) simp
  next
    case False
    with snoc.prems ew have "foldl follow s ews = src \<and> e = fire \<and> derive w = src"
      by (intro follow_enters_commit) simp_all
    with ew show ?thesis by (intro exI [of _ ews] exI [of _ w] exI [of _ "[]"]) simp
  qed
qed

end

interpretation main_fsm: gated_moore world_state desired_state
    fsm_state.Suspending fsm_state.Countdown event_kind.TimerExpired event_kind.Resumed
proof unfold_locales
  fix w show "world_state w \<noteq> fsm_state.Suspending"
    by (simp add: world_state_def Let_def)
next
  fix s e w assume "desired_state s e w = Some fsm_state.Suspending"
  then show "s = fsm_state.Countdown \<and> e = event_kind.TimerExpired \<and> world_state w = fsm_state.Countdown"
    by (auto simp: desired_state_def Let_def world_state_def split: if_splits)
next
  fix s e w t assume "desired_state s e w = Some t" "t \<noteq> fsm_state.Suspending"
  then show "t = world_state w" by (auto simp: desired_state_def Let_def split: if_splits)
qed (simp_all add: desired_state_def Let_def)

section \<open>Properties\<close>

text \<open>Over any history of events and worlds, the pure machine is in Suspending only if, at some
  earlier point of the history, it stood in Countdown, the timer expired, and the world of that
  very moment still derived Countdown.\<close>
lemma suspending_has_fresh_expiry:
  assumes "foldl main_fsm.follow s ews = fsm_state.Suspending" and "s \<noteq> fsm_state.Suspending"
  shows "\<exists>xs w ys. ews = xs @ (event_kind.TimerExpired, w) # ys
     \<and> foldl main_fsm.follow s xs = fsm_state.Countdown \<and> world_state w = fsm_state.Countdown"
  using main_fsm.foldl_commit_fired [OF assms] .

definition closed_lid :: world_inputs where
  "closed_lid = \<lparr>wi_lid_closed = True, wi_ext_mon_count = 0, wi_inhibitor = False,
     wi_suspend_requested = False, wi_locked = False, wi_battery_low = False, wi_lid_ac_hold = False\<rparr>"

lemma suspending_has_fresh_expiry_witness:
  "\<exists>xs w ys. [(event_kind.LidClose, closed_lid), (event_kind.TimerExpired, closed_lid)]
       = xs @ (event_kind.TimerExpired, w) # ys
     \<and> foldl main_fsm.follow fsm_state.LidOpen xs = fsm_state.Countdown
     \<and> world_state w = fsm_state.Countdown"
  by (rule suspending_has_fresh_expiry)
    (simp_all add: main_fsm.follow_def desired_state_def world_state_def claim_governs_def closed_lid_def)

text \<open>A keep-awake claim parks a closed lid or a standing request in Deferred exactly while it
  governs: locking the session or running low off the charger ends it, and then a request counts
  down wherever the lid is, and a closed lid without a monitor and without the charger's hold
  does too.\<close>
lemma claim_ends_with_lock_or_low_battery:
  assumes "wi_locked w \<or> wi_battery_low w"
  shows "(wi_suspend_requested w \<longrightarrow> world_state w = fsm_state.Countdown)
     \<and> (\<not> wi_suspend_requested w \<and> wi_lid_closed w \<and> wi_ext_mon_count w = 0 \<longrightarrow>
          world_state w = (if wi_lid_ac_hold w then fsm_state.Deferred else fsm_state.Countdown))
     \<and> world_state w = world_state (w\<lparr>wi_inhibitor := \<not> wi_inhibitor w\<rparr>)"
  using assms by (cases "wi_ext_mon_count w = 0") (auto simp: world_state_def claim_governs_def Let_def)

lemma claim_ends_with_lock_or_low_battery_witness:
  "world_state (closed_lid\<lparr>wi_inhibitor := True\<rparr>) = fsm_state.Deferred
   \<and> world_state (closed_lid\<lparr>wi_inhibitor := True, wi_locked := True\<rparr>) = fsm_state.Countdown"
  using claim_ends_with_lock_or_low_battery [of "closed_lid\<lparr>wi_inhibitor := True, wi_locked := True\<rparr>"]
  by (simp add: closed_lid_def world_state_def claim_governs_def)

end
