(* ===== verification/Events.thy ===== *)
theory Events
  imports Fsm
begin

text \<open>
  The typed events of \<open>src/daemon/event.rs\<close>, their projection to event kinds and their log
  labels, and the reconcile triggers of \<open>src/daemon/sources/reconciler.rs\<close>.
\<close>

section \<open>Events\<close>

record reconcile_snapshot =
  rs_reasons :: string
  rs_lid_closed :: bool
  rs_ext_mon_count :: u32
  rs_logind_inhibitor :: bool
  rs_wayland_inhibitor :: "bool option"
  rs_locked :: "bool option"
  rs_on_ac :: "bool option"
  rs_edp_disabled :: "bool option"
  rs_dpms_off :: "bool option"
  rs_cursor_pos :: "(int \<times> int) option"

datatype event =
    Lid bool
  | MonitorHotplug (hp_added: bool) (hp_name: string)
  | ConfigReloaded
  | ProfileApplied
  | MonitorsChanged
  | ProfilesChanged
  | Inhibitor (inh_wayland: bool) (inh_active: bool)
  | LockChanged bool
  | AcChanged bool
  | PowerAcSettled
  | TimerExpired
  | Resumed
  | ReconcileTick reconcile_snapshot
  | PlatformProfileChanged "string option"
  | GpuOverrideChanged "string option"
  | BatteryPercent f64
  | PowerOverrideChanged "string option"
  | SuspendRequestChanged "string option"
  | PowerdAppeared
  | BacklightHotplug
  | Sleeping
  | KbdIdle bool
  | KbdLevelChanged "u8 option"
  | KbdOverrideChanged bool
  | KbdLedHotplug

fun event_kind_of :: "event \<Rightarrow> event_kind" where
  "event_kind_of (Lid shut) = (if shut then event_kind.LidClose else event_kind.LidOpen)"
| "event_kind_of (MonitorHotplug added _) =
     (if added then event_kind.MonitorAdded else event_kind.MonitorRemoved)"
| "event_kind_of ConfigReloaded = event_kind.Reconcile"
| "event_kind_of ProfileApplied = event_kind.Reconcile"
| "event_kind_of event.MonitorsChanged = event_kind.MonitorsChanged"
| "event_kind_of ProfilesChanged = event_kind.MonitorsChanged"
| "event_kind_of (Inhibitor _ active) =
     (if active then event_kind.InhibitorOn else event_kind.InhibitorOff)"
| "event_kind_of (LockChanged b) = (if b then event_kind.LockEngaged else event_kind.LockReleased)"
| "event_kind_of (AcChanged b) = (if b then event_kind.AcPlugged else event_kind.AcUnplugged)"
| "event_kind_of event.PowerAcSettled = event_kind.PowerAcSettled"
| "event_kind_of event.TimerExpired = event_kind.TimerExpired"
| "event_kind_of event.Resumed = event_kind.Resumed"
| "event_kind_of (ReconcileTick _) = event_kind.CtxRepaired"
| "event_kind_of (event.PlatformProfileChanged _) = event_kind.PlatformProfileChanged"
| "event_kind_of (event.GpuOverrideChanged _) = event_kind.GpuOverrideChanged"
| "event_kind_of (BatteryPercent _) = event_kind.BatteryLowChanged"
| "event_kind_of (event.PowerOverrideChanged _) = event_kind.PowerOverrideChanged"
| "event_kind_of (SuspendRequestChanged w) =
     (if w = None then event_kind.SuspendCancelled else event_kind.SuspendRequested)"
| "event_kind_of PowerdAppeared = event_kind.PowerAcSettled"
| "event_kind_of BacklightHotplug = event_kind.CtxRepaired"
| "event_kind_of Sleeping = event_kind.CtxRepaired"
| "event_kind_of (KbdIdle _) = event_kind.CtxRepaired"
| "event_kind_of (KbdLevelChanged _) = event_kind.CtxRepaired"
| "event_kind_of (KbdOverrideChanged _) = event_kind.CtxRepaired"
| "event_kind_of KbdLedHotplug = event_kind.CtxRepaired"

fun kind_label :: "event_kind \<Rightarrow> string" where
  "kind_label event_kind.LidClose = ''LidClose''"
| "kind_label event_kind.LidOpen = ''LidOpen''"
| "kind_label event_kind.MonitorAdded = ''MonitorAdded''"
| "kind_label event_kind.MonitorRemoved = ''MonitorRemoved''"
| "kind_label event_kind.InhibitorOn = ''InhibitorOn''"
| "kind_label event_kind.InhibitorOff = ''InhibitorOff''"
| "kind_label event_kind.LockEngaged = ''LockEngaged''"
| "kind_label event_kind.LockReleased = ''LockReleased''"
| "kind_label event_kind.AcPlugged = ''AcPlugged''"
| "kind_label event_kind.AcUnplugged = ''AcUnplugged''"
| "kind_label event_kind.TimerExpired = ''TimerExpired''"
| "kind_label event_kind.Resumed = ''Resumed''"
| "kind_label event_kind.Reconcile = ''Reconcile''"
| "kind_label event_kind.MonitorsChanged = ''MonitorsChanged''"
| "kind_label event_kind.CtxRepaired = ''CtxRepaired''"
| "kind_label event_kind.PlatformProfileChanged = ''PlatformProfileChanged''"
| "kind_label event_kind.GpuOverrideChanged = ''GpuOverrideChanged''"
| "kind_label event_kind.BatteryLowChanged = ''BatteryLowChanged''"
| "kind_label event_kind.PowerOverrideChanged = ''PowerOverrideChanged''"
| "kind_label event_kind.PowerAcSettled = ''PowerAcSettled''"
| "kind_label event_kind.SuspendRequested = ''SuspendRequested''"
| "kind_label event_kind.SuspendCancelled = ''SuspendCancelled''"

definition event_label :: "event \<Rightarrow> string" where
  "event_label ev = (case ev of
       ProfilesChanged \<Rightarrow> ''ProfilesChanged''
     | BacklightHotplug \<Rightarrow> ''BacklightHotplug''
     | Sleeping \<Rightarrow> ''Sleeping''
     | KbdIdle idle \<Rightarrow> (if idle then ''KbdIdled'' else ''KbdResumed'')
     | KbdLevelChanged _ \<Rightarrow> ''KbdLevelChanged''
     | KbdOverrideChanged _ \<Rightarrow> ''KbdOverrideChanged''
     | KbdLedHotplug \<Rightarrow> ''KbdLedHotplug''
     | _ \<Rightarrow> kind_label (event_kind_of ev))"

text \<open>Labels identify kinds: the log is never ambiguous about what was evaluated.\<close>

lemma kind_label_inj: "kind_label a = kind_label b \<longleftrightarrow> a = b"
  by (cases a; cases b) simp_all

section \<open>Reconcile triggers\<close>

datatype reconcile_trigger =
    Startup | RtMonitorHotplug | RtConfigReloaded | RtProfileApplied | RtLockChanged
  | SessionLock | SessionUnlock | RtResumed | RtAcChanged | RtBatteryLowChanged
  | UeventsLost | SafetyTick

fun trigger_as_str :: "reconcile_trigger \<Rightarrow> string" where
  "trigger_as_str Startup = ''startup''"
| "trigger_as_str RtMonitorHotplug = ''monitor hotplug''"
| "trigger_as_str RtConfigReloaded = ''configreloaded''"
| "trigger_as_str RtProfileApplied = ''profile applied''"
| "trigger_as_str RtLockChanged = ''LockedHint changed''"
| "trigger_as_str SessionLock = ''session Lock''"
| "trigger_as_str SessionUnlock = ''session Unlock''"
| "trigger_as_str RtResumed = ''resumed''"
| "trigger_as_str RtAcChanged = ''AC changed''"
| "trigger_as_str RtBatteryLowChanged = ''battery-low changed''"
| "trigger_as_str UeventsLost = ''uevents lost''"
| "trigger_as_str SafetyTick = ''safety tick''"

lemma trigger_as_str_inj: "trigger_as_str a = trigger_as_str b \<longleftrightarrow> a = b"
  by (cases a; cases b) simp_all

text \<open>\<open>names.join(sep)\<close>.\<close>

fun join :: "string \<Rightarrow> string list \<Rightarrow> string" where
  "join sep [] = []"
| "join sep [s] = s"
| "join sep (s # t # ts) = s @ sep @ join sep (t # ts)"

fun describe_names :: "reconcile_trigger list \<Rightarrow> string list \<Rightarrow> string list" where
  "describe_names [] names = names"
| "describe_names (r # rs) names =
     describe_names rs
       (if trigger_as_str r \<in> set names then names else names @ [trigger_as_str r])"

definition describe :: "reconcile_trigger list \<Rightarrow> string" where
  "describe reasons = join '', '' (describe_names reasons [])"

text \<open>Each reason of a burst is named exactly once, in the order of its first occurrence.\<close>

fun firsts :: "'a set \<Rightarrow> 'a list \<Rightarrow> 'a list" where
  "firsts seen [] = []"
| "firsts seen (x # xs) = (if x \<in> seen then firsts seen xs else x # firsts (insert x seen) xs)"

lemma describe_names_firsts:
  "describe_names rs names = names @ firsts (set names) (map trigger_as_str rs)"
  by (induction rs arbitrary: names) simp_all

lemma set_firsts: "set (firsts seen xs) = set xs - seen"
  by (induction xs arbitrary: seen) auto

lemma distinct_firsts: "distinct (firsts seen xs)"
  by (induction xs arbitrary: seen) (auto simp: set_firsts)

end
