(* ===== verification/KbdRules.thy ===== *)
theory KbdRules
  imports Prelude
begin

text \<open>
  The keyboard backlight rules of \<open>crates/hyprstate-fsm/src/kbd.rs\<close>: the rule table
  \<open>kbd_lit\<close>, the darkness test, the override's lifetime, and the level arithmetic at
  the machine widths of the source (\<open>u8\<close> percents, \<open>u32\<close> raw values, a \<open>u64\<close>
  intermediate product).
\<close>

definition DEFAULT_KBD_IDLE_SECS :: u16 where "DEFAULT_KBD_IDLE_SECS = 10"
definition MAX_KBD_IDLE_SECS :: u16 where "MAX_KBD_IDLE_SECS = 600"
definition DEFAULT_KBD_DARK_LUX :: u32 where "DEFAULT_KBD_DARK_LUX = 10"
definition DEFAULT_KBD_LEVEL_PCT :: u8 where "DEFAULT_KBD_LEVEL_PCT = 50"
definition KBD_LEVEL_STEP :: u8 where "KBD_LEVEL_STEP = 10"

record kbd_inputs =
  ki_locked :: bool
  ki_sleeping :: bool
  ki_typing :: bool
  ki_dark :: bool
  ki_override_armed :: bool

definition kbd_lit :: "kbd_inputs \<Rightarrow> bool" where
  "kbd_lit w =
     (if ki_locked w \<or> ki_sleeping w then False
      else if \<not> ki_typing w then False
      else ki_dark w \<or> ki_override_armed w)"

definition is_dark :: "f64 \<Rightarrow> u32 \<Rightarrow> bool" where
  "is_dark lux dark_lux = f64_le lux (f64_of_nat (unat dark_lux))"

definition override_after_idle :: "bool \<Rightarrow> bool \<Rightarrow> bool" where
  "override_after_idle armed idled = (armed \<and> \<not> idled)"

definition clamp_level :: "int \<Rightarrow> u8" where
  "clamp_level pct = word_of_int (clamp 0 100 pct)"

definition step_level :: "u8 \<Rightarrow> bool \<Rightarrow> u8" where
  "step_level level up =
     (let delta = uint KBD_LEVEL_STEP in
      clamp_level (uint level + (if up then delta else - delta)))"

definition clamp_u32 :: "u32 \<Rightarrow> u32 \<Rightarrow> u32 \<Rightarrow> u32" where
  "clamp_u32 lo hi x = (if x < lo then lo else if x > hi then hi else x)"

definition level_to_raw :: "u8 \<Rightarrow> u32 \<Rightarrow> u32" where
  "level_to_raw pct mx =
     (if pct = 0 \<or> mx = 0 then 0
      else let raw = (ucast mx * ucast pct + 50 :: u64) div 100
        in clamp_u32 1 mx (ucast raw))"

section \<open>Levels stay percents\<close>

lemma unat_clamp_level: "unat (clamp_level n) = nat (clamp 0 100 n)"
proof -
  have b: "0 \<le> clamp 0 100 n \<and> clamp 0 100 n \<le> 100" by (rule clamp_bounds) simp
  then have "uint (word_of_int (clamp 0 100 n) :: u8) = clamp 0 100 n"
    by (simp add: uint_word_of_int)
  then show ?thesis by (simp add: clamp_level_def unat_eq_nat_uint)
qed

lemma clamp_level_le_100: "unat (clamp_level n) \<le> 100"
  using clamp_bounds [of 0 100 n] by (simp add: unat_clamp_level nat_le_iff)

lemma step_level_unfold:
  "step_level l up = clamp_level (int (unat l) + (if up then 10 else - 10))"
  by (simp add: step_level_def KBD_LEVEL_STEP_def Let_def)

lemma nat_clamp_step:
  "nat (clamp 0 100 (int n + (if up then 10 else - 10))) =
     (if up then min 100 (n + 10) else min 100 (n - 10))"
  by (auto simp: clamp_def)

lemma unat_step_level:
  "unat (step_level l up) =
     (if up then min 100 (unat l + 10) else min 100 (unat l - 10))"
  unfolding step_level_unfold unat_clamp_level by (rule nat_clamp_step)

section \<open>Raw LED values\<close>

text \<open>The \<open>u64\<close> product never wraps, so the raw value is the rounded quotient.\<close>

lemma unat_raw_product:
  fixes mx :: u32 and pct :: u8
  shows "unat ((ucast mx * ucast pct + 50 :: u64) div 100) = (unat mx * unat pct + 50) div 100"
proof -
  have b: "unat mx < 2 ^ 32" "unat pct < 2 ^ 8"
    using unat_lt2p [of mx] unat_lt2p [of pct] by simp_all
  have m: "unat (ucast mx :: u64) = unat mx"
    using b(1) by (simp add: unsigned_ucast_eq take_bit_nat_eq_self)
  have p: "unat (ucast pct :: u64) = unat pct"
    using b(2) by (simp add: unsigned_ucast_eq take_bit_nat_eq_self)
  have "unat mx * unat pct \<le> (2 ^ 32) * (2 ^ 8)"
    using b by (intro mult_le_mono) simp_all
  then have small: "unat mx * unat pct + 50 < 2 ^ 64" by simp
  have "unat (ucast mx * ucast pct + 50 :: u64) = unat mx * unat pct + 50"
    using small by (simp add: unat_word_ariths m p)
  then show ?thesis by (simp add: unat_div)
qed

lemma percent_le: "p \<le> 100 \<Longrightarrow> (m * p + 50) div 100 \<le> (m :: nat)"
proof -
  assume "p \<le> 100"
  then have "m * p \<le> m * 100" by simp
  then have "(m * p + 50) div 100 \<le> (m * 100 + 50) div 100" by (intro div_le_mono) simp
  also have "\<dots> = m" by simp
  finally show ?thesis .
qed

lemma unat_level_to_raw:
  assumes "unat pct \<le> 100" and "pct \<noteq> 0" and "mx \<noteq> 0"
  shows "unat (level_to_raw pct mx) = max 1 ((unat mx * unat pct + 50) div 100)"
proof -
  let ?q = "(unat mx * unat pct + 50) div 100"
  let ?raw = "(ucast mx * ucast pct + 50 :: u64) div 100"
  have mx: "1 \<le> unat mx" using assms(3) by (simp add: Suc_le_eq unat_gt_0)
  have le: "?q \<le> unat mx" by (rule percent_le) (rule assms(1))
  then have lt: "?q < 2 ^ 32" using unat_lt2p [of mx] by simp
  have raw: "unat (ucast ?raw :: u32) = ?q"
    using lt unat_raw_product [of mx pct] by (simp add: unsigned_ucast_eq take_bit_nat_eq_self)
  show ?thesis
    using assms(2,3) le mx raw
    by (auto simp: level_to_raw_def clamp_u32_def Let_def word_less_nat_alt max_def)
qed

lemma level_to_raw_zero: "level_to_raw 0 mx = 0" "level_to_raw pct 0 = 0"
  by (simp_all add: level_to_raw_def)

lemma level_to_raw_le: "unat pct \<le> 100 \<Longrightarrow> unat (level_to_raw pct mx) \<le> unat mx"
proof (cases "pct = 0 \<or> mx = 0")
  case False
  assume p: "unat pct \<le> 100"
  have "1 \<le> unat mx" using False by (simp add: Suc_le_eq unat_gt_0)
  then show ?thesis
    using False unat_level_to_raw [OF p] percent_le [OF p, of "unat mx"] by simp
qed (auto simp: level_to_raw_def)

lemma level_to_raw_mono:
  assumes "unat p \<le> unat q" and "unat q \<le> 100"
  shows "unat (level_to_raw p mx) \<le> unat (level_to_raw q mx)"
proof (cases "p = 0 \<or> mx = 0")
  case False
  then have q: "q \<noteq> 0" using assms(1) by (auto simp: unat_eq_0)
  have "(unat mx * unat p + 50) div 100 \<le> (unat mx * unat q + 50) div 100"
    using assms(1) by (intro div_le_mono) simp
  then show ?thesis
    using False q assms by (simp add: unat_level_to_raw max.coboundedI2)
qed (auto simp: level_to_raw_def)

section \<open>The rule table\<close>

lemma kbd_lit_iff:
  "kbd_lit w \<longleftrightarrow> \<not> ki_locked w \<and> \<not> ki_sleeping w \<and> ki_typing w \<and> (ki_dark w \<or> ki_override_armed w)"
  by (simp add: kbd_lit_def)

lemma not_dark_nan: "\<not> is_dark NaN d"
  by (simp add: is_dark_def)

lemma is_dark_mono: "is_dark lux d \<Longrightarrow> d \<le> d' \<Longrightarrow> is_dark lux d'"
  by (auto simp: is_dark_def word_le_nat_alt elim: f64_le_trans_nat)

section \<open>Properties\<close>

text \<open>For every level the policy can store and every LED range, the raw value written is the
  percentage of the range rounded to the nearest step, at least 1 for a level that is not zero,
  never beyond the range, and monotone in the level; the product never overflows its \<open>u64\<close>.\<close>
lemma level_to_raw_rounds:
  assumes "unat pct \<le> 100"
  shows "unat (level_to_raw pct mx) =
       (if pct = 0 \<or> mx = 0 then 0 else max 1 ((unat mx * unat pct + 50) div 100))
     \<and> unat (level_to_raw pct mx) \<le> unat mx
     \<and> (unat lower \<le> unat pct \<longrightarrow> unat (level_to_raw lower mx) \<le> unat (level_to_raw pct mx))"
  using assms unat_level_to_raw [OF assms] level_to_raw_le [OF assms] level_to_raw_mono [of lower pct mx]
  by (auto simp: level_to_raw_zero)

lemma level_to_raw_rounds_witness:
  "unat (level_to_raw 50 255) = 128 \<and> unat (level_to_raw 1 3) = 1"
  using level_to_raw_rounds [of 50 255 0] level_to_raw_rounds [of 1 3 0] by simp

text \<open>\<open>n\<close> presses of one level key, as one step.\<close>

lemma level_keys_saturate:
  assumes "unat l \<le> 100"
  shows "unat (((\<lambda>x. step_level x True) ^^ n) l) = min 100 (unat l + 10 * n)
     \<and> unat (((\<lambda>x. step_level x False) ^^ n) l) = unat l - 10 * n"
  using assms by (induction n) (auto simp: unat_step_level min_def)

end
