(* ===== verification/PowerRules.thy ===== *)
theory PowerRules
  imports KbdRules
begin

text \<open>
  The power policy types and rules of \<open>crates/hyprstate-fsm/src/power.rs\<close>: profiles and
  their stored words, the base state, the battery-low hysteresis, the policy map, and the
  self-write tracker behind profile adoption. The \<open>u8\<close> arithmetic of the hysteresis is
  kept at its width.
\<close>

section \<open>Profiles and their words\<close>

datatype power_profile = PowerSaver | Balanced | Performance

fun power_profile_as_str :: "power_profile \<Rightarrow> string" where
  "power_profile_as_str PowerSaver = ''power-saver''"
| "power_profile_as_str Balanced = ''balanced''"
| "power_profile_as_str Performance = ''performance''"

definition power_profile_from_str :: "string \<Rightarrow> power_profile option" where
  "power_profile_from_str s =
     (if s = ''power-saver'' then Some PowerSaver
      else if s = ''balanced'' then Some Balanced
      else if s = ''performance'' then Some Performance
      else None)"

interpretation profile_word: word_codec power_profile_as_str power_profile_from_str
proof unfold_locales
  fix x show "power_profile_from_str (power_profile_as_str x) = Some x"
    by (cases x) (simp_all add: power_profile_from_str_def)
next
  fix s x assume "power_profile_from_str s = Some x"
  then show "s = power_profile_as_str x"
    by (auto simp: power_profile_from_str_def split: if_splits)
next
  fix x show "power_profile_as_str x \<noteq> [] \<and> (\<forall>c \<in> set (power_profile_as_str x). \<not> is_whitespace c)"
    by (cases x) (simp_all add: is_whitespace_def Let_def)
qed

fun platform_profile_chain :: "power_profile \<Rightarrow> string list" where
  "platform_profile_chain PowerSaver = [''low-power'', ''quiet'']"
| "platform_profile_chain Balanced = [''balanced'']"
| "platform_profile_chain Performance = [''performance'']"

definition profile_from_platform_value :: "string option \<Rightarrow> power_profile" where
  "profile_from_platform_value value =
     (if value = Some ''low-power'' \<or> value = Some ''quiet'' then PowerSaver
      else if value = Some ''performance'' then Performance
      else Balanced)"

lemma profile_from_chain:
  "v \<in> set (platform_profile_chain p) \<Longrightarrow> profile_from_platform_value (Some v) = p"
  by (cases p) (auto simp: profile_from_platform_value_def)

lemma chain_nonempty: "platform_profile_chain p \<noteq> []"
  by (cases p) simp_all

section \<open>Base state\<close>

datatype base_state = DockedAc | Ac | Battery | BatteryLow

fun base_state_as_str :: "base_state \<Rightarrow> string" where
  "base_state_as_str DockedAc = ''docked-ac''"
| "base_state_as_str Ac = ''ac''"
| "base_state_as_str Battery = ''battery''"
| "base_state_as_str BatteryLow = ''battery-low''"

definition power_base_state :: "bool \<Rightarrow> u32 \<Rightarrow> bool \<Rightarrow> base_state" where
  "power_base_state on_ac_settled ext_mon_count low_battery =
     (if on_ac_settled then (if ext_mon_count \<ge> 1 then DockedAc else Ac)
      else if low_battery then BatteryLow
      else Battery)"

datatype axis = AxisAc | AxisBattery

fun ac_axis :: "base_state \<Rightarrow> axis" where
  "ac_axis Ac = AxisAc"
| "ac_axis DockedAc = AxisAc"
| "ac_axis Battery = AxisBattery"
| "ac_axis BatteryLow = AxisBattery"

lemma ac_axis_base [simp]:
  "ac_axis (power_base_state ac ext low) = (if ac then AxisAc else AxisBattery)"
  by (simp add: power_base_state_def)

section \<open>Battery-low hysteresis\<close>

definition BATTERY_LOW_EXIT_DELTA :: u8 where "BATTERY_LOW_EXIT_DELTA = 3"
definition DEFAULT_BATTERY_LOW_PCT :: u8 where "DEFAULT_BATTERY_LOW_PCT = 15"

definition battery_low_step :: "bool \<Rightarrow> f64 \<Rightarrow> u8 \<Rightarrow> bool" where
  "battery_low_step low pct threshold =
     (if \<not> low \<and> f64_le pct (f64_of_nat (unat threshold)) then True
      else if low \<and> f64_le (f64_of_nat (unat (threshold + BATTERY_LOW_EXIT_DELTA))) pct then False
      else low)"

text \<open>
  A two-threshold switch over samples: \<open>enter\<close> and \<open>leave\<close> exclude each other wherever the
  setting is \<open>ok\<close>, and a step flips only on its own side's condition.
\<close>

locale hysteresis =
  fixes stp :: "bool \<Rightarrow> 'p \<Rightarrow> 't \<Rightarrow> bool"
    and enter leave :: "'p \<Rightarrow> 't \<Rightarrow> bool"
    and ok :: "'t \<Rightarrow> bool"
  assumes excl: "ok t \<Longrightarrow> enter p t \<Longrightarrow> \<not> leave p t"
    and stp_low: "stp False p t = enter p t"
    and stp_high: "stp True p t = (\<not> leave p t)"
begin

definition decisive :: "'t \<Rightarrow> 'p \<Rightarrow> bool" where
  "decisive t p = (enter p t \<or> leave p t)"

lemma stp_decisive: "ok t \<Longrightarrow> decisive t p \<Longrightarrow> stp b p t = enter p t"
  using excl by (cases b) (auto simp: stp_low stp_high decisive_def)

lemma stp_hold: "\<not> decisive t p \<Longrightarrow> stp b p t = b"
  by (cases b) (auto simp: stp_low stp_high decisive_def)

lemma stp_idem: "ok t \<Longrightarrow> stp (stp b p t) p t = stp b p t"
  by (cases "decisive t p") (simp_all add: stp_decisive stp_hold)

text \<open>After any samples the verdict is that of the last decisive one; with none, it is the
  verdict the samples started from.\<close>

lemma foldl_last_decisive:
  "ok t \<Longrightarrow> foldl (\<lambda>b p. stp b p t) b ps =
     (case filter (decisive t) (rev ps) of [] \<Rightarrow> b | p # _ \<Rightarrow> enter p t)"
proof (induction ps rule: rev_induct)
  case (snoc p ps)
  then show ?case by (cases "decisive t p") (simp_all add: stp_decisive stp_hold)
qed simp

text \<open>Inside the band nothing flaps.\<close>

lemma foldl_hold: "\<forall>p \<in> set ps. \<not> decisive t p \<Longrightarrow> foldl (\<lambda>b p. stp b p t) b ps = b"
  by (induction ps) (simp_all add: stp_hold)

end

definition low_enter :: "f64 \<Rightarrow> u8 \<Rightarrow> bool" where
  "low_enter pct t = f64_le pct (f64_of_nat (unat t))"

definition low_leave :: "f64 \<Rightarrow> u8 \<Rightarrow> bool" where
  "low_leave pct t = f64_le (f64_of_nat (unat (t + BATTERY_LOW_EXIT_DELTA))) pct"

definition low_threshold_ok :: "u8 \<Rightarrow> bool" where
  "low_threshold_ok t = (unat t \<le> 252)"

lemma unat_exit_threshold:
  assumes "low_threshold_ok t" shows "unat (t + BATTERY_LOW_EXIT_DELTA) = unat t + 3"
proof -
  have "unat t + unat (3 :: u8) < 2 ^ LENGTH(8)"
    using assms by (simp add: low_threshold_ok_def)
  then show ?thesis by (simp add: BATTERY_LOW_EXIT_DELTA_def unat_word_ariths)
qed

interpretation low_hyst: hysteresis battery_low_step low_enter low_leave low_threshold_ok
proof unfold_locales
  fix t p assume "low_threshold_ok t" "low_enter p t"
  then show "\<not> low_leave p t"
    unfolding low_enter_def low_leave_def
    by (intro f64_band [where m = "unat t"]) (simp_all add: unat_exit_threshold)
qed (simp_all add: battery_low_step_def low_enter_def low_leave_def)

section \<open>The policy map\<close>

record power_policy =
  pp_docked_ac :: power_profile
  pp_ac :: power_profile
  pp_battery :: power_profile
  pp_battery_low :: power_profile

definition default_power_policy :: power_policy where
  "default_power_policy = \<lparr>pp_docked_ac = Balanced, pp_ac = Balanced,
     pp_battery = PowerSaver, pp_battery_low = PowerSaver\<rparr>"

fun for_base :: "power_policy \<Rightarrow> base_state \<Rightarrow> power_profile" where
  "for_base pol DockedAc = pp_docked_ac pol"
| "for_base pol Ac = pp_ac pol"
| "for_base pol Battery = pp_battery pol"
| "for_base pol BatteryLow = pp_battery_low pol"

section \<open>Self-write tracking\<close>

definition ADOPT_SUPPRESS :: duration where "ADOPT_SUPPRESS = secs 5"

record self_write_tracker =
  sw_entries :: "(instant \<times> string list) list"
  sw_last_apply :: "instant option"

definition tracker_empty :: self_write_tracker where
  "tracker_empty = \<lparr>sw_entries = [], sw_last_apply = None\<rparr>"

definition tracker_register ::
  "instant \<Rightarrow> power_profile \<Rightarrow> self_write_tracker \<Rightarrow> self_write_tracker" where
  "tracker_register now profile tr =
     tr\<lparr>sw_entries := sw_entries tr @ [(now + ADOPT_SUPPRESS, platform_profile_chain profile)],
        sw_last_apply := Some now\<rparr>"

fun remove_first :: "('a \<Rightarrow> bool) \<Rightarrow> 'a list \<Rightarrow> 'a list" where
  "remove_first P [] = []"
| "remove_first P (x # xs) = (if P x then xs else x # remove_first P xs)"

definition is_self_write ::
  "instant \<Rightarrow> string option \<Rightarrow> self_write_tracker \<Rightarrow> bool \<times> self_write_tracker" where
  "is_self_write now value tr =
     (let live = filter (\<lambda>(expiry, _). expiry > now) (sw_entries tr);
          window = (case sw_last_apply tr of Some t \<Rightarrow> now - t < ADOPT_SUPPRESS | None \<Rightarrow> False)
      in case value of
          Some v \<Rightarrow>
            if \<exists>e \<in> set live. v \<in> set (snd e)
            then (True, tr\<lparr>sw_entries := remove_first (\<lambda>e. v \<in> set (snd e)) live\<rparr>)
            else (window, tr\<lparr>sw_entries := live\<rparr>)
        | None \<Rightarrow> (window, tr\<lparr>sw_entries := live\<rparr>))"

text \<open>What registering on a monotonic clock maintains: every live entry was registered no
  later than the last apply.\<close>

definition tracker_inv :: "self_write_tracker \<Rightarrow> bool" where
  "tracker_inv tr = (\<forall>e \<in> set (sw_entries tr).
     \<exists>t. sw_last_apply tr = Some t \<and> fst e \<le> t + ADOPT_SUPPRESS)"

lemma tracker_inv_empty [simp]: "tracker_inv tracker_empty"
  by (simp add: tracker_inv_def tracker_empty_def)

lemma tracker_inv_register:
  "\<lbrakk> tracker_inv tr; \<And>t. sw_last_apply tr = Some t \<Longrightarrow> t \<le> now \<rbrakk>
     \<Longrightarrow> tracker_inv (tracker_register now p tr)"
  by (fastforce simp: tracker_inv_def tracker_register_def)

lemma set_remove_first: "set (remove_first P xs) \<subseteq> set xs"
  by (induction xs) auto

lemma is_self_write_last_apply [simp]:
  "sw_last_apply (snd (is_self_write now v tr)) = sw_last_apply tr"
  by (simp add: is_self_write_def Let_def split: option.split)

lemma is_self_write_entries:
  "set (sw_entries (snd (is_self_write now v tr))) \<subseteq> {e \<in> set (sw_entries tr). fst e > now}"
proof -
  have "set (remove_first P (filter (\<lambda>(expiry, _). expiry > now) xs)) \<subseteq> {e \<in> set xs. fst e > now}"
    for P :: "instant \<times> string list \<Rightarrow> bool" and xs
    using set_remove_first [of P "filter (\<lambda>(expiry, _). expiry > now) xs"] by auto
  then show ?thesis
    by (auto simp: is_self_write_def Let_def split: option.split)
qed

lemma tracker_inv_is_self_write: "tracker_inv tr \<Longrightarrow> tracker_inv (snd (is_self_write now v tr))"
  using is_self_write_entries [of now v tr] by (fastforce simp: tracker_inv_def)

text \<open>Under the invariant the entries never decide anything: a change is a self-write
  exactly when it falls inside the window after the last apply.\<close>

lemma is_self_write_window:
  assumes "tracker_inv tr"
  shows "fst (is_self_write now v tr) \<longleftrightarrow>
    (\<exists>t. sw_last_apply tr = Some t \<and> now - t < ADOPT_SUPPRESS)"
proof -
  let ?live = "filter (\<lambda>(expiry, _). expiry > now) (sw_entries tr)"
  have win: "\<exists>t. sw_last_apply tr = Some t \<and> now - t < ADOPT_SUPPRESS" if "e \<in> set ?live" for e
  proof -
    from that have e: "e \<in> set (sw_entries tr)" "now < fst e" by auto
    with assms obtain t where "sw_last_apply tr = Some t" "fst e \<le> t + ADOPT_SUPPRESS"
      by (auto simp: tracker_inv_def)
    with e(2) show ?thesis by (intro exI [of _ t]) (auto simp: ADOPT_SUPPRESS_def secs_def)
  qed
  show ?thesis
  proof (cases "\<exists>u e. v = Some u \<and> e \<in> set ?live \<and> u \<in> set (snd e)")
    case True
    then obtain u e where ue: "v = Some u" "e \<in> set ?live" "u \<in> set (snd e)" by blast
    have "fst (is_self_write now v tr)"
      using ue by (auto simp: is_self_write_def Let_def)
    with win [OF ue(2)] show ?thesis by blast
  next
    case False
    then show ?thesis by (auto simp: is_self_write_def Let_def split: option.split)
  qed
qed

section \<open>The daemon-level enums of power.conf\<close>

datatype lid_mode = Present | Absent

fun lid_mode_as_str :: "lid_mode \<Rightarrow> string" where
  "lid_mode_as_str Present = ''present''"
| "lid_mode_as_str Absent = ''absent''"

definition lid_mode_from_str :: "string \<Rightarrow> lid_mode option" where
  "lid_mode_from_str s =
     (if s = ''present'' then Some Present else if s = ''absent'' then Some Absent else None)"

datatype lid_ac_policy = Suspend | Defer

fun lid_ac_as_str :: "lid_ac_policy \<Rightarrow> string" where
  "lid_ac_as_str Suspend = ''suspend''"
| "lid_ac_as_str Defer = ''defer''"

definition lid_ac_from_str :: "string \<Rightarrow> lid_ac_policy option" where
  "lid_ac_from_str s =
     (if s = ''suspend'' then Some Suspend else if s = ''defer'' then Some Defer else None)"

datatype kbd_mode = Auto | Off

fun kbd_mode_as_str :: "kbd_mode \<Rightarrow> string" where
  "kbd_mode_as_str Auto = ''auto''"
| "kbd_mode_as_str Off = ''off''"

definition kbd_mode_from_str :: "string \<Rightarrow> kbd_mode option" where
  "kbd_mode_from_str s =
     (if s = ''auto'' then Some Auto else if s = ''off'' then Some Off else None)"

interpretation lid_word: word_codec lid_mode_as_str lid_mode_from_str
proof unfold_locales
  fix x show "lid_mode_from_str (lid_mode_as_str x) = Some x"
    by (cases x) (simp_all add: lid_mode_from_str_def)
next
  fix s x assume "lid_mode_from_str s = Some x"
  then show "s = lid_mode_as_str x" by (auto simp: lid_mode_from_str_def split: if_splits)
next
  fix x show "lid_mode_as_str x \<noteq> [] \<and> (\<forall>c \<in> set (lid_mode_as_str x). \<not> is_whitespace c)"
    by (cases x) (simp_all add: is_whitespace_def Let_def)
qed

interpretation lid_ac_word: word_codec lid_ac_as_str lid_ac_from_str
proof unfold_locales
  fix x show "lid_ac_from_str (lid_ac_as_str x) = Some x"
    by (cases x) (simp_all add: lid_ac_from_str_def)
next
  fix s x assume "lid_ac_from_str s = Some x"
  then show "s = lid_ac_as_str x" by (auto simp: lid_ac_from_str_def split: if_splits)
next
  fix x show "lid_ac_as_str x \<noteq> [] \<and> (\<forall>c \<in> set (lid_ac_as_str x). \<not> is_whitespace c)"
    by (cases x) (simp_all add: is_whitespace_def Let_def)
qed

interpretation kbd_word: word_codec kbd_mode_as_str kbd_mode_from_str
proof unfold_locales
  fix x show "kbd_mode_from_str (kbd_mode_as_str x) = Some x"
    by (cases x) (simp_all add: kbd_mode_from_str_def)
next
  fix s x assume "kbd_mode_from_str s = Some x"
  then show "s = kbd_mode_as_str x" by (auto simp: kbd_mode_from_str_def split: if_splits)
next
  fix x show "kbd_mode_as_str x \<noteq> [] \<and> (\<forall>c \<in> set (kbd_mode_as_str x). \<not> is_whitespace c)"
    by (cases x) (simp_all add: is_whitespace_def Let_def)
qed

section \<open>Properties\<close>

text \<open>The battery-low flag is a hysteresis: after any sequence of readings it is what the last
  decisive reading says (at or below the threshold: low; three points above it or more: not
  low), and what it was before if none was decisive. Readings in between, and readings that are
  not numbers, never move it.\<close>
lemma battery_low_hysteresis:
  assumes "unat t \<le> 252"
  shows "foldl (\<lambda>low pct. battery_low_step low pct t) low0 pcts =
     (case filter (\<lambda>p. f64_le p (f64_of_nat (unat t)) \<or> f64_le (f64_of_nat (unat t + 3)) p) (rev pcts) of
        [] \<Rightarrow> low0
      | p # _ \<Rightarrow> f64_le p (f64_of_nat (unat t)))"
proof -
  have ok: "low_threshold_ok t" using assms by (simp add: low_threshold_ok_def)
  have d: "low_hyst.decisive t = (\<lambda>p. f64_le p (f64_of_nat (unat t)) \<or> f64_le (f64_of_nat (unat t + 3)) p)"
    by (simp add: fun_eq_iff low_hyst.decisive_def low_enter_def low_leave_def unat_exit_threshold [OF ok])
  show ?thesis using low_hyst.foldl_last_decisive [OF ok, of low0 pcts] unfolding d low_enter_def .
qed

lemma battery_low_hysteresis_witness:
  "foldl (\<lambda>low pct. battery_low_step low pct 15) False [Finite 40, Finite 15, Finite 17, NaN] = True
   \<and> foldl (\<lambda>low pct. battery_low_step low pct 15) False [Finite 15, Finite 18, Finite 16] = False"
  using battery_low_hysteresis [of 15 False "[Finite 40, Finite 15, Finite 17, NaN]"]
    battery_low_hysteresis [of 15 False "[Finite 15, Finite 18, Finite 16]"]
  by (simp add: f64_of_nat_def)

text \<open>The operations of the tracker as the daemon interleaves them, in time order.\<close>

datatype tracker_op = Register instant power_profile | CheckValue instant "string option"

fun op_time :: "tracker_op \<Rightarrow> instant" where
  "op_time (Register t _) = t"
| "op_time (CheckValue t _) = t"

fun do_op :: "tracker_op \<Rightarrow> self_write_tracker \<Rightarrow> self_write_tracker" where
  "do_op (Register t p) tr = tracker_register t p tr"
| "do_op (CheckValue t v) tr = snd (is_self_write t v tr)"

fun last_register :: "tracker_op list \<Rightarrow> instant option" where
  "last_register [] = None"
| "last_register (op # ops) = (case last_register ops of
      Some t \<Rightarrow> Some t
    | None \<Rightarrow> (case op of Register t _ \<Rightarrow> Some t | CheckValue _ _ \<Rightarrow> None))"

lemma last_register_snoc:
  "last_register (ops @ [op]) = (case op of Register t _ \<Rightarrow> Some t | CheckValue _ _ \<Rightarrow> last_register ops)"
  by (induction ops) (auto split: option.splits tracker_op.splits)

lemma last_register_mem: "last_register ops = Some t \<Longrightarrow> \<exists>p. Register t p \<in> set ops"
  by (induction ops) (auto split: option.splits tracker_op.splits)

lemma tracker_history:
  "sorted (map op_time ops) \<Longrightarrow>
     tracker_inv (fold do_op ops tracker_empty)
     \<and> sw_last_apply (fold do_op ops tracker_empty) = last_register ops"
proof (induction ops rule: rev_induct)
  case Nil
  show ?case using tracker_inv_empty by (simp add: tracker_empty_def)
next
  case (snoc op ops)
  let ?tr = "fold do_op ops tracker_empty"
  have IH: "tracker_inv ?tr" "sw_last_apply ?tr = last_register ops"
    using snoc by (simp_all add: sorted_append)
  have "t \<le> op_time op" if "last_register ops = Some t" for t
    using last_register_mem [OF that] snoc.prems by (force simp: sorted_append)
  then show ?case
    using IH tracker_inv_register [of ?tr "op_time op"] tracker_inv_is_self_write [OF IH(1)]
    by (cases op) (auto simp: last_register_snoc tracker_register_def)
qed

text \<open>Over any time-ordered history of applies and platform changes, a change is taken for the
  daemon's own exactly when it comes less than five seconds after the last apply: a change
  outside that window is always adopted, one inside it never, whatever its value.\<close>
lemma self_write_is_the_window:
  assumes "sorted (map op_time ops)"
  shows "fst (is_self_write now v (fold do_op ops tracker_empty)) \<longleftrightarrow>
     (\<exists>t. last_register ops = Some t \<and> now - t < ADOPT_SUPPRESS)"
  using is_self_write_window [of "fold do_op ops tracker_empty" now v] tracker_history [OF assms]
  by simp

lemma self_write_is_the_window_witness:
  "fst (is_self_write (secs 9) (Some ''performance'')
     (fold do_op [Register (secs 1) Balanced, Register (secs 5) PowerSaver] tracker_empty))
   \<and> \<not> fst (is_self_write (secs 10) (Some ''low-power'')
     (fold do_op [Register (secs 1) Balanced, Register (secs 5) PowerSaver] tracker_empty))"
  using self_write_is_the_window [of "[Register (secs 1) Balanced, Register (secs 5) PowerSaver]"
      "secs 9" "Some ''performance''"]
    self_write_is_the_window [of "[Register (secs 1) Balanced, Register (secs 5) PowerSaver]"
      "secs 10" "Some ''low-power''"]
  by (simp add: secs_def ADOPT_SUPPRESS_def)

end
