(* ===== verification/PowerConf.thy ===== *)
theory PowerConf
  imports PowerRules
begin

text \<open>
  The directive grammar shared by profiles and \<open>power.conf\<close> (\<open>parse_directive\<close> of
  \<open>crates/hyprstate-fsm/src/profiles.rs\<close>) and the \<open>power.conf\<close> parser of
  \<open>crates/hyprstate-fsm/src/power.rs\<close>. Warnings are values: the constructor names the
  message and its arguments are the ones the message prints.
\<close>

section \<open>Directives\<close>

definition directive_key_ok :: "bool \<Rightarrow> string \<Rightarrow> bool" where
  "directive_key_ok allow_hyphen key =
     list_all (\<lambda>(i, c). is_ascii_lowercase c \<or> (allow_hyphen \<and> i > 0 \<and> c = CHR ''-''))
       (enumerate 0 key)"

definition parse_directive :: "string \<Rightarrow> bool \<Rightarrow> (string \<times> string) option" where
  "parse_directive line allow_hyphen =
     (case (case strip_prefix ''#@'' line of Some r \<Rightarrow> Some r | None \<Rightarrow> strip_prefix ''--@'' line) of
        None \<Rightarrow> None
      | Some r \<Rightarrow>
          (case split_once (CHR ''='') (trim_start r) of
             None \<Rightarrow> None
           | Some (k, v) \<Rightarrow>
               let key = trim_end k; val = trim v in
               if key = [] \<or> val = [] then None
               else if directive_key_ok allow_hyphen key then Some (key, val)
               else None))"

section \<open>power.conf\<close>

definition DEFAULT_LID_GRACE_SECS :: u16 where "DEFAULT_LID_GRACE_SECS = 30"
definition MAX_LID_GRACE_SECS :: u16 where "MAX_LID_GRACE_SECS = 600"

record power_conf =
  pc_policy :: power_policy
  pc_battery_low_pct :: u8
  pc_lid :: lid_mode
  pc_lid_grace_secs :: u16
  pc_lid_ac :: lid_ac_policy
  pc_kbd :: kbd_mode
  pc_kbd_idle_secs :: u16
  pc_kbd_dark_lux :: u32

definition default_power_conf :: power_conf where
  "default_power_conf = \<lparr>pc_policy = default_power_policy,
     pc_battery_low_pct = DEFAULT_BATTERY_LOW_PCT, pc_lid = Present,
     pc_lid_grace_secs = DEFAULT_LID_GRACE_SECS, pc_lid_ac = lid_ac_policy.Suspend,
     pc_kbd = kbd_mode.Auto, pc_kbd_idle_secs = DEFAULT_KBD_IDLE_SECS,
     pc_kbd_dark_lux = DEFAULT_KBD_DARK_LUX\<rparr>"

datatype conf_warning =
    MalformedDirective string
  | BadLid string lid_mode
  | BadBatteryLow string
  | BadLidGrace string u16
  | BadLidAc string lid_ac_policy
  | BadKbd string kbd_mode
  | BadKbdIdle string u16
  | BadKbdDarkLux string u32
  | BadProfile string string power_profile
  | UnknownDirective string

text \<open>One \<open>match\<close> arm per key: the configuration after the directive, or the warning.\<close>

definition apply_policy_slot :: "string \<Rightarrow> string \<Rightarrow> power_conf \<Rightarrow> conf_warning + power_conf" where
  "apply_policy_slot key val c =
     (let pol = pc_policy c;
          result = power_profile_from_str val
      in if key = ''docked-ac'' then
           (case result of Some p \<Rightarrow> Inr (c\<lparr>pc_policy := pol\<lparr>pp_docked_ac := p\<rparr>\<rparr>)
             | None \<Rightarrow> Inl (BadProfile key val (pp_docked_ac pol)))
         else if key = ''ac'' then
           (case result of Some p \<Rightarrow> Inr (c\<lparr>pc_policy := pol\<lparr>pp_ac := p\<rparr>\<rparr>)
             | None \<Rightarrow> Inl (BadProfile key val (pp_ac pol)))
         else if key = ''battery'' then
           (case result of Some p \<Rightarrow> Inr (c\<lparr>pc_policy := pol\<lparr>pp_battery := p\<rparr>\<rparr>)
             | None \<Rightarrow> Inl (BadProfile key val (pp_battery pol)))
         else if key = ''battery-low'' then
           (case result of Some p \<Rightarrow> Inr (c\<lparr>pc_policy := pol\<lparr>pp_battery_low := p\<rparr>\<rparr>)
             | None \<Rightarrow> Inl (BadProfile key val (pp_battery_low pol)))
         else Inl (UnknownDirective key))"

definition apply_directive :: "string \<Rightarrow> string \<Rightarrow> power_conf \<Rightarrow> conf_warning + power_conf" where
  "apply_directive key val c =
     (if key = ''lid'' then
        (case lid_mode_from_str val of Some m \<Rightarrow> Inr (c\<lparr>pc_lid := m\<rparr>)
          | None \<Rightarrow> Inl (BadLid val (pc_lid c)))
      else if key = ''battery-low-percent'' then
        (case parse_i64 val of Some n \<Rightarrow> Inr (c\<lparr>pc_battery_low_pct := word_of_int (clamp 1 50 n)\<rparr>)
          | None \<Rightarrow> Inl (BadBatteryLow val))
      else if key = ''lid-grace'' then
        (case parse_i64 val of
            Some n \<Rightarrow> Inr (c\<lparr>pc_lid_grace_secs := word_of_int (clamp 0 (uint MAX_LID_GRACE_SECS) n)\<rparr>)
          | None \<Rightarrow> Inl (BadLidGrace val (pc_lid_grace_secs c)))
      else if key = ''lid-ac'' then
        (case lid_ac_from_str val of Some p \<Rightarrow> Inr (c\<lparr>pc_lid_ac := p\<rparr>)
          | None \<Rightarrow> Inl (BadLidAc val (pc_lid_ac c)))
      else if key = ''kbd'' then
        (case kbd_mode_from_str val of Some m \<Rightarrow> Inr (c\<lparr>pc_kbd := m\<rparr>)
          | None \<Rightarrow> Inl (BadKbd val (pc_kbd c)))
      else if key = ''kbd-idle'' then
        (case parse_i64 val of
            Some n \<Rightarrow> Inr (c\<lparr>pc_kbd_idle_secs := word_of_int (clamp 1 (uint MAX_KBD_IDLE_SECS) n)\<rparr>)
          | None \<Rightarrow> Inl (BadKbdIdle val (pc_kbd_idle_secs c)))
      else if key = ''kbd-dark-lux'' then
        (case parse_i64 val of Some n \<Rightarrow> Inr (c\<lparr>pc_kbd_dark_lux := word_of_int (clamp 0 1000000 n)\<rparr>)
          | None \<Rightarrow> Inl (BadKbdDarkLux val (pc_kbd_dark_lux c)))
      else apply_policy_slot key val c)"

definition parse_conf_line ::
  "string \<Rightarrow> power_conf \<times> conf_warning list \<Rightarrow> power_conf \<times> conf_warning list" where
  "parse_conf_line line cw =
     (if \<not> starts_with ''#@'' line then cw
      else case parse_directive line True of
          None \<Rightarrow> (fst cw, snd cw @ [MalformedDirective line])
        | Some (key, val) \<Rightarrow>
            (case apply_directive key val (fst cw) of
               Inl w \<Rightarrow> (fst cw, snd cw @ [w])
             | Inr c \<Rightarrow> (c, snd cw)))"

definition parse_power_conf :: "string \<Rightarrow> power_conf \<times> conf_warning list" where
  "parse_power_conf text = fold parse_conf_line (lines text) (default_power_conf, [])"

definition parse_power_policy :: "string \<Rightarrow> power_policy \<times> u8 \<times> conf_warning list" where
  "parse_power_policy text =
     (let (conf, warnings) = parse_power_conf text in
      (pc_policy conf, pc_battery_low_pct conf, warnings))"

section \<open>Bounds\<close>

text \<open>What every configuration the parser can return satisfies.\<close>

definition conf_ok :: "power_conf \<Rightarrow> bool" where
  "conf_ok c \<longleftrightarrow> 1 \<le> unat (pc_battery_low_pct c) \<and> unat (pc_battery_low_pct c) \<le> 50
     \<and> unat (pc_lid_grace_secs c) \<le> 600
     \<and> 1 \<le> unat (pc_kbd_idle_secs c) \<and> unat (pc_kbd_idle_secs c) \<le> 600
     \<and> unat (pc_kbd_dark_lux c) \<le> 1000000"

lemma conf_ok_default: "conf_ok default_power_conf"
  by (simp add: conf_ok_def default_power_conf_def DEFAULT_BATTERY_LOW_PCT_def
      DEFAULT_LID_GRACE_SECS_def DEFAULT_KBD_IDLE_SECS_def DEFAULT_KBD_DARK_LUX_def)

lemma unat_word_of_clamp:
  assumes "0 \<le> lo" "lo \<le> hi" "hi < 2 ^ LENGTH('a)"
  shows "unat (word_of_int (clamp lo hi n) :: 'a::len word) = nat (clamp lo hi n)"
proof -
  have "lo \<le> clamp lo hi n \<and> clamp lo hi n \<le> hi" using assms(2) by (rule clamp_bounds)
  then have "uint (word_of_int (clamp lo hi n) :: 'a word) = clamp lo hi n"
    using assms by (simp add: uint_word_of_int)
  then show ?thesis by (simp add: unat_eq_nat_uint)
qed

lemma unat_clamp_range:
  assumes "0 \<le> lo" "lo \<le> hi" "hi < 2 ^ LENGTH('a)"
  shows "nat lo \<le> unat (word_of_int (clamp lo hi n) :: 'a::len word)"
    and "unat (word_of_int (clamp lo hi n) :: 'a::len word) \<le> nat hi"
  using clamp_bounds [OF assms(2), of n] assms(1)
  by (simp_all add: unat_word_of_clamp [OF assms] nat_le_eq_zle)

lemma conf_ok_policy: "conf_ok c \<Longrightarrow> apply_policy_slot key val c = Inr c' \<Longrightarrow> conf_ok c'"
  by (auto simp: apply_policy_slot_def conf_ok_def Let_def split: if_splits option.splits)

lemma conf_ok_update:
  assumes "conf_ok c"
  shows "conf_ok (c\<lparr>pc_lid := m\<rparr>)" "conf_ok (c\<lparr>pc_lid_ac := p\<rparr>)" "conf_ok (c\<lparr>pc_kbd := k\<rparr>)"
    "conf_ok (c\<lparr>pc_battery_low_pct := word_of_int (clamp 1 50 n)\<rparr>)"
    "conf_ok (c\<lparr>pc_lid_grace_secs := word_of_int (clamp 0 600 n)\<rparr>)"
    "conf_ok (c\<lparr>pc_kbd_idle_secs := word_of_int (clamp 1 600 n)\<rparr>)"
    "conf_ok (c\<lparr>pc_kbd_dark_lux := word_of_int (clamp 0 1000000 n)\<rparr>)"
  using assms unat_clamp_range [where 'a = 8, of 1 50 n] unat_clamp_range [where 'a = 16, of 0 600 n]
    unat_clamp_range [where 'a = 16, of 1 600 n] unat_clamp_range [where 'a = 32, of 0 1000000 n]
  by (simp_all add: conf_ok_def)

lemma conf_ok_apply: "conf_ok c \<Longrightarrow> apply_directive key val c = Inr c' \<Longrightarrow> conf_ok c'"
  by (auto simp: apply_directive_def MAX_LID_GRACE_SECS_def MAX_KBD_IDLE_SECS_def conf_ok_update
      intro: conf_ok_policy split: if_splits option.splits)

lemma conf_ok_line: "conf_ok (fst cw) \<Longrightarrow> conf_ok (fst (parse_conf_line l cw))"
  by (auto simp: parse_conf_line_def intro: conf_ok_apply split: option.split sum.split)

lemma conf_ok_lines: "conf_ok (fst cw) \<Longrightarrow> conf_ok (fst (fold parse_conf_line ls cw))"
  by (induction ls arbitrary: cw) (simp_all add: conf_ok_line)

lemma low_threshold_ok_conf: "conf_ok c \<Longrightarrow> low_threshold_ok (pc_battery_low_pct c)"
  by (simp add: conf_ok_def low_threshold_ok_def)

section \<open>One line at a time\<close>

text \<open>A line's effect on the configuration does not depend on the warnings before it, and a
  line only ever appends to them: no line can hide or undo another one's diagnosis.\<close>

lemma parse_line_split:
  "parse_conf_line l (c, ws) =
     (fst (parse_conf_line l (c, [])), ws @ snd (parse_conf_line l (c, [])))"
  by (simp add: parse_conf_line_def split: option.split sum.split)

lemma parse_lines_split:
  "fold parse_conf_line ls (c, ws) =
     (fst (fold parse_conf_line ls (c, [])), ws @ snd (fold parse_conf_line ls (c, [])))"
proof (induction ls arbitrary: c ws)
  case (Cons l ls)
  obtain c' ws' where l: "parse_conf_line l (c, []) = (c', ws')" by fastforce
  then have "parse_conf_line l (c, ws) = (c', ws @ ws')" by (simp add: parse_line_split [of l c ws])
  then show ?case using l Cons.IH [of c' "ws @ ws'"] Cons.IH [of c' ws'] by simp
qed simp

definition line_rejected :: "string \<Rightarrow> power_conf \<Rightarrow> conf_warning option" where
  "line_rejected l c = (if snd (parse_conf_line l (c, [])) = [] then None
     else Some (hd (snd (parse_conf_line l (c, []))))) "

lemma rejected_line_keeps_conf:
  "line_rejected l c = Some w \<Longrightarrow> parse_conf_line l (c, ws) = (c, ws @ [w])"
  by (auto simp: line_rejected_def parse_conf_line_def split: option.splits sum.splits if_splits)

lemma undirected_lines:
  "\<forall>l \<in> set ls. \<not> starts_with ''#@'' l \<Longrightarrow> fold parse_conf_line ls cw = cw"
  by (induction ls arbitrary: cw) (simp_all add: parse_conf_line_def)

section \<open>Directives written back\<close>

text \<open>\<open>#@ key = val\<close> reads back as exactly that pair.\<close>

definition directive_line :: "string \<Rightarrow> string \<Rightarrow> string \<Rightarrow> string" where
  "directive_line leader key val = leader @ '' '' @ key @ '' = '' @ val"

definition plain_word :: "string \<Rightarrow> bool" where
  "plain_word s = (s \<noteq> [] \<and> (\<forall>c \<in> set s. \<not> is_whitespace c))"

definition trimmed :: "string \<Rightarrow> bool" where
  "trimmed s = (s \<noteq> [] \<and> \<not> is_whitespace (hd s) \<and> \<not> is_whitespace (last s))"

lemma plain_word_trimmed: "plain_word s \<Longrightarrow> trimmed s"
  by (simp add: plain_word_def trimmed_def)

lemma not_lower_eq: "is_ascii_lowercase c \<or> c = CHR ''-'' \<Longrightarrow> c \<noteq> CHR ''='' \<and> \<not> is_whitespace c"
  by (auto simp: is_ascii_lowercase_def is_whitespace_def Let_def)

lemma key_ok_chars:
  "directive_key_ok h key \<Longrightarrow> c \<in> set key \<Longrightarrow> is_ascii_lowercase c \<or> c = CHR ''-''"
proof -
  assume k: "directive_key_ok h key" and "c \<in> set key"
  then obtain i where "i < length key" "key ! i = c" by (auto simp: in_set_conv_nth)
  then have "(i, c) \<in> set (enumerate 0 key)" by (auto simp: in_set_enumerate_eq)
  with k show ?thesis by (auto simp: directive_key_ok_def list_all_iff)
qed

lemma dropWhile_ws_word: "trimmed s \<Longrightarrow> dropWhile is_whitespace s = s"
  by (cases s) (auto simp: trimmed_def)

lemma trimmed_rev: "trimmed s \<Longrightarrow> trimmed (rev s)"
  by (simp add: trimmed_def hd_rev last_rev)

lemma trim_space_word: "trimmed s \<Longrightarrow> trim (CHR '' '' # s) = s"
  using trimmed_rev [of s]
  by (simp add: trim_def trim_start_def trim_end_def dropWhile_ws_word is_whitespace_def)

lemma trim_end_word_space: "trimmed s \<Longrightarrow> trim_end (s @ [CHR '' '']) = s"
  using dropWhile_ws_word [OF trimmed_rev]
  by (simp add: trim_end_def is_whitespace_def Let_def)

lemma split_once_append:
  "c \<notin> set s \<Longrightarrow> split_once c (s @ c # t) = Some (s, t)"
proof -
  assume c: "c \<notin> set s"
  then have "dropWhile (\<lambda>d. d \<noteq> c) (s @ c # t) = c # t"
    by (subst dropWhile_append2) auto
  moreover have "takeWhile (\<lambda>d. d \<noteq> c) (s @ c # t) = s"
    using c by (subst takeWhile_append2) auto
  ultimately show ?thesis by (simp add: split_once_def)
qed

lemma parse_directive_line:
  assumes leader: "leader = ''#@'' \<or> leader = ''--@''"
    and key: "directive_key_ok h key" "key \<noteq> []" and val: "trimmed val"
  shows "parse_directive (directive_line leader key val) h = Some (key, val)"
proof -
  have kp: "plain_word key" and ke: "CHR ''='' \<notin> set key"
    using key_ok_chars [OF key(1)] key(2) not_lower_eq by (auto simp: plain_word_def)
  from kp have kw: "trimmed key" by (rule plain_word_trimmed)
  have sp: "is_whitespace (CHR '' '')" by (simp add: is_whitespace_def Let_def)
  have "dropWhile is_whitespace (key @ t) = key @ t" for t
    using kw by (cases key) (auto simp: trimmed_def)
  then have "trim_start ('' '' @ key @ '' = '' @ val) = key @ '' = '' @ val"
    using sp by (simp add: trim_start_def)
  moreover have "split_once (CHR ''='') (key @ '' = '' @ val) = Some (key @ '' '', CHR '' '' # val)"
    using split_once_append [of "CHR ''=''" "key @ '' ''" "CHR '' '' # val"] ke by simp
  moreover have "(case strip_prefix ''#@'' (directive_line leader key val) of
      Some r \<Rightarrow> Some r | None \<Rightarrow> strip_prefix ''--@'' (directive_line leader key val))
      = Some ('' '' @ key @ '' = '' @ val)"
    using leader by (elim disjE) (simp_all add: directive_line_def strip_prefix_def starts_with_def)
  ultimately show ?thesis
    using key val trim_end_word_space [OF kw] trim_space_word [OF val]
    by (simp add: parse_directive_def trimmed_def)
qed

text \<open>A setting written as a directive line is read back, whatever the configuration was.\<close>

lemma directive_line_applied:
  assumes "directive_key_ok True key" "key \<noteq> []" "trimmed val"
    and "apply_directive key val c = Inr c'"
  shows "parse_conf_line (directive_line ''#@'' key val) (c, ws) = (c', ws)"
  using assms(4) parse_directive_line [OF _ assms(1-3), of "''#@''"]
  by (simp add: parse_conf_line_def starts_with_def directive_line_def)

section \<open>Properties\<close>

text \<open>Whatever lines \<open>power.conf\<close> holds, the parsed settings are in range: the battery-low
  percentage is 1 to 50, the grace at most 600 s, the keyboard idle time 1 to 600 s and the dark
  threshold at most a million lux. Nothing an administrator can write leaves those bounds.\<close>
lemma power_conf_always_in_range:
  "1 \<le> unat (pc_battery_low_pct (fst (parse_power_conf txt)))
   \<and> unat (pc_battery_low_pct (fst (parse_power_conf txt))) \<le> 50
   \<and> unat (pc_lid_grace_secs (fst (parse_power_conf txt))) \<le> 600
   \<and> 1 \<le> unat (pc_kbd_idle_secs (fst (parse_power_conf txt)))
   \<and> unat (pc_kbd_idle_secs (fst (parse_power_conf txt))) \<le> 600
   \<and> unat (pc_kbd_dark_lux (fst (parse_power_conf txt))) \<le> 1000000"
  using conf_ok_lines [of "(default_power_conf, [])" "lines txt"] conf_ok_default
  by (simp add: parse_power_conf_def conf_ok_def)

text \<open>A line the parser rejects costs exactly one warning, at its place in the list, and
  nothing else: the settings, and the diagnoses of every other line, are those of the file
  without it.\<close>
lemma rejected_line_is_isolated:
  assumes "line_rejected l (fst (fold parse_conf_line before (c, []))) = Some w"
  shows "fst (fold parse_conf_line (before @ l # after) (c, [])) =
       fst (fold parse_conf_line (before @ after) (c, []))
     \<and> (\<exists>later. snd (fold parse_conf_line (before @ l # after) (c, [])) =
           snd (fold parse_conf_line before (c, [])) @ w # later
         \<and> snd (fold parse_conf_line (before @ after) (c, [])) =
           snd (fold parse_conf_line before (c, [])) @ later)"
proof -
  obtain c1 ws where b: "fold parse_conf_line before (c, []) = (c1, ws)" by fastforce
  with assms have l: "parse_conf_line l (c1, ws) = (c1, ws @ [w])"
    by (simp add: rejected_line_keeps_conf)
  show ?thesis
    using b l parse_lines_split [of after c1 "ws @ [w]"] parse_lines_split [of after c1 ws] by auto
qed

lemma rejected_line_is_isolated_witness:
  "fst (fold parse_conf_line [''#@ kbd = off'', ''#@ lid = ajar'', ''#@ kbd-idle = 5''] (default_power_conf, [])) =
   fst (fold parse_conf_line [''#@ kbd = off'', ''#@ kbd-idle = 5''] (default_power_conf, []))"
proof -
  have "line_rejected ''#@ lid = ajar'' (fst (fold parse_conf_line [''#@ kbd = off''] (default_power_conf, [])))
      = Some (BadLid ''ajar'' Present)"
    by code_simp
  from rejected_line_is_isolated [OF this, of "[''#@ kbd-idle = 5'']"] show ?thesis by simp
qed

text \<open>A configuration written out, one directive line per setting.\<close>

definition conf_lines :: "power_conf \<Rightarrow> string list" where
  "conf_lines c = map (\<lambda>(k, v). directive_line ''#@'' k v)
     [(''docked-ac'', power_profile_as_str (pp_docked_ac (pc_policy c))),
      (''ac'', power_profile_as_str (pp_ac (pc_policy c))),
      (''battery'', power_profile_as_str (pp_battery (pc_policy c))),
      (''battery-low'', power_profile_as_str (pp_battery_low (pc_policy c))),
      (''battery-low-percent'', nat_str (unat (pc_battery_low_pct c))),
      (''lid'', lid_mode_as_str (pc_lid c)),
      (''lid-grace'', nat_str (unat (pc_lid_grace_secs c))),
      (''lid-ac'', lid_ac_as_str (pc_lid_ac c)),
      (''kbd'', kbd_mode_as_str (pc_kbd c)),
      (''kbd-idle'', nat_str (unat (pc_kbd_idle_secs c))),
      (''kbd-dark-lux'', nat_str (unat (pc_kbd_dark_lux c)))]"

lemma trimmed_word: "s \<noteq> [] \<and> (\<forall>c \<in> set s. \<not> is_whitespace c) \<Longrightarrow> trimmed s"
  by (simp add: trimmed_def)

lemma nat_str_word: "nat_str n \<noteq> [] \<and> (\<forall>c \<in> set (nat_str n). \<not> is_whitespace c)"
proof -
  have "is_ascii_digit c \<Longrightarrow> \<not> is_whitespace c" for c
    by (auto simp: is_ascii_digit_def is_whitespace_def Let_def)
  then show ?thesis using nat_str_nonempty nat_str_digits by blast
qed

lemma trimmed_nat_str: "trimmed (nat_str n)"
  by (rule trimmed_word [OF nat_str_word])

lemma parse_i64_nat_str: "n \<le> 2 ^ 63 - 1 \<Longrightarrow> parse_i64 (nat_str n) = Some (int n)"
  by (simp add: parse_i64_def parse_signed_nat_str)

lemma conf_keys_ok:
  "list_all (directive_key_ok True) [''docked-ac'', ''ac'', ''battery'', ''battery-low'',
     ''battery-low-percent'', ''lid'', ''lid-grace'', ''lid-ac'', ''kbd'', ''kbd-idle'', ''kbd-dark-lux'']"
  by code_simp

lemma clamp_word_id:
  assumes "nat lo \<le> unat w" "unat w \<le> nat hi" "0 \<le> hi"
  shows "word_of_int (clamp lo hi (uint w)) = w"
proof -
  have "uint w = int (unat w)" by simp
  then have "lo \<le> uint w" "uint w \<le> hi" using assms by linarith+
  then show ?thesis by (simp add: clamp_id)
qed

lemma apply_number:
  assumes "conf_ok c"
  shows "apply_directive ''battery-low-percent'' (nat_str (unat (pc_battery_low_pct c))) d
       = Inr (d\<lparr>pc_battery_low_pct := pc_battery_low_pct c\<rparr>)"
    "apply_directive ''lid-grace'' (nat_str (unat (pc_lid_grace_secs c))) d
       = Inr (d\<lparr>pc_lid_grace_secs := pc_lid_grace_secs c\<rparr>)"
    "apply_directive ''kbd-idle'' (nat_str (unat (pc_kbd_idle_secs c))) d
       = Inr (d\<lparr>pc_kbd_idle_secs := pc_kbd_idle_secs c\<rparr>)"
    "apply_directive ''kbd-dark-lux'' (nat_str (unat (pc_kbd_dark_lux c))) d
       = Inr (d\<lparr>pc_kbd_dark_lux := pc_kbd_dark_lux c\<rparr>)"
  using assms
  by (simp_all add: conf_ok_def apply_directive_def parse_i64_nat_str clamp_word_id
      MAX_LID_GRACE_SECS_def MAX_KBD_IDLE_SECS_def)

lemma apply_word:
  "apply_directive ''docked-ac'' (power_profile_as_str p) d = Inr (d\<lparr>pc_policy := (pc_policy d)\<lparr>pp_docked_ac := p\<rparr>\<rparr>)"
  "apply_directive ''ac'' (power_profile_as_str p) d = Inr (d\<lparr>pc_policy := (pc_policy d)\<lparr>pp_ac := p\<rparr>\<rparr>)"
  "apply_directive ''battery'' (power_profile_as_str p) d = Inr (d\<lparr>pc_policy := (pc_policy d)\<lparr>pp_battery := p\<rparr>\<rparr>)"
  "apply_directive ''battery-low'' (power_profile_as_str p) d = Inr (d\<lparr>pc_policy := (pc_policy d)\<lparr>pp_battery_low := p\<rparr>\<rparr>)"
  "apply_directive ''lid'' (lid_mode_as_str m) d = Inr (d\<lparr>pc_lid := m\<rparr>)"
  "apply_directive ''lid-ac'' (lid_ac_as_str a) d = Inr (d\<lparr>pc_lid_ac := a\<rparr>)"
  "apply_directive ''kbd'' (kbd_mode_as_str k) d = Inr (d\<lparr>pc_kbd := k\<rparr>)"
  by (simp_all add: apply_directive_def apply_policy_slot_def Let_def profile_word.from_as_str
      lid_word.from_as_str lid_ac_word.from_as_str kbd_word.from_as_str)

text \<open>The same as the text of a file.\<close>

definition conf_text :: "power_conf \<Rightarrow> string" where
  "conf_text c = concat (map (\<lambda>l. l @ [newline]) (conf_lines c))"

lemma lines_append: "lines (t @ newline # s) = lines (t @ [newline]) @ lines s"
proof -
  have "lines_from acc (t @ newline # s) = lines_from acc (t @ [newline]) @ lines_from [] s" for acc
    by (induction t arbitrary: acc) simp_all
  then show ?thesis by (simp add: lines_def)
qed

lemma lines_of_text:
  "\<forall>l \<in> set ls. newline \<notin> set l \<and> strip_cr l = l \<Longrightarrow> lines (concat (map (\<lambda>l. l @ [newline]) ls)) = ls"
  by (induction ls) (simp_all add: lines_line, simp add: lines_def)

lemma word_line:
  assumes "val \<noteq> [] \<and> (\<forall>c \<in> set val. \<not> is_whitespace c)" "\<forall>c \<in> set key. \<not> is_whitespace c"
  shows "newline \<notin> set (directive_line ''#@'' key val) \<and> strip_cr (directive_line ''#@'' key val) = directive_line ''#@'' key val"
proof -
  have w: "is_whitespace newline" "is_whitespace (CHR 0x0D)" by (simp_all add: is_whitespace_def newline_def)
  have "\<not> is_whitespace (last val)" using assms(1) by simp
  then have "last val \<noteq> CHR 0x0D" using w(2) by metis
  moreover have "newline \<notin> set key" "newline \<notin> set val" using assms w(1) by blast+
  ultimately show ?thesis using assms(1) by (auto simp: directive_line_def strip_cr_def newline_def)
qed

lemma conf_lines_plain: "\<forall>l \<in> set (conf_lines c). newline \<notin> set l \<and> strip_cr l = l"
proof -
  have k: "\<forall>k \<in> set [''docked-ac'', ''ac'', ''battery'', ''battery-low'', ''battery-low-percent'', ''lid'', ''lid-grace'',
     ''lid-ac'', ''kbd'', ''kbd-idle'', ''kbd-dark-lux'']. \<forall>c \<in> set k. \<not> is_whitespace c"
    by (simp add: is_whitespace_def)
  show ?thesis
    unfolding conf_lines_def
    using word_line [OF profile_word.as_str_word] word_line [OF nat_str_word] word_line [OF lid_word.as_str_word]
      word_line [OF lid_ac_word.as_str_word] word_line [OF kbd_word.as_str_word] k
    by simp
qed

lemma conf_lines_read:
  assumes "conf_ok c"
  shows "fold parse_conf_line (conf_lines c) (c0, ws) = (c, ws)"
proof -
  note line = directive_line_applied [OF _ _ _ apply_word(1)] directive_line_applied [OF _ _ _ apply_word(2)]
    directive_line_applied [OF _ _ _ apply_word(3)] directive_line_applied [OF _ _ _ apply_word(4)]
    directive_line_applied [OF _ _ _ apply_word(5)] directive_line_applied [OF _ _ _ apply_word(6)]
    directive_line_applied [OF _ _ _ apply_word(7)]
    directive_line_applied [OF _ _ _ apply_number(1) [OF assms]] directive_line_applied [OF _ _ _ apply_number(2) [OF assms]]
    directive_line_applied [OF _ _ _ apply_number(3) [OF assms]] directive_line_applied [OF _ _ _ apply_number(4) [OF assms]]
  show ?thesis
    unfolding conf_lines_def
    using conf_keys_ok trimmed_nat_str trimmed_word [OF profile_word.as_str_word] trimmed_word [OF lid_word.as_str_word]
      trimmed_word [OF lid_ac_word.as_str_word] trimmed_word [OF kbd_word.as_str_word]
    by (simp add: line)
qed

text \<open>C23: The configurations that some \<open>power.conf\<close> gives without a warning are exactly those in range
  (battery-low percentage 1 to 50, grace at most 600 s, idle time 1 to 600 s, dark threshold at most a
  million lux). One directive line per setting does it, and appended to any text it overrides
  every setting of that text, adding no warning to the ones the text gives.\<close>
theorem power_conf_expressible:
  "(\<exists>body. parse_power_conf body = (c, [])) = conf_ok c
   \<and> (conf_ok c \<longrightarrow> parse_power_conf (conf_text c) = (c, [])
       \<and> (\<forall>body. parse_power_conf (body @ newline # conf_text c) = (c, snd (parse_power_conf (body @ [newline])))))"
proof -
  have t: "lines (conf_text c) = conf_lines c" unfolding conf_text_def by (rule lines_of_text [OF conf_lines_plain])
  have r: "parse_power_conf (conf_text c) = (c, [])" if "conf_ok c"
    using conf_lines_read [OF that] by (simp add: parse_power_conf_def t)
  moreover have "parse_power_conf (body @ newline # conf_text c) = (c, snd (parse_power_conf (body @ [newline])))"
    if "conf_ok c" for body
    using conf_lines_read [OF that]
    by (cases "fold parse_conf_line (lines (body @ [newline])) (default_power_conf, [])")
      (simp add: parse_power_conf_def lines_append [of body "conf_text c"] t)
  moreover have "conf_ok c" if "parse_power_conf body = (c, [])" for body
    using conf_ok_lines [of "(default_power_conf, [])" "lines body"] conf_ok_default that
    by (simp add: parse_power_conf_def)
  ultimately show ?thesis by blast
qed

theorem power_conf_expressible_witness:
  "parse_power_conf (''#@ lid = ajar'' @ newline # conf_text (default_power_conf\<lparr>pc_lid_grace_secs := 0\<rparr>))
     = (default_power_conf\<lparr>pc_lid_grace_secs := 0\<rparr>, snd (parse_power_conf (''#@ lid = ajar'' @ [newline])))"
proof -
  have "conf_ok (default_power_conf\<lparr>pc_lid_grace_secs := 0\<rparr>)"
    by (simp add: conf_ok_def default_power_conf_def DEFAULT_BATTERY_LOW_PCT_def DEFAULT_KBD_IDLE_SECS_def
        DEFAULT_KBD_DARK_LUX_def)
  then show ?thesis using power_conf_expressible [of "default_power_conf\<lparr>pc_lid_grace_secs := 0\<rparr>"] by blast
qed

end
