(* ===== verification/Gpu.thy ===== *)
theory Gpu
  imports Prelude "HOL-Library.Char_ord" "HOL-Library.List_Lexorder" "HOL-Library.Product_Lexorder"
begin

text \<open>
  GPU-primary selection, \<open>crates/hyprstate-fsm/src/gpu.rs\<close>: the mode precedence, the
  integrated-card agreement, and the device list. Cards are addressed by their index in the
  snapshot, as in the source; an index or \<open>unreachable!\<close> panic is the result \<open>None\<close> of
  \<open>gpu_desired\<close>.
\<close>

section \<open>Topology and modes\<close>

record gpu_card =
  gc_path :: string
  gc_card :: string
  gc_boot_vga :: u32
  gc_vram :: u64
  gc_external :: u32
  gc_edp :: u32

record gpu_snapshot =
  gs_cards :: "gpu_card list"
  gs_non_pci_display :: bool
  gs_lid_closed :: bool

datatype gpu_mode = Auto | Igpu | Dgpu | Off

fun gpu_mode_as_str :: "gpu_mode \<Rightarrow> string" where
  "gpu_mode_as_str Auto = ''auto''"
| "gpu_mode_as_str Igpu = ''igpu''"
| "gpu_mode_as_str Dgpu = ''dgpu''"
| "gpu_mode_as_str Off = ''off''"

datatype gpu_mode_source = Override | SrcProfile | Platform | Default

fun gpu_mode_source_as_str :: "gpu_mode_source \<Rightarrow> string" where
  "gpu_mode_source_as_str Override = ''override''"
| "gpu_mode_source_as_str SrcProfile = ''profile''"
| "gpu_mode_source_as_str Platform = ''platform''"
| "gpu_mode_source_as_str Default = ''default''"

text \<open>The warnings are the unknown words they quote.\<close>

definition resolve_overlay ::
  "string option \<Rightarrow> string option \<Rightarrow> gpu_mode \<times> gpu_mode_source" where
  "resolve_overlay overlay platform_word =
     (if overlay = Some ''igpu'' then (Igpu, SrcProfile)
      else if overlay = Some ''dgpu'' then (Dgpu, SrcProfile)
      else if platform_word = Some ''low-power'' \<or> platform_word = Some ''quiet'' then (Igpu, Platform)
      else if platform_word = Some ''performance'' then (Dgpu, Platform)
      else (Auto, Default))"

definition resolve_gpu_mode ::
  "string option \<Rightarrow> string option \<Rightarrow> string option \<Rightarrow> gpu_mode \<times> gpu_mode_source \<times> string list" where
  "resolve_gpu_mode override_word overlay platform_word =
     (if override_word = Some ''igpu'' then (Igpu, Override, [])
      else if override_word = Some ''dgpu'' then (Dgpu, Override, [])
      else if override_word = Some ''off'' then (Off, Override, [])
      else
        let warnings = (case override_word of
              None \<Rightarrow> []
            | Some word \<Rightarrow> if word = ''auto'' then [] else [word]);
            (mode, source) = resolve_overlay overlay platform_word
        in (mode, source, warnings))"

definition integrated_card :: "gpu_card list \<Rightarrow> nat option" where
  "integrated_card cards =
     (if cards = [] then None
      else let min_vram = Min (set (map gc_vram cards));
               by_vram = filter (\<lambda>i. gc_vram (cards ! i) = min_vram) [0..<length cards];
               by_vga = filter (\<lambda>i. gc_boot_vga (cards ! i) = 1) [0..<length cards]
           in if length by_vga = 1
              then (if hd by_vga \<in> set by_vram then Some (hd by_vga) else None)
              else if by_vga = [] \<and> length by_vram = 1 then Some (hd by_vram)
              else None)"

definition devnode :: "gpu_card \<Rightarrow> string" where
  "devnode c = ''/dev/dri/'' @ gc_card c"

definition dgpu_runtime_pm_pinned :: "gpu_mode \<Rightarrow> bool" where
  "dgpu_runtime_pm_pinned mode = (mode = Dgpu)"

definition strip_suffix :: "string \<Rightarrow> string \<Rightarrow> string option" where
  "strip_suffix p s = map_option rev (strip_prefix (rev p) (rev s))"

definition pci_key :: "string \<Rightarrow> string" where
  "pci_key path =
     (let base = last (split_char (CHR ''/'') path) in
      case strip_suffix ''-card'' base of Some b \<Rightarrow> b | None \<Rightarrow> base)"

section \<open>The discrete cards, best first\<close>

text \<open>\<open>std::cmp::Reverse\<close>: the same values in the opposite order.\<close>

datatype 'a reversed = Reverse (unrev: 'a)

instantiation reversed :: (linorder) linorder
begin

definition less_eq_reversed :: "'a reversed \<Rightarrow> 'a reversed \<Rightarrow> bool" where
  "x \<le> y \<longleftrightarrow> unrev y \<le> unrev x"

definition less_reversed :: "'a reversed \<Rightarrow> 'a reversed \<Rightarrow> bool" where
  "x < y \<longleftrightarrow> unrev y < unrev x"

instance
  by standard (auto simp: less_eq_reversed_def less_reversed_def reversed.expand)

end

lemma Reverse_le [simp]: "Reverse x \<le> Reverse y \<longleftrightarrow> y \<le> x"
  by (simp add: less_eq_reversed_def)

lemma Reverse_less [simp]: "Reverse x < Reverse y \<longleftrightarrow> y < x"
  by (simp add: less_reversed_def)

definition discrete_key :: "gpu_card \<Rightarrow> u32 reversed \<times> u64 reversed \<times> string" where
  "discrete_key c = (Reverse (gc_external c), Reverse (gc_vram c), gc_path c)"

definition sorted_discretes :: "gpu_card list \<Rightarrow> nat \<Rightarrow> nat list" where
  "sorted_discretes cards integrated =
     sort_key (\<lambda>i. discrete_key (cards ! i)) (filter (\<lambda>i. i \<noteq> integrated) [0..<length cards])"

section \<open>The device list\<close>

definition lit_card :: "gpu_card \<Rightarrow> bool" where
  "lit_card c = (gc_external c > 0 \<or> gc_edp c > 0)"

definition choose_primary ::
  "gpu_card list \<Rightarrow> gpu_mode \<Rightarrow> gpu_mode_source \<Rightarrow> nat \<Rightarrow> nat \<Rightarrow> (nat \<times> string) option" where
  "choose_primary cards mode source integrated best =
     (case mode of
        Auto \<Rightarrow> if lit_card (cards ! best) then Some (best, ''dgpu-has-display'')
                else Some (integrated, ''dgpu-idle-listed'')
      | Igpu \<Rightarrow> Some (integrated, gpu_mode_source_as_str source @ ''-igpu'')
      | Dgpu \<Rightarrow> Some (best, gpu_mode_source_as_str source @ ''-dgpu'')
      | Off \<Rightarrow> None)"

definition listed_devices ::
  "gpu_card list \<Rightarrow> gpu_mode \<Rightarrow> nat \<Rightarrow> nat list \<Rightarrow> nat \<Rightarrow> nat list" where
  "listed_devices cards mode integrated discretes primary =
     [primary] @ (if integrated \<noteq> primary then [integrated] else [])
       @ filter (\<lambda>i. i \<noteq> primary \<and> (mode = Auto \<or> lit_card (cards ! i))) discretes"

definition gpu_usable :: "gpu_snapshot \<Rightarrow> nat list \<Rightarrow> bool" where
  "gpu_usable snap devices =
     ((\<exists>i \<in> set devices. gc_external (gs_cards snap ! i) > 0)
      \<or> (\<not> gs_lid_closed snap \<and> (\<exists>i \<in> set devices. gc_edp (gs_cards snap ! i) > 0)))"

definition gpu_desired ::
  "gpu_snapshot \<Rightarrow> gpu_mode \<Rightarrow> gpu_mode_source \<Rightarrow> (string list option \<times> string) option" where
  "gpu_desired snap mode source =
     (if mode = Off then Some (None, ''override-off'')
      else if length (gs_cards snap) < 2 then Some (None, ''no-multi-gpu'')
      else if gs_non_pci_display snap then Some (None, ''non-pci-display-present'')
      else case integrated_card (gs_cards snap) of
          None \<Rightarrow> Some (None, ''ambiguous-integrated'')
        | Some integrated \<Rightarrow>
            if gs_lid_closed snap \<and> \<not> (\<exists>c \<in> set (gs_cards snap). gc_external c > 0)
            then Some (None, ''bailed-transient'')
            else case sorted_discretes (gs_cards snap) integrated of
                [] \<Rightarrow> None
              | best # rest \<Rightarrow>
                  (case choose_primary (gs_cards snap) mode source integrated best of
                     None \<Rightarrow> None
                   | Some (primary, reason) \<Rightarrow>
                       let devices = listed_devices (gs_cards snap) mode integrated (best # rest) primary
                       in if gpu_usable snap devices
                          then Some (Some (map (\<lambda>i. devnode (gs_cards snap ! i)) devices), reason)
                          else Some (None, ''bailed-transient'')))"

section \<open>Facts of the selection\<close>

lemma integrated_card_in_range: "integrated_card cards = Some i \<Longrightarrow> i < length cards"
proof -
  have "hd xs \<in> set xs" if "length xs = 1" for xs :: "nat list" using that by (cases xs) auto
  then show "integrated_card cards = Some i \<Longrightarrow> i < length cards"
    by (fastforce simp: integrated_card_def Let_def split: if_splits)
qed

lemma integrated_card_min_vram:
  "integrated_card cards = Some i \<Longrightarrow> j < length cards \<Longrightarrow> gc_vram (cards ! i) \<le> gc_vram (cards ! j)"
proof -
  have h: "hd xs \<in> set xs" if "length xs = 1" for xs :: "nat list" using that by (cases xs) auto
  assume i: "integrated_card cards = Some i" and j: "j < length cards"
  have "gc_vram (cards ! i) = Min (set (map gc_vram cards))"
    using i h by (fastforce simp: integrated_card_def Let_def split: if_splits)
  also have "\<dots> \<le> gc_vram (cards ! j)" using j by simp
  finally show ?thesis .
qed

lemma set_sorted_discretes: "set (sorted_discretes cards k) = {i. i < length cards \<and> i \<noteq> k}"
  by (auto simp: sorted_discretes_def)

lemma distinct_sorted_discretes: "distinct (sorted_discretes cards k)"
  by (simp add: sorted_discretes_def)

lemma sorted_discretes_nonempty: "2 \<le> length cards \<Longrightarrow> sorted_discretes cards k \<noteq> []"
proof -
  assume l: "2 \<le> length cards"
  have "(if k = 0 then 1 else 0) \<in> set (sorted_discretes cards k)"
    using l by (auto simp: set_sorted_discretes)
  then show ?thesis by auto
qed

lemma sorted_discretes_best:
  "sorted_discretes cards k = b # rest \<Longrightarrow> i < length cards \<Longrightarrow> i \<noteq> k
     \<Longrightarrow> discrete_key (cards ! b) \<le> discrete_key (cards ! i)"
proof -
  assume s: "sorted_discretes cards k = b # rest" and i: "i < length cards" "i \<noteq> k"
  have "sorted (map (\<lambda>i. discrete_key (cards ! i)) (b # rest))"
    using s by (metis sorted_discretes_def sorted_sort_key)
  moreover have "i \<in> set (b # rest)" using set_sorted_discretes [of cards k] s i by auto
  ultimately show ?thesis by auto
qed

text \<open>Everything \<open>gpu_desired\<close> returns, in one rule: never a panic; an unmanaged verdict, or
  the list built from the integrated card and the sorted discretes.\<close>

lemma gpu_desired_cases:
  obtains (unmanaged) reason where "gpu_desired snap mode source = Some (None, reason)"
  | (managed) k best rest primary reason where
      "mode \<noteq> Off" "2 \<le> length (gs_cards snap)" "\<not> gs_non_pci_display snap"
      "integrated_card (gs_cards snap) = Some k"
      "sorted_discretes (gs_cards snap) k = best # rest"
      "choose_primary (gs_cards snap) mode source k best = Some (primary, reason)"
      "gpu_usable snap (listed_devices (gs_cards snap) mode k (best # rest) primary)"
      "gpu_desired snap mode source = Some (Some (map (\<lambda>i. devnode (gs_cards snap ! i))
          (listed_devices (gs_cards snap) mode k (best # rest) primary)), reason)"
proof (cases "mode = Off \<or> length (gs_cards snap) < 2 \<or> gs_non_pci_display snap
    \<or> integrated_card (gs_cards snap) = None
    \<or> (gs_lid_closed snap \<and> \<not> (\<exists>c \<in> set (gs_cards snap). gc_external c > 0))")
  case True
  then have "\<exists>r. gpu_desired snap mode source = Some (None, r)"
    by (elim disjE) (auto simp: gpu_desired_def split: option.split)
  then show thesis using unmanaged by blast
next
  case False
  then obtain k where k: "integrated_card (gs_cards snap) = Some k" by auto
  from False have two: "2 \<le> length (gs_cards snap)" by simp
  then obtain best rest where sd: "sorted_discretes (gs_cards snap) k = best # rest"
    using sorted_discretes_nonempty by (cases "sorted_discretes (gs_cards snap) k") auto
  from False have "mode \<noteq> Off" by simp
  then have "\<exists>pr. choose_primary (gs_cards snap) mode source k best = Some pr"
    by (cases mode) (simp_all add: choose_primary_def)
  then obtain primary reason where
    p: "choose_primary (gs_cards snap) mode source k best = Some (primary, reason)" by auto
  note guards = False k sd p
  show thesis
  proof (cases "gpu_usable snap (listed_devices (gs_cards snap) mode k (best # rest) primary)")
    case True
    then show thesis using guards two
      by (intro managed [of k best rest primary reason]) (simp_all add: gpu_desired_def)
  next
    case False
    then show thesis using guards two
      by (intro unmanaged [of "''bailed-transient''"]) (simp add: gpu_desired_def)
  qed
qed

lemma choose_primary_mem:
  "choose_primary cards mode source k best = Some (p, r) \<Longrightarrow> p = k \<or> p = best"
  by (auto simp: choose_primary_def split: gpu_mode.splits if_splits)

lemma listed_devices_props:
  assumes sd: "sorted_discretes cards k = best # rest" and k: "k < length cards"
    and p: "p = k \<or> p = best"
  shows "distinct (listed_devices cards mode k (best # rest) p)"
    and "hd (listed_devices cards mode k (best # rest) p) = p"
    and "set (listed_devices cards mode k (best # rest) p) =
           {i. i < length cards \<and> (i = p \<or> i = k \<or> mode = Auto \<or> lit_card (cards ! i))}"
proof -
  have d: "distinct (best # rest)" and s: "set (best # rest) = {i. i < length cards \<and> i \<noteq> k}"
    using distinct_sorted_discretes [of cards k] set_sorted_discretes [of cards k] sd by simp_all
  have kb: "k \<notin> set (best # rest)" and pin: "p < length cards" using s p k by auto
  show "distinct (listed_devices cards mode k (best # rest) p)"
    unfolding listed_devices_def using d kb by (auto simp del: filter.simps)
  show "hd (listed_devices cards mode k (best # rest) p) = p" by (simp add: listed_devices_def)
  have "set (filter P (best # rest)) = {i. i < length cards \<and> i \<noteq> k \<and> P i}" for P
    using s by (auto simp del: filter.simps)
  then show "set (listed_devices cards mode k (best # rest) p) =
      {i. i < length cards \<and> (i = p \<or> i = k \<or> mode = Auto \<or> lit_card (cards ! i))}"
    unfolding listed_devices_def using k pin by (auto simp del: filter.simps)
qed

section \<open>Properties\<close>

text \<open>What a managed device list promises: distinct cards, the primary first, the integrated
  card and every card with a lit output on it, and a usable output among them.\<close>

definition managed_list :: "gpu_snapshot \<Rightarrow> gpu_mode \<Rightarrow> nat list \<Rightarrow> bool" where
  "managed_list snap mode idx =
     (distinct idx \<and> idx \<noteq> [] \<and> gpu_usable snap idx
      \<and> (case integrated_card (gs_cards snap) of
           None \<Rightarrow> False
         | Some k \<Rightarrow>
             set idx = {i. i < length (gs_cards snap)
               \<and> (i = hd idx \<or> i = k \<or> mode = Auto \<or> lit_card (gs_cards snap ! i))}
             \<and> (mode = Igpu \<longrightarrow> hd idx = k)
             \<and> (mode = Dgpu \<longrightarrow> hd idx \<noteq> k)
             \<and> (hd idx \<noteq> k \<longrightarrow> (\<forall>j < length (gs_cards snap). j \<noteq> k \<longrightarrow>
                  discrete_key (gs_cards snap ! hd idx) \<le> discrete_key (gs_cards snap ! j)))))"

text \<open>C19: The selection never reaches its \<open>unreachable!\<close> arm, and when it manages the session
  its list names each card once, the primary first: the integrated card for the iGPU mode, the
  best discrete one (most external outputs, then most memory, then path) for the dGPU mode; the
  integrated card and every card with a lit output are on it, and some listed output can show
  the session.\<close>
theorem gpu_selection_sound:
  "case gpu_desired snap mode source of
     None \<Rightarrow> False
   | Some (None, _) \<Rightarrow> True
   | Some (Some devices, _) \<Rightarrow>
       \<exists>idx. devices = map (\<lambda>i. devnode (gs_cards snap ! i)) idx \<and> managed_list snap mode idx"
proof (cases rule: gpu_desired_cases [of snap mode source])
  case (unmanaged reason)
  then show ?thesis by simp
next
  case (managed k best rest primary reason)
  let ?idx = "listed_devices (gs_cards snap) mode k (best # rest) primary"
  have k: "k < length (gs_cards snap)" using managed(4) by (rule integrated_card_in_range)
  have bk: "best \<noteq> k" using set_sorted_discretes [of "gs_cards snap" k] managed(5) by auto
  note p = listed_devices_props [OF managed(5) k choose_primary_mem [OF managed(6)]]
  have m: "(mode = Igpu \<longrightarrow> primary = k) \<and> (mode = Dgpu \<longrightarrow> primary \<noteq> k) \<and> (primary \<noteq> k \<longrightarrow> primary = best)"
    using managed(6) bk by (cases mode) (auto simp: choose_primary_def split: if_splits)
  have "?idx \<noteq> []" by (simp add: listed_devices_def)
  moreover have "\<forall>j < length (gs_cards snap). j \<noteq> k \<longrightarrow>
      discrete_key (gs_cards snap ! best) \<le> discrete_key (gs_cards snap ! j)"
    using sorted_discretes_best [OF managed(5)] by blast
  ultimately have "managed_list snap mode ?idx"
    unfolding managed_list_def p(2) using p(1,3) [of mode] m managed(4,7) by auto
  then show ?thesis using managed(8) by auto
qed

definition two_cards :: gpu_snapshot where
  "two_cards = \<lparr>gs_cards =
     [\<lparr>gc_path = ''/by-path/pci-1'', gc_card = ''card1'', gc_boot_vga = 0, gc_vram = 8000, gc_external = 1, gc_edp = 0\<rparr>,
      \<lparr>gc_path = ''/by-path/pci-2'', gc_card = ''card2'', gc_boot_vga = 1, gc_vram = 500, gc_external = 0, gc_edp = 1\<rparr>],
     gs_non_pci_display = False, gs_lid_closed = True\<rparr>"

lemma two_cards_desired:
  "gpu_desired two_cards Dgpu Override = Some (Some [''/dev/dri/card1'', ''/dev/dri/card2''], ''override-dgpu'')"
  by code_simp

theorem gpu_selection_sound_witness:
  "\<exists>idx. [''/dev/dri/card1'', ''/dev/dri/card2''] = map (\<lambda>i. devnode (gs_cards two_cards ! i)) idx
     \<and> managed_list two_cards Dgpu idx"
  using gpu_selection_sound [of two_cards Dgpu Override] by (simp add: two_cards_desired)

end
