(* ===== verification/Sysfs.thy ===== *)
theory Sysfs
  imports Gpu KbdRules
begin

text \<open>
  The sysfs and procfs readers: \<open>src/sysio/sysfs.rs\<close>, \<open>src/sysio/kbd.rs\<close> and
  \<open>find_backlight\<close> of \<open>src/daemon/mod.rs\<close>, as functions of a file system that says what
  each directory lists, what each file holds and where each link leads.
\<close>

section \<open>The file system read\<close>

record filesystem =
  fs_dir :: "string \<Rightarrow> string list option"
  fs_file :: "string \<Rightarrow> string option"
  fs_canonical :: "string \<Rightarrow> string option"

definition path_join :: "string \<Rightarrow> string \<Rightarrow> string" where
  "path_join p n = p @ ''/'' @ n"

definition file_name :: "string \<Rightarrow> string" where
  "file_name p = last (split_char (CHR ''/'') p)"

definition or_default :: "'a \<Rightarrow> 'a option \<Rightarrow> 'a" where
  "or_default d x = (case x of Some y \<Rightarrow> y | None \<Rightarrow> d)"

definition read_first_word :: "filesystem \<Rightarrow> string \<Rightarrow> string option" where
  "read_first_word fs p = Option.bind (fs_file fs p) first_word"

definition read_int :: "filesystem \<Rightarrow> string \<Rightarrow> u64 \<Rightarrow> u64" where
  "read_int fs p d =
     (case fs_file fs p of
        None \<Rightarrow> d
      | Some text \<Rightarrow>
          let s = trim text in
          or_default d (map_option word_of_nat
            (case (case strip_prefix ''0x'' s of Some h \<Rightarrow> Some h | None \<Rightarrow> strip_prefix ''0X'' s) of
               Some h \<Rightarrow> parse_hex (2 ^ 64 - 1) h
             | None \<Rightarrow> parse_unsigned (2 ^ 64 - 1) s)))"

section \<open>Connectors, supplies, lid\<close>

definition DRM_DIR :: string where "DRM_DIR = ''/sys/class/drm''"

definition connector_connected :: "filesystem \<Rightarrow> string \<Rightarrow> bool" where
  "connector_connected fs name =
     (map_option trim (fs_file fs (path_join (path_join DRM_DIR name) ''status'')) = Some ''connected'')"

definition connector_of :: "filesystem \<Rightarrow> string \<Rightarrow> string \<Rightarrow> bool" where
  "connector_of fs cardn conn = (starts_with (cardn @ ''-'') conn
     \<and> \<not> str_contains ''-Writeback-'' conn \<and> connector_connected fs conn)"

definition card_connectors :: "filesystem \<Rightarrow> string \<Rightarrow> u32 \<times> u32" where
  "card_connectors fs cardn =
     (case fs_dir fs DRM_DIR of
        None \<Rightarrow> (0, 0)
      | Some entries \<Rightarrow>
          fold (\<lambda>conn (external, edp).
              if \<not> connector_of fs cardn conn then (external, edp)
              else if str_contains ''eDP'' conn then (external, edp + 1)
              else (external + 1, edp)) entries (0, 0))"

definition connected_output :: "filesystem \<Rightarrow> string \<Rightarrow> (string \<times> string) option" where
  "connected_output fs name =
     (case split_once (CHR ''-'') name of
        None \<Rightarrow> None
      | Some (cardn, connector) \<Rightarrow>
          if \<not> starts_with ''card'' cardn \<or> str_contains ''-Writeback-'' name then None
          else if connector_connected fs name then Some (connector, cardn) else None)"

definition connected_outputs :: "filesystem \<Rightarrow> (string \<times> string) list" where
  "connected_outputs fs =
     (case fs_dir fs DRM_DIR of
        None \<Rightarrow> [] | Some entries \<Rightarrow> sort (List.map_filter (connected_output fs) entries))"

definition on_ac_from_supplies :: "(string \<times> string) list \<Rightarrow> bool option" where
  "on_ac_from_supplies supplies =
     map_option (\<lambda>(_, online). trim online = ''1'')
       (find (\<lambda>(kind, _). trim kind = ''Mains'') supplies)"

definition POWER_SUPPLY_DIR :: string where "POWER_SUPPLY_DIR = ''/sys/class/power_supply''"

definition on_ac_sysfs :: "filesystem \<Rightarrow> bool option" where
  "on_ac_sysfs fs =
     (case fs_dir fs POWER_SUPPLY_DIR of
        None \<Rightarrow> None
      | Some entries \<Rightarrow>
          on_ac_from_supplies (sort (List.map_filter (\<lambda>n.
            let dir = path_join POWER_SUPPLY_DIR n in
            case fs_file fs (path_join dir ''type'') of
              None \<Rightarrow> None
            | Some kind \<Rightarrow> Some (kind, or_default [] (fs_file fs (path_join dir ''online'')))) entries)))"

definition LID_STATE_GLOB_DIR :: string where "LID_STATE_GLOB_DIR = ''/proc/acpi/button/lid''"

fun first_lid_state :: "filesystem \<Rightarrow> string list \<Rightarrow> bool" where
  "first_lid_state fs [] = False"
| "first_lid_state fs (n # ns) =
     (case fs_file fs (path_join (path_join LID_STATE_GLOB_DIR n) ''state'') of
        Some text \<Rightarrow> str_contains ''closed'' text
      | None \<Rightarrow> first_lid_state fs ns)"

definition lid_closed_sysfs :: "filesystem \<Rightarrow> bool" where
  "lid_closed_sysfs fs =
     (case fs_dir fs LID_STATE_GLOB_DIR of None \<Rightarrow> False | Some ns \<Rightarrow> first_lid_state fs ns)"

section \<open>GPU candidates\<close>

definition DRI_BY_PATH :: string where "DRI_BY_PATH = ''/dev/dri/by-path''"

definition card_of_link :: "filesystem \<Rightarrow> string \<Rightarrow> string" where
  "card_of_link fs link = or_default [] (map_option file_name (fs_canonical fs link))"

definition is_gpu_candidate :: "filesystem \<Rightarrow> string \<Rightarrow> string \<Rightarrow> bool" where
  "is_gpu_candidate fs link cardn =
     (let name = file_name link;
          pci_class = or_default [] (map_option trim
            (fs_file fs (path_join (path_join (path_join DRM_DIR cardn) ''device'') ''class'')))
      in starts_with ''pci-'' name \<and> \<not> str_contains ''-usb-'' name
         \<and> \<not> str_contains ''-usbv2-'' name \<and> starts_with ''0x03'' pci_class)"

definition gpu_card_at :: "filesystem \<Rightarrow> string \<Rightarrow> string \<Rightarrow> gpu_card" where
  "gpu_card_at fs link cardn =
     (let dev = path_join (path_join DRM_DIR cardn) ''device'';
          (external, edp) = card_connectors fs cardn
      in \<lparr>gc_path = link, gc_card = cardn,
          gc_boot_vga = ucast (read_int fs (path_join dev ''boot_vga'') 0),
          gc_vram = read_int fs (path_join dev ''mem_info_vram_total'') 0,
          gc_external = external, gc_edp = edp\<rparr>)"

fun scan_cards ::
  "filesystem \<Rightarrow> string list \<Rightarrow> gpu_card list \<times> string list \<times> bool \<Rightarrow> gpu_card list \<times> string list \<times> bool" where
  "scan_cards fs [] acc = acc"
| "scan_cards fs (link # links) (cards, seen, non_pci) =
     (let cardn = card_of_link fs link in
      if \<not> starts_with ''card'' cardn \<or> cardn \<in> set seen then scan_cards fs links (cards, seen, non_pci)
      else let (external, edp) = card_connectors fs cardn in
        if \<not> is_gpu_candidate fs link cardn
        then scan_cards fs links (cards, seen @ [cardn], non_pci \<or> external > 0 \<or> edp > 0)
        else scan_cards fs links (cards @ [gpu_card_at fs link cardn], seen @ [cardn], non_pci))"

definition read_gpu_snapshot :: "filesystem \<Rightarrow> gpu_snapshot" where
  "read_gpu_snapshot fs =
     (let entries = sort (filter (ends_with ''-card'')
            (map (path_join DRI_BY_PATH) (or_default [] (fs_dir fs DRI_BY_PATH))));
          (cards, seen, non_pci) = scan_cards fs entries ([], [], False)
      in \<lparr>gs_cards = cards, gs_non_pci_display = non_pci, gs_lid_closed = lid_closed_sysfs fs\<rparr>)"

text \<open>No cardn is listed twice, and all of them resolve from a \<open>by-path\<close> link.\<close>

lemma scan_cards_inv:
  assumes "distinct (map gc_card cards)" "set (map gc_card cards) \<subseteq> set seen"
    and "scan_cards fs links (cards, seen, np) = (cards', seen', np')"
  shows "distinct (map gc_card cards') \<and> set (map gc_card cards') \<subseteq> set seen'
    \<and> (\<forall>c \<in> set cards'. c \<in> set cards \<or> (gc_path c \<in> set links \<and> starts_with ''card'' (gc_card c)))"
  using assms
proof (induction fs links "(cards, seen, np)" arbitrary: cards seen np rule: scan_cards.induct)
  case (1 fs)
  then show ?case by simp
next
  case (2 fs link links cards seen np)
  define cardn where "cardn = card_of_link fs link"
  obtain external edp where conn: "card_connectors fs cardn = (external, edp)" by fastforce
  have gc: "gc_card (gpu_card_at fs link cardn) = cardn" "gc_path (gpu_card_at fs link cardn) = link"
    by (simp_all add: gpu_card_at_def Let_def split_beta)
  consider (skip) "\<not> starts_with ''card'' cardn \<or> cardn \<in> set seen"
    | (other) "starts_with ''card'' cardn" "cardn \<notin> set seen" "\<not> is_gpu_candidate fs link cardn"
    | (add) "starts_with ''card'' cardn" "cardn \<notin> set seen" "is_gpu_candidate fs link cardn" by blast
  then show ?case
  proof cases
    case skip
    then have s: "scan_cards fs links (cards, seen, np) = (cards', seen', np')"
      using 2(6) by (simp add: cardn_def Let_def)
    then show ?thesis using 2(1) [OF cardn_def skip 2(4,5) s] by auto
  next
    case other
    then have s: "scan_cards fs links (cards, seen @ [cardn], np \<or> external > 0 \<or> edp > 0)
        = (cards', seen', np')"
      using 2(6) conn by (simp add: cardn_def Let_def)
    have "set (map gc_card cards) \<subseteq> set (seen @ [cardn])" using 2(5) by auto
    then show ?thesis using 2(2) [OF cardn_def _ conn [symmetric] refl _ 2(4) _ s] other by auto
  next
    case add
    then have s: "scan_cards fs links (cards @ [gpu_card_at fs link cardn], seen @ [cardn], np)
        = (cards', seen', np')"
      using 2(6) conn by (simp add: cardn_def Let_def)
    have d: "distinct (map gc_card (cards @ [gpu_card_at fs link cardn]))"
      "set (map gc_card (cards @ [gpu_card_at fs link cardn])) \<subseteq> set (seen @ [cardn])"
      using 2(4,5) add(2) gc by auto
    then show ?thesis
      using 2(3) [OF cardn_def _ conn [symmetric] refl _ d s] add gc by auto
  qed
qed

section \<open>Backlight and keyboard hardware\<close>

definition BACKLIGHT_DIR :: string where "BACKLIGHT_DIR = ''/sys/class/backlight''"

definition pick_backlight :: "string list \<Rightarrow> string option" where
  "pick_backlight entries =
     (let names = sort (filter (\<lambda>n. \<not> starts_with ''ddcci'' n) entries) in
      case find (\<lambda>n. starts_with ''amdgpu_bl'' n \<or> starts_with ''intel_backlight'' n
                   \<or> starts_with ''acpi_video'' n) names of
        Some n \<Rightarrow> Some n
      | None \<Rightarrow> (case names of [] \<Rightarrow> None | n # _ \<Rightarrow> Some n))"

definition find_backlight :: "filesystem \<Rightarrow> (string \<times> u32) option" where
  "find_backlight fs =
     Option.bind (fs_dir fs BACKLIGHT_DIR) (\<lambda>entries.
     Option.bind (pick_backlight entries) (\<lambda>dev.
       let mx = (ucast (read_int fs (path_join (path_join BACKLIGHT_DIR dev) ''max_brightness'') 0) :: u32)
       in if mx > 0 then Some (dev, mx) else None))"

definition read_u32_file :: "filesystem \<Rightarrow> string \<Rightarrow> u32 option" where
  "read_u32_file fs p = Option.bind (fs_file fs p) (\<lambda>t. parse_u32 (trim t))"

definition LEDS_DIR :: string where "LEDS_DIR = ''/sys/class/leds''"
definition IIO_DIR :: string where "IIO_DIR = ''/sys/bus/iio/devices''"

definition pick_kbd_led :: "string list \<Rightarrow> string option" where
  "pick_kbd_led names = find (str_contains ''kbd_backlight'') names"

definition find_kbd_led :: "filesystem \<Rightarrow> (string \<times> u32) option" where
  "find_kbd_led fs =
     Option.bind (fs_dir fs LEDS_DIR) (\<lambda>entries.
     Option.bind (pick_kbd_led (sort entries)) (\<lambda>name.
     Option.bind (read_u32_file fs (path_join (path_join LEDS_DIR name) ''max_brightness'')) (\<lambda>mx.
       if mx > 0 then Some (name, mx) else None)))"

definition led_brightness :: "filesystem \<Rightarrow> string \<Rightarrow> u32 option" where
  "led_brightness fs name = read_u32_file fs (path_join (path_join LEDS_DIR name) ''brightness'')"

definition ALS_ATTRS :: "string list" where
  "ALS_ATTRS = [''in_illuminance_input'', ''in_illuminance0_input'', ''in_illuminance_raw'']"

definition pick_als_attr :: "string list \<Rightarrow> string option" where
  "pick_als_attr attrs = find (\<lambda>a. a \<in> set attrs) ALS_ATTRS"

fun find_als_in :: "filesystem \<Rightarrow> string list \<Rightarrow> string option" where
  "find_als_in fs [] = None"
| "find_als_in fs (dev # devs) =
     (case fs_dir fs dev of
        None \<Rightarrow> None
      | Some attrs \<Rightarrow>
          (case pick_als_attr attrs of
             Some a \<Rightarrow> Some (path_join dev a)
           | None \<Rightarrow> find_als_in fs devs))"

definition find_als :: "filesystem \<Rightarrow> string option" where
  "find_als fs = Option.bind (fs_dir fs IIO_DIR) (\<lambda>ns. find_als_in fs (sort (map (path_join IIO_DIR) ns)))"

definition read_lux :: "(string \<Rightarrow> f64 option) \<Rightarrow> filesystem \<Rightarrow> string \<Rightarrow> f64 option" where
  "read_lux parse_f64 fs attr = Option.bind (fs_file fs attr) (\<lambda>t. parse_f64 (trim t))"

lemma find_backlight_pos: "find_backlight fs = Some (dev, mx) \<Longrightarrow> mx > 0"
  by (auto simp: find_backlight_def Let_def bind_eq_Some_conv split: if_splits)

lemma find_kbd_led_pos: "find_kbd_led fs = Some (name, mx) \<Longrightarrow> mx > 0"
  by (auto simp: find_kbd_led_def bind_eq_Some_conv split: if_splits)

section \<open>Properties\<close>

lemma read_gpu_snapshot_cards:
  "distinct (map gc_card (gs_cards (read_gpu_snapshot fs)))"
  "c \<in> set (gs_cards (read_gpu_snapshot fs)) \<Longrightarrow>
     starts_with ''/dev/dri/by-path/'' (gc_path c) \<and> starts_with ''card'' (gc_card c)"
proof -
  let ?cards = "gs_cards (read_gpu_snapshot fs)"
  define entries where "entries = sort (filter (ends_with ''-card'')
      (map (path_join DRI_BY_PATH) (or_default [] (fs_dir fs DRI_BY_PATH))))"
  obtain cards seen np where sc: "scan_cards fs entries ([], [], False) = (cards, seen, np)"
    using prod_cases3 by blast
  then have c: "?cards = cards" by (simp add: read_gpu_snapshot_def entries_def [symmetric])
  have inv: "distinct (map gc_card cards)"
    "\<And>x. x \<in> set cards \<Longrightarrow> gc_path x \<in> set entries \<and> starts_with ''card'' (gc_card x)"
    using scan_cards_inv [OF _ _ sc] by auto
  have l: "starts_with ''/dev/dri/by-path/'' l" if "l \<in> set entries" for l
    using that by (auto simp: entries_def path_join_def DRI_BY_PATH_def starts_with_def)
  show "distinct (map gc_card ?cards)" using inv c by simp
  show "c \<in> set ?cards \<Longrightarrow> starts_with ''/dev/dri/by-path/'' (gc_path c) \<and> starts_with ''card'' (gc_card c)"
    using inv c l by blast
qed

lemmas read_gpu_snapshot_distinct = read_gpu_snapshot_cards(1)

text \<open>The snapshot the selection works on never lists a kernel card twice, every card comes from
  a \<open>by-path\<close> link and is a kernel card, and so the device list computed from any file system
  has no duplicate device node.\<close>
lemma snapshot_cards_distinct:
  "distinct (map gc_card (gs_cards (read_gpu_snapshot fs)))
   \<and> (\<forall>c \<in> set (gs_cards (read_gpu_snapshot fs)).
        starts_with ''/dev/dri/by-path/'' (gc_path c) \<and> starts_with ''card'' (gc_card c))
   \<and> (case gpu_desired (read_gpu_snapshot fs) mode source of
        Some (Some devices, _) \<Rightarrow> distinct devices
      | _ \<Rightarrow> True)"
proof -
  let ?cards = "gs_cards (read_gpu_snapshot fs)"
  note d = read_gpu_snapshot_distinct [of fs]
  have "case gpu_desired (read_gpu_snapshot fs) mode source of
      Some (Some devices, _) \<Rightarrow> distinct devices | _ \<Rightarrow> True"
  proof (cases rule: gpu_desired_cases [of "read_gpu_snapshot fs" mode source])
    case (managed k best rest primary reason)
    note p = listed_devices_props [OF managed(5) integrated_card_in_range [OF managed(4)]
        choose_primary_mem [OF managed(6)]]
    have "inj_on (\<lambda>i. devnode (?cards ! i)) {i. i < length ?cards}"
      using d by (auto simp: inj_on_def devnode_def distinct_conv_nth)
    then show ?thesis using p(1,3) managed(8)
      by (auto simp: distinct_map intro: inj_on_subset)
  qed simp
  with d show ?thesis using read_gpu_snapshot_cards(2) [of _ fs] by blast
qed

text \<open>A machine with the same card behind two links.\<close>

definition demo_fs :: filesystem where
  "demo_fs = \<lparr>fs_dir = (\<lambda>d. if d = ''/dev/dri/by-path'' then Some [''pci-b-card'', ''pci-a-card''] else None),
     fs_file = (\<lambda>p. if p = ''/sys/class/drm/card0/device/class'' then Some ''0x030000'' else None),
     fs_canonical = (\<lambda>p. Some ''/dev/dri/card0'')\<rparr>"

lemma snapshot_cards_distinct_witness:
  "distinct (map gc_card (gs_cards (read_gpu_snapshot demo_fs)))
   \<and> map gc_card (gs_cards (read_gpu_snapshot demo_fs)) = [''card0'']"
proof -
  have "map gc_card (gs_cards (read_gpu_snapshot demo_fs)) = [''card0'']" by code_simp
  with snapshot_cards_distinct [of demo_fs Auto Default] show ?thesis by simp
qed

end
