(* ===== verification/Ctx.thy ===== *)
theory Ctx
  imports Events PowerConf Sysfs
begin

text \<open>
  The daemon's context (\<open>src/daemon/ctx.rs\<close>), the files it owns, the trace of what it does
  to the world, and the environment it asks.

  A handler is a function of an environment and a system state. Everything the code reads
  from outside the process (logind, hyprctl, powerd, sysfs, the clock, whether a write
  succeeds) is a query of \<open>env\<close>, answered per tick: each query consumes one tick, so two
  reads of the same thing may differ. The files that only hyprstate's own handlers and CLI
  write are part of the state; another process may rewrite them between two handlers, never
  inside one. Not the daemon's own: the selection of the \<open>monitor_profiles\<close> crate
  (\<open>ext_select\<close>, \<open>ext_gpu_pref_str\<close>) and the decimal reader of \<open>f64\<close> (\<open>parse_f64\<close>); they
  are fields of \<open>env\<close> too, as are the paths that depend on the user's environment.
\<close>

section \<open>Profiles of the \<open>monitor_profiles\<close> crate\<close>

text \<open>The fields the daemon reads; \<open>'p\<close> is the rest of the crate's profile, which is only
  compared.\<close>

datatype edp_policy = Auto | Enable | Disable
datatype gpu_pref = Auto | Igpu | Dgpu

record 'p monitor_profile =
  mp_name :: string
  mp_edp :: edp_policy
  mp_gpu :: gpu_pref
  mp_hooks :: "string list"
  mp_rest :: 'p

section \<open>The context\<close>

text \<open>A spawned task the dispatcher holds a handle of: its delay and \<open>is_finished\<close>.\<close>

datatype task = Task (task_delay: duration) (is_finished: bool)

record waybar_view =
  wv_applied :: "power_profile option"
  wv_override_set :: bool
  wv_powerd_available :: bool

record 'p daemon_ctx =
  lid_closed :: bool
  lid_present :: bool
  lid_grace :: duration
  lid_ac :: lid_ac_policy
  ext_mon_count :: u32
  logind_inhibitor :: bool
  wayland_inhibitor :: bool
  locked :: bool
  on_ac :: bool
  state :: fsm_state
  suspend_requested :: bool
  grace_timer :: "task option"
  profile_debounce :: "task option"
  power_debounce :: "task option"
  claim_watch :: "task option"
  last_cursor_pos :: "(int \<times> int) option"
  current_profile :: "string option"
  active_profile_rev :: "'p monitor_profile option"
  edp_policy :: edp_policy
  gpu_actual :: "string list option"
  gpu_actual_pending :: bool
  gpu_last_notified :: "string option"
  gpu_last_notify_at :: "instant option"
  dgpu_pinned :: "bool option"
  on_ac_settled :: bool
  battery_percent :: "f64 option"
  low_battery :: bool
  power_policy :: power_policy
  battery_low_pct :: u8
  power_override :: "power_profile option"
  power_override_base :: "base_state option"
  power_applied :: "power_profile option"
  power_last_base :: "base_state option"
  self_writes :: self_write_tracker
  powerd_available :: bool
  powerd_warned :: bool
  brightness_dev :: "string option"
  brightness_max :: u32
  brightness_set :: "u32 option"
  brightness_saved :: "u32 option"
  waybar_seen :: "waybar_view option"
  kbd_mode :: kbd_mode
  kbd_idle :: duration
  kbd_dark_lux :: u32
  kbd_led :: "(string \<times> u32) option"
  kbd_als :: "string option"
  kbd_typing :: bool
  kbd_sleeping :: bool
  kbd_dark :: bool
  kbd_last_lux :: "f64 option"
  kbd_level :: u8
  kbd_override :: bool
  kbd_applied :: "u32 option"

definition default_context :: "'p daemon_ctx" where
  "default_context = \<lparr>
     lid_closed = False, lid_present = True, lid_grace = secs (unat DEFAULT_LID_GRACE_SECS),
     lid_ac = lid_ac_policy.Suspend, ext_mon_count = 0, logind_inhibitor = False,
     wayland_inhibitor = False, locked = False, on_ac = True, state = fsm_state.LidOpen,
     suspend_requested = False, grace_timer = None, profile_debounce = None,
     power_debounce = None, claim_watch = None, last_cursor_pos = None,
     current_profile = None, active_profile_rev = None, edp_policy = edp_policy.Auto,
     gpu_actual = None, gpu_actual_pending = True, gpu_last_notified = None,
     gpu_last_notify_at = None, dgpu_pinned = None, on_ac_settled = True,
     battery_percent = Some (f64_of_nat 100), low_battery = False,
     power_policy = default_power_policy, battery_low_pct = DEFAULT_BATTERY_LOW_PCT,
     power_override = None, power_override_base = None, power_applied = None,
     power_last_base = None, self_writes = tracker_empty, powerd_available = True,
     powerd_warned = False, brightness_dev = None, brightness_max = 0,
     brightness_set = None, brightness_saved = None, waybar_seen = None,
     kbd_mode = kbd_mode.Auto, kbd_idle = secs (unat DEFAULT_KBD_IDLE_SECS),
     kbd_dark_lux = DEFAULT_KBD_DARK_LUX, kbd_led = None, kbd_als = None,
     kbd_typing = False, kbd_sleeping = False, kbd_dark = False, kbd_last_lux = None,
     kbd_level = DEFAULT_KBD_LEVEL_PCT, kbd_override = False, kbd_applied = None\<rparr>"

section \<open>Effects, files, state\<close>

datatype notification =
    OverrideCleared power_profile base_state
  | AdoptedOverride power_profile
  | GpuDrift (gd_primary: string) (gd_reason: string) (gd_trigger: string) (gd_on_ac: bool)

datatype cmd =
    SetEdp bool
  | CmdApplyProfile string
  | DpmsOn
  | RehomeEdpWorkspaces
  | PauseMedia
  | Notify notification
  | RunHook string

datatype timer_name = GraceTimer | ProfileDebounce | PowerDebounce | ClaimWatch

datatype brightness_class = Backlight | Leds

text \<open>What the daemon does, in order. \<open>LiveLocker\<close> records the outcome of a lock proof and
  \<open>Transition\<close> the log line of a state change; neither touches the world, nor do timers,
  reconcile requests and the mirror of the lock state. A call carries what it was answered:
  \<open>CallSuspend True\<close> is a suspend that logind accepted. \<open>RenderProfiles\<close> is one
  \<open>load_profiles\<close>, which writes the Lua renders that are out of date, and \<open>BindTelemetry\<close> one
  \<open>TelemetryEmitter::new\<close>, which removes the telemetry socket and binds its own; both happen in shadow
  mode as well.\<close>

datatype effect =
    Worker cmd
  | Dropped cmd
  | ReconcileRequest reconcile_trigger
  | TimerSpawn timer_name duration
  | TimerAbort timer_name
  | LockMirror bool
  | LiveLocker bool
  | Transition fsm_state fsm_state string
  | CallLock
  | CallSuspend bool
  | PowerdApply power_profile bool
  | PowerdPin bool bool
  | CallSetBrightness brightness_class string u32 bool
  | SignalWaybar
  | WriteRequest
  | RemoveRequest
  | WriteOverride power_profile
  | RemoveOverride
  | RepointProfile string
  | WriteBreadcrumb "gpu_pref option"
  | RemoveKbdMarker
  | WriteKbdStatus bool
  | RenderProfiles
  | BindTelemetry

text \<open>The effects that shadow mode withholds, and those that leave the process at all.\<close>

fun outward :: "effect \<Rightarrow> bool" where
  "outward (Dropped _) = False"
| "outward (ReconcileRequest _) = False"
| "outward (TimerSpawn _ _) = False"
| "outward (TimerAbort _) = False"
| "outward (LockMirror _) = False"
| "outward (LiveLocker _) = False"
| "outward (Transition _ _ _) = False"
| "outward RenderProfiles = False"
| "outward BindTelemetry = False"
| "outward _ = True"

definition leaves_process :: "effect \<Rightarrow> bool" where
  "leaves_process x \<longleftrightarrow> outward x \<or> x \<in> {RenderProfiles, BindTelemetry}"

fun is_suspend :: "effect \<Rightarrow> bool" where
  "is_suspend (CallSuspend _) = True"
| "is_suspend _ = False"

record 'p sys = "'p daemon_ctx" +
  shadow :: bool
  has_session :: bool
  runtime_dir :: bool
  request_file :: "string option"
  override_file :: "string option"
  active_link :: "string option"
  kbd_marker :: bool
  log :: "effect list"
  tick :: nat

text \<open>One entry of \<open>hyprctl monitors\<close> as \<open>sysio/hyprctl.rs\<close> deserialises it.\<close>

record hypr_monitor =
  hm_name :: string
  hm_description :: string
  hm_disabled :: bool
  hm_dpms_status :: bool

record 'p env =
  q_io :: "nat \<Rightarrow> bool"
  q_worker :: "nat \<Rightarrow> bool"
  q_now :: "nat \<Rightarrow> instant"
  q_monitors :: "nat \<Rightarrow> hypr_monitor list option"
  q_clients :: "nat \<Rightarrow> bool option list option"
  q_compositor_lock :: "nat \<Rightarrow> bool option"
  q_locked_hint :: "nat \<Rightarrow> bool option"
  q_lock_call :: "nat \<Rightarrow> bool"
  q_lock_engages :: "nat \<Rightarrow> bool"
  q_suspend :: "nat \<Rightarrow> bool"
  q_powerd :: "nat \<Rightarrow> bool"
  q_set_brightness :: "nat \<Rightarrow> bool"
  q_profiles :: "nat \<Rightarrow> 'p monitor_profile list"
  q_canonical :: "nat \<Rightarrow> string \<Rightarrow> string option"
  q_fs :: "nat \<Rightarrow> filesystem"
  q_gpu_reason :: "nat \<Rightarrow> string option"
  ext_select :: "string list \<Rightarrow> 'p monitor_profile list \<Rightarrow> 'p monitor_profile option"
  ext_gpu_pref_str :: "gpu_pref \<Rightarrow> string"
  parse_f64 :: "string \<Rightarrow> f64 option"
  active_link_path :: string
  gpu_override_path :: string
  hypr_lock_path :: "string option"

definition ask :: "(nat \<Rightarrow> 'a) \<Rightarrow> 'p sys \<Rightarrow> 'a \<times> 'p sys" where
  "ask q s = (q (tick s), s\<lparr>tick := Suc (tick s)\<rparr>)"

definition emit :: "effect \<Rightarrow> 'p sys \<Rightarrow> 'p sys" where
  "emit x s = s\<lparr>log := log s @ [x]\<rparr>"

text \<open>Loading the profiles: what it returns is an answer, that it writes the renders an effect.\<close>

definition load_profiles :: "'p env \<Rightarrow> 'p sys \<Rightarrow> 'p monitor_profile list \<times> 'p sys" where
  "load_profiles e s = (let (profiles, s) = ask (q_profiles e) s in (profiles, emit RenderProfiles s))"

section \<open>Derived inputs\<close>

definition kbd_active :: "'p sys \<Rightarrow> bool" where
  "kbd_active s = (kbd_mode s = kbd_mode.Auto \<and> kbd_led s \<noteq> None \<and> kbd_als s \<noteq> None)"

definition inhibitor :: "'p sys \<Rightarrow> bool" where
  "inhibitor s = (logind_inhibitor s \<or> wayland_inhibitor s)"

definition world :: "'p sys \<Rightarrow> world_inputs" where
  "world s = \<lparr>wi_lid_closed = lid_closed s, wi_ext_mon_count = ext_mon_count s,
     wi_inhibitor = inhibitor s, wi_suspend_requested = suspend_requested s,
     wi_locked = locked s, wi_battery_low = low_battery s \<and> \<not> on_ac_settled s,
     wi_lid_ac_hold = lid_ac s = lid_ac_policy.Defer \<and> on_ac s\<rparr>"

definition waybar_view_of :: "'p sys \<Rightarrow> waybar_view" where
  "waybar_view_of s = \<lparr>wv_applied = power_applied s, wv_override_set = power_override s \<noteq> None,
     wv_powerd_available = powerd_available s\<rparr>"

lemma world_cong:
  "\<lbrakk> lid_closed s' = lid_closed s; ext_mon_count s' = ext_mon_count s;
     logind_inhibitor s' = logind_inhibitor s; wayland_inhibitor s' = wayland_inhibitor s;
     suspend_requested s' = suspend_requested s; locked s' = locked s;
     low_battery s' = low_battery s; on_ac_settled s' = on_ac_settled s;
     lid_ac s' = lid_ac s; on_ac s' = on_ac s \<rbrakk> \<Longrightarrow> world s' = world s"
  by (simp add: world_def inhibitor_def)

text \<open>What the main machine reads and is; the effectors leave it alone.\<close>

definition fsm_view :: "'p sys \<Rightarrow> fsm_state \<times> world_inputs \<times> bool \<times> bool \<times> bool \<times> bool \<times> bool" where
  "fsm_view s = (state s, world s, on_ac s, on_ac_settled s, low_battery s, shadow s, has_session s)"

lemma fsm_viewD:
  assumes "fsm_view s' = fsm_view s"
  shows "state s' = state s" "world s' = world s" "on_ac s' = on_ac s"
    "on_ac_settled s' = on_ac_settled s" "low_battery s' = low_battery s"
    "shadow s' = shadow s" "has_session s' = has_session s"
    "ext_mon_count s' = ext_mon_count s" "suspend_requested s' = suspend_requested s"
    "locked s' = locked s" "lid_closed s' = lid_closed s"
proof -
  show "state s' = state s" "on_ac s' = on_ac s"
    "on_ac_settled s' = on_ac_settled s" "low_battery s' = low_battery s"
    "shadow s' = shadow s" "has_session s' = has_session s" and w: "world s' = world s"
    using assms by (simp_all add: fsm_view_def)
  show "ext_mon_count s' = ext_mon_count s" "suspend_requested s' = suspend_requested s"
    "locked s' = locked s" "lid_closed s' = lid_closed s"
    using w by (simp_all add: world_def)
qed

lemma fsm_view_ask [frame_simps]: "fsm_view (snd (ask q s)) = fsm_view s"
  by (simp add: fsm_view_def ask_def world_def inhibitor_def)

lemma fsm_view_emit [frame_simps]: "fsm_view (emit x s) = fsm_view s"
  by (simp add: fsm_view_def emit_def world_def inhibitor_def)

lemma fsm_view_load_profiles [frame_simps]: "fsm_view (snd (load_profiles e s)) = fsm_view s"
  by (simp add: load_profiles_def split_beta fsm_view_emit fsm_view_ask)

section \<open>The trace contract\<close>

text \<open>
  A law over the trace that composes: \<open>ok c es\<close> says that the effects \<open>es\<close> are allowed where
  \<open>c\<close> is what the law needs to know of the state (and what the operations that obey it leave
  alone). An operation keeps the contract when it only appends allowed effects.
\<close>

locale trace_law =
  fixes cond :: "'p sys \<Rightarrow> 'c"
    and ok :: "'c \<Rightarrow> effect list \<Rightarrow> bool"
  assumes ok_nil: "ok c []"
    and ok_append: "ok c xs \<Longrightarrow> ok c ys \<Longrightarrow> ok c (xs @ ys)"
begin

definition extends :: "'p sys \<Rightarrow> 'p sys \<Rightarrow> bool" where
  "extends s s' \<longleftrightarrow> cond s' = cond s \<and> (\<exists>es. log s' = log s @ es \<and> ok (cond s) es)"

lemma extends_refl: "extends s s"
  by (auto simp: extends_def ok_nil)

lemma extends_trans: "extends s s' \<Longrightarrow> extends s' s'' \<Longrightarrow> extends s s''"
  by (auto simp: extends_def intro: ok_append)

lemma extends_same: "cond s' = cond s \<Longrightarrow> log s' = log s \<Longrightarrow> extends s s'"
  by (auto simp: extends_def ok_nil)

lemma extends_append: "cond s' = cond s \<Longrightarrow> log s' = log s @ es \<Longrightarrow> ok (cond s) es \<Longrightarrow> extends s s'"
  by (auto simp: extends_def)

lemma extends_cond: "extends s s' \<Longrightarrow> cond s' = cond s"
  by (simp add: extends_def)

lemma extends_log: "extends s s' \<Longrightarrow> \<exists>es. log s' = log s @ es \<and> ok (cond s) es"
  by (simp add: extends_def)

end

text \<open>
  The law of the whole daemon: a suspend is called only straight after a positive lock proof
  (\<open>suspends_proved\<close>), the internal panel is only ever sent off with an external monitor
  attached, and in shadow mode nothing leaves the process.
\<close>

fun suspends_proved :: "bool \<Rightarrow> effect list \<Rightarrow> bool" where
  "suspends_proved proved [] = True"
| "suspends_proved proved (x # xs) =
     ((is_suspend x \<longrightarrow> proved) \<and> suspends_proved (x = LiveLocker True) xs)"

lemma suspends_proved_mono: "suspends_proved False xs \<Longrightarrow> suspends_proved b xs"
  by (cases xs) auto

lemma suspends_proved_append:
  "suspends_proved b xs \<Longrightarrow> suspends_proved False ys \<Longrightarrow> suspends_proved b (xs @ ys)"
  by (induction xs arbitrary: b) (auto intro: suspends_proved_mono)

lemma suspends_proved_nth:
  "suspends_proved False xs \<Longrightarrow> i < length xs \<Longrightarrow> is_suspend (xs ! i)
     \<Longrightarrow> 0 < i \<and> xs ! (i - 1) = LiveLocker True"
proof -
  have "suspends_proved b xs \<Longrightarrow> i < length xs \<Longrightarrow> is_suspend (xs ! i)
      \<Longrightarrow> (i = 0 \<and> b) \<or> (0 < i \<and> xs ! (i - 1) = LiveLocker True)" for b
  proof (induction xs arbitrary: b i)
    case (Cons x xs)
    then show ?case
      by (cases i) (auto simp: nth_Cons' split: if_splits)
  qed simp
  then show "suspends_proved False xs \<Longrightarrow> i < length xs \<Longrightarrow> is_suspend (xs ! i)
     \<Longrightarrow> 0 < i \<and> xs ! (i - 1) = LiveLocker True" by blast
qed

definition lawful :: "bool \<times> bool \<times> u32 \<Rightarrow> effect list \<Rightarrow> bool" where
  "lawful c es \<longleftrightarrow> (case c of (sh, sess, ext) \<Rightarrow>
     suspends_proved False es
     \<and> (\<forall>x \<in> set es. x = Worker (SetEdp False) \<longrightarrow> ext > 0)
     \<and> (sh \<longrightarrow> (\<forall>x \<in> set es. \<not> outward x)))"

definition law_cond :: "'p sys \<Rightarrow> bool \<times> bool \<times> u32" where
  "law_cond s = (shadow s, has_session s, ext_mon_count s)"

interpretation law: trace_law law_cond lawful
  by unfold_locales (auto simp: lawful_def suspends_proved_append split: prod.split)

lemma law_cond_view: "fsm_view s' = fsm_view s \<Longrightarrow> law_cond s' = law_cond s"
  using fsm_viewD [of s' s] by (simp add: law_cond_def)

lemma lawful_single:
  "\<not> is_suspend x \<Longrightarrow> x \<noteq> Worker (SetEdp False) \<or> ext > 0 \<Longrightarrow> \<not> (sh \<and> outward x)
     \<Longrightarrow> lawful (sh, sess, ext) [x]"
  by (auto simp: lawful_def)

lemma law_ask: "law.extends s (snd (ask q s))"
  by (intro law.extends_same) (simp_all add: ask_def law_cond_def)

lemma law_emit:
  "\<lbrakk> \<not> is_suspend x; x = Worker (SetEdp False) \<Longrightarrow> ext_mon_count s > 0;
     outward x \<Longrightarrow> \<not> shadow s \<rbrakk> \<Longrightarrow> law.extends s (emit x s)"
  by (intro law.extends_append [where es = "[x]"])
    (auto simp: emit_def law_cond_def intro!: lawful_single)

lemma law_load_profiles: "law.extends s (snd (load_profiles e s))"
proof -
  have "law.extends (snd (ask (q_profiles e) s)) (emit RenderProfiles (snd (ask (q_profiles e) s)))"
    by (rule law_emit) simp_all
  with law_ask [of s "q_profiles e"] show ?thesis
    by (simp add: load_profiles_def split_beta Let_def law.extends_trans)
qed

end
