(* ===== verification/Effectors.thy ===== *)
theory Effectors
  imports Ctx
begin

text \<open>
  The effectors of \<open>src/daemon/effectors.rs\<close> with the compositor queries of
  \<open>src/sysio/hyprctl.rs\<close> they and the dispatcher ask. One definition per method, in the
  order of the source; each comes with the two facts the handlers need: it keeps the trace
  contract, and it leaves what the main machine reads alone.
\<close>

section \<open>Compositor queries\<close>

definition EDP_MONITOR :: string where "EDP_MONITOR = ''eDP-2''"

definition ext_monitor_count_in :: "hypr_monitor list option \<Rightarrow> u32 \<Rightarrow> u32" where
  "ext_monitor_count_in monitors prev = (case monitors of
      Some ms \<Rightarrow> word_of_nat (length (filter (\<lambda>m. \<not> starts_with ''eDP'' (hm_name m)) ms))
    | None \<Rightarrow> prev)"

definition ext_monitor_count :: "'p env \<Rightarrow> u32 \<Rightarrow> 'p sys \<Rightarrow> u32 \<times> 'p sys" where
  "ext_monitor_count e prev s = (let (ms, s) = ask (q_monitors e) s in (ext_monitor_count_in ms prev, s))"

definition monitor_signature :: "'p env \<Rightarrow> 'p sys \<Rightarrow> string list \<times> 'p sys" where
  "monitor_signature e s = (let (ms, s) = ask (q_monitors e) s in
     (case ms of Some ms \<Rightarrow> map hm_description ms | None \<Rightarrow> [], s))"

definition edp_is_disabled_in :: "hypr_monitor list \<Rightarrow> bool option" where
  "edp_is_disabled_in ms = map_option hm_disabled (find (\<lambda>m. hm_name m = EDP_MONITOR) ms)"

definition any_enabled_monitor_dpms_off_in :: "hypr_monitor list \<Rightarrow> bool" where
  "any_enabled_monitor_dpms_off_in ms = (\<exists>m \<in> set ms. \<not> hm_disabled m \<and> \<not> hm_dpms_status m)"

definition any_client_inhibiting_idle_in :: "bool option list \<Rightarrow> bool" where
  "any_client_inhibiting_idle_in clients = (\<exists>c \<in> set clients. c = Some True)"

definition wayland_idle_inhibited :: "'p env \<Rightarrow> 'p sys \<Rightarrow> bool option \<times> 'p sys" where
  "wayland_idle_inhibited e s = (let (cs, s) = ask (q_clients e) s in
     (map_option any_client_inhibiting_idle_in cs, s))"

section \<open>The worker queue\<close>

definition send_cmd :: "'p env \<Rightarrow> cmd \<Rightarrow> 'p sys \<Rightarrow> 'p sys" where
  "send_cmd e c s =
     (if shadow s then s
      else let (accepted, s) = ask (q_worker e) s in
        emit (if accepted then Worker c else Dropped c) s)"

definition request_reconcile :: "reconcile_trigger \<Rightarrow> 'p sys \<Rightarrow> 'p sys" where
  "request_reconcile t s = emit (ReconcileRequest t) s"

definition set_edp :: "'p env \<Rightarrow> bool \<Rightarrow> 'p sys \<Rightarrow> 'p sys" where
  "set_edp e on s =
     (let resolved = (case edp_policy s of
            edp_policy.Disable \<Rightarrow> False | edp_policy.Enable \<Rightarrow> True | edp_policy.Auto \<Rightarrow> on) in
      if \<not> resolved \<and> \<not> edp_may_disable (ext_mon_count s) then s
      else send_cmd e (SetEdp resolved) s)"

definition dpms_on :: "'p env \<Rightarrow> 'p sys \<Rightarrow> 'p sys" where
  "dpms_on e s = send_cmd e DpmsOn s"

definition rehome_edp_workspaces :: "'p env \<Rightarrow> 'p sys \<Rightarrow> 'p sys" where
  "rehome_edp_workspaces e s = send_cmd e RehomeEdpWorkspaces s"

definition pause_media :: "'p env \<Rightarrow> 'p sys \<Rightarrow> 'p sys" where
  "pause_media e s = send_cmd e PauseMedia s"

definition notify_power :: "'p env \<Rightarrow> notification \<Rightarrow> 'p sys \<Rightarrow> 'p sys" where
  "notify_power e n s = send_cmd e (Notify n) s"

definition notify_gpu_drift ::
  "'p env \<Rightarrow> string list \<Rightarrow> string \<Rightarrow> string \<Rightarrow> 'p sys \<Rightarrow> 'p sys" where
  "notify_gpu_drift e desired reason trigger s =
     (let primary = (case desired of [] \<Rightarrow> [] | d # _ \<Rightarrow> last (split_char (CHR ''/'') d)) in
      send_cmd e (Notify (GpuDrift primary reason trigger (on_ac s))) s)"

section \<open>Timers\<close>

definition GRACE_SECONDS :: duration where "GRACE_SECONDS = secs 30"
definition DEFERRED_CLAIM_POLL :: duration where "DEFERRED_CLAIM_POLL = secs 5"
definition PROFILE_DEBOUNCE :: duration where "PROFILE_DEBOUNCE = millis 500"
definition POWER_AC_DEBOUNCE :: duration where "POWER_AC_DEBOUNCE = secs 5"
definition GPU_NOTIFY_MIN :: duration where "GPU_NOTIFY_MIN = secs 60"

definition running :: "task option \<Rightarrow> bool" where
  "running t = (case t of Some h \<Rightarrow> \<not> is_finished h | None \<Rightarrow> False)"

definition cancel_grace_timer :: "'p sys \<Rightarrow> 'p sys" where
  "cancel_grace_timer s =
     (case grace_timer s of None \<Rightarrow> s
      | Some _ \<Rightarrow> emit (TimerAbort GraceTimer) (s\<lparr>grace_timer := None\<rparr>))"

definition start_grace_timer :: "bool \<Rightarrow> 'p sys \<Rightarrow> 'p sys" where
  "start_grace_timer fresh s =
     (if \<not> fresh \<and> running (grace_timer s) then s
      else let s = cancel_grace_timer s;
               grace = (if suspend_requested s then GRACE_SECONDS else lid_grace s)
           in emit (TimerSpawn GraceTimer grace) (s\<lparr>grace_timer := Some (Task grace False)\<rparr>))"

definition start_claim_watch :: "'p sys \<Rightarrow> 'p sys" where
  "start_claim_watch s =
     (if running (claim_watch s) then s
      else emit (TimerSpawn ClaimWatch DEFERRED_CLAIM_POLL)
             (s\<lparr>claim_watch := Some (Task DEFERRED_CLAIM_POLL False)\<rparr>))"

definition cancel_claim_watch :: "'p sys \<Rightarrow> 'p sys" where
  "cancel_claim_watch s =
     (case claim_watch s of None \<Rightarrow> s
      | Some _ \<Rightarrow> emit (TimerAbort ClaimWatch) (s\<lparr>claim_watch := None\<rparr>))"

definition schedule_profile_reconcile :: "'p sys \<Rightarrow> 'p sys" where
  "schedule_profile_reconcile s =
     (let s = (case profile_debounce s of None \<Rightarrow> s | Some _ \<Rightarrow> emit (TimerAbort ProfileDebounce) s)
      in emit (TimerSpawn ProfileDebounce PROFILE_DEBOUNCE)
           (s\<lparr>profile_debounce := Some (Task PROFILE_DEBOUNCE False)\<rparr>))"

definition schedule_power_settle :: "'p sys \<Rightarrow> 'p sys" where
  "schedule_power_settle s =
     (let s = (case power_debounce s of None \<Rightarrow> s | Some _ \<Rightarrow> emit (TimerAbort PowerDebounce) s)
      in emit (TimerSpawn PowerDebounce POWER_AC_DEBOUNCE)
           (s\<lparr>power_debounce := Some (Task POWER_AC_DEBOUNCE False)\<rparr>))"

section \<open>Monitor profiles\<close>

text \<open>\<open>select_profile\<close> of \<open>sysio/profiles.rs\<close>: the crate selects among the inner profiles, the
  daemon's own entry of that name is returned.\<close>

definition select_profile ::
  "'p env \<Rightarrow> string list \<Rightarrow> 'p monitor_profile list \<Rightarrow> 'p monitor_profile option" where
  "select_profile e signature profiles =
     (case ext_select e signature profiles of
        None \<Rightarrow> None
      | Some selected \<Rightarrow> find (\<lambda>p. mp_name p = mp_name selected) profiles)"

text \<open>\<open>.active.lua\<close> holds the stem of the render it points at; canonicalising a link whose
  render is missing fails.\<close>

definition link_same :: "'p env \<Rightarrow> string \<Rightarrow> 'p sys \<Rightarrow> bool \<times> 'p sys" where
  "link_same e name s =
     (case active_link s of
        None \<Rightarrow> (False, s)
      | Some target \<Rightarrow> let (canon, s) = ask (q_canonical e) s in (canon target = canon name, s))"

definition active_profile_name :: "'p env \<Rightarrow> 'p sys \<Rightarrow> string option \<times> 'p sys" where
  "active_profile_name e s =
     (case active_link s of
        None \<Rightarrow> (None, s)
      | Some target \<Rightarrow> let (canon, s) = ask (q_canonical e) s in (canon target, s))"

definition run_hooks :: "'p env \<Rightarrow> string list \<Rightarrow> 'p sys \<Rightarrow> 'p sys" where
  "run_hooks e hooks s = fold (\<lambda>h. send_cmd e (RunHook h)) hooks s"

definition record_profile :: "'p monitor_profile \<Rightarrow> 'p sys \<Rightarrow> 'p sys" where
  "record_profile p s = s\<lparr>current_profile := Some (mp_name p), active_profile_rev := Some p,
     edp_policy := mp_edp p\<rparr>"

definition apply_profile :: "'p env \<Rightarrow> 'p monitor_profile \<Rightarrow> 'p sys \<Rightarrow> 'p sys" where
  "apply_profile e p s =
     (let (symlink_ok, s) = link_same e (mp_name p) s;
          name_same = (current_profile s = Some (mp_name p));
          body_same = (active_profile_rev s = Some p)
      in if symlink_ok \<and> name_same \<and> body_same then s
         else if shadow s then record_profile p s
         else let (repointed, s) = ask (q_io e) s in
           if \<not> repointed then s
           else let s = emit (RepointProfile (mp_name p)) (s\<lparr>active_link := Some (mp_name p)\<rparr>);
                    s = record_profile p s
                in run_hooks e (mp_hooks p) (send_cmd e (CmdApplyProfile (active_link_path e)) s))"

definition ingest_active_profile :: "'p env \<Rightarrow> 'p sys \<Rightarrow> bool \<times> 'p sys" where
  "ingest_active_profile e s =
     (let (name, s) = active_profile_name e s in
      case name of
        None \<Rightarrow> (False, s)
      | Some n \<Rightarrow>
          if current_profile s = Some n then (False, s)
          else let (profiles, s) = load_profiles e s;
                   matched = find (\<lambda>p. mp_name p = n) profiles
               in (True, s\<lparr>current_profile := Some n, active_profile_rev := matched,
                     edp_policy := (case matched of Some p \<Rightarrow> mp_edp p | None \<Rightarrow> edp_policy.Auto)\<rparr>))"

definition write_gpu_breadcrumb :: "'p env \<Rightarrow> gpu_pref option \<Rightarrow> 'p sys \<Rightarrow> 'p sys" where
  "write_gpu_breadcrumb e v s =
     (if shadow s then s
      else emit (WriteBreadcrumb (if v = Some gpu_pref.Auto then None else v)) s)"

section \<open>Power\<close>

definition sync_waybar :: "'p sys \<Rightarrow> 'p sys" where
  "sync_waybar s =
     (let view = waybar_view_of s in
      if waybar_seen s = Some view then s
      else let s = s\<lparr>waybar_seen := Some view\<rparr> in
        if shadow s then s else emit SignalWaybar s)"

definition powerd_lost :: "'p sys \<Rightarrow> 'p sys" where
  "powerd_lost s = s\<lparr>powerd_available := False, powerd_warned := True\<rparr>"

definition apply_power_profile :: "'p env \<Rightarrow> power_profile \<Rightarrow> 'p sys \<Rightarrow> 'p sys" where
  "apply_power_profile e p s =
     (if power_applied s = Some p \<or> \<not> powerd_available s then s
      else let (now, s) = ask (q_now e) s;
               s = s\<lparr>self_writes := tracker_register now p (self_writes s)\<rparr>
           in if shadow s then s\<lparr>power_applied := Some p\<rparr>
              else let (applied, s) = ask (q_powerd e) s;
                       s = emit (PowerdApply p applied) s
                   in if applied then s\<lparr>power_applied := Some p\<rparr> else powerd_lost s)"

definition sync_dgpu_pin :: "'p env \<Rightarrow> bool \<Rightarrow> 'p sys \<Rightarrow> 'p sys" where
  "sync_dgpu_pin e awake s =
     (if dgpu_pinned s = Some awake \<or> \<not> powerd_available s then s
      else if shadow s then s\<lparr>dgpu_pinned := Some awake\<rparr>
      else let (pinned, s) = ask (q_powerd e) s;
               s = emit (PowerdPin awake pinned) s
           in if pinned then s\<lparr>dgpu_pinned := Some awake\<rparr> else powerd_lost s)"

section \<open>The idle-suspend request and override files\<close>

definition suspend_request_standing :: "'p sys \<Rightarrow> bool" where
  "suspend_request_standing s = (runtime_dir s \<and> request_file s \<noteq> None)"

definition request_suspend :: "'p env \<Rightarrow> 'p sys \<Rightarrow> bool \<times> 'p sys" where
  "request_suspend e s =
     (if shadow s then (False, s)
      else if \<not> runtime_dir s then (False, s)
      else let (written, s) = ask (q_io e) s in
        if written
        then (True, emit WriteRequest (s\<lparr>request_file := Some (''battery-low'' @ [newline])\<rparr>))
        else (False, s))"

definition clear_battery_low_request :: "'p env \<Rightarrow> 'p sys \<Rightarrow> bool \<times> 'p sys" where
  "clear_battery_low_request e s =
     (if shadow s then (False, s)
      else if \<not> runtime_dir s then (False, s)
      else let (readable, s) = ask (q_io e) s in
        case request_file s of
          Some body \<Rightarrow>
            if readable \<and> starts_with ''battery-low'' body
            then let (removed, s) = ask (q_io e) s in
              if removed then (True, emit RemoveRequest (s\<lparr>request_file := None\<rparr>)) else (False, s)
            else (False, s)
        | None \<Rightarrow> (False, s))"

definition clear_suspend_request :: "'p env \<Rightarrow> 'p sys \<Rightarrow> 'p sys" where
  "clear_suspend_request e s =
     (if shadow s then s
      else if \<not> runtime_dir s then s
      else case request_file s of
          None \<Rightarrow> s
        | Some _ \<Rightarrow> let (removed, s) = ask (q_io e) s in
            if removed then emit RemoveRequest (s\<lparr>request_file := None\<rparr>) else s)"

definition clear_power_override :: "'p env \<Rightarrow> 'p sys \<Rightarrow> 'p sys" where
  "clear_power_override e s =
     (let s = s\<lparr>power_override := None, power_override_base := None\<rparr> in
      if shadow s then s
      else case override_file s of
          None \<Rightarrow> s
        | Some _ \<Rightarrow> let (removed, s) = ask (q_io e) s in
            if removed then emit RemoveOverride (s\<lparr>override_file := None\<rparr>) else s)"

definition adopt_power_override :: "'p env \<Rightarrow> power_profile \<Rightarrow> 'p sys \<Rightarrow> 'p sys" where
  "adopt_power_override e p s =
     (let s = s\<lparr>power_override := Some p, power_override_base := None\<rparr>;
          s = (if shadow s then s
               else let (written, s) = ask (q_io e) s in
                 if written
                 then emit (WriteOverride p)
                        (s\<lparr>override_file := Some (power_profile_as_str p @ [newline])\<rparr>)
                 else s)
      in notify_power e (AdoptedOverride p) s)"

section \<open>Brightness\<close>

text \<open>A cap is given by its divisor \<open>d\<close>: \<open>0.50\<close> is 2 and \<open>0.25\<close> is 4, for which the \<open>f64\<close>
  product rounds towards zero to exactly \<open>max div d\<close>. The slack \<open>(max as f64 * 0.005) as i64\<close>
  is \<open>max div 200\<close> for every \<open>u32\<close>: the product of a multiple of 200 rounds to the integer, and
  any other is at least 1/200 away from one.\<close>

definition brightness_read :: "'p env \<Rightarrow> 'p sys \<Rightarrow> u32 option \<times> 'p sys" where
  "brightness_read e s =
     (case brightness_dev s of
        None \<Rightarrow> (None, s)
      | Some dev \<Rightarrow> let (fs, s) = ask (q_fs e) s in
          (read_u32_file fs (path_join (path_join BACKLIGHT_DIR dev) ''brightness''), s))"

definition brightness_user_took_over :: "'p env \<Rightarrow> 'p sys \<Rightarrow> bool \<times> 'p sys" where
  "brightness_user_took_over e s =
     (case brightness_set s of
        None \<Rightarrow> (False, s)
      | Some v \<Rightarrow> let (cur, s) = brightness_read e s in
          (case cur of
             None \<Rightarrow> (False, s)
           | Some c \<Rightarrow> (\<bar>uint c - uint v\<bar> > uint (brightness_max s) div 200, s)))"

definition brightness_write :: "'p env \<Rightarrow> u32 \<Rightarrow> 'p sys \<Rightarrow> 'p sys" where
  "brightness_write e v s =
     (case brightness_dev s of
        None \<Rightarrow> s
      | Some dev \<Rightarrow>
          if \<not> has_session s then s
          else let v = clamp_u32 1 (brightness_max s) v in
            if shadow s then s\<lparr>brightness_set := Some v\<rparr>
            else let (done', s) = ask (q_set_brightness e) s;
                     s = emit (CallSetBrightness Backlight dev v done') s
                 in if done' then s\<lparr>brightness_set := Some v\<rparr> else s)"

definition brightness_yield :: "'p env \<Rightarrow> 'p sys \<Rightarrow> 'p sys" where
  "brightness_yield e s =
     (let (cur, s) = brightness_read e (s\<lparr>brightness_saved := None\<rparr>)
      in s\<lparr>brightness_set := cur\<rparr>)"

definition brightness_save_and_cap :: "'p env \<Rightarrow> u32 \<Rightarrow> 'p sys \<Rightarrow> 'p sys" where
  "brightness_save_and_cap e d s =
     (let (took, s) = brightness_user_took_over e s in
      if took then brightness_yield e s
      else let (cur, s) = brightness_read e s in
        case cur of
          None \<Rightarrow> s
        | Some c \<Rightarrow>
            let s = s\<lparr>brightness_saved := Some c\<rparr>; cap = brightness_max s div d
            in if c > cap then brightness_write e cap s else s)"

definition brightness_cap :: "'p env \<Rightarrow> u32 \<Rightarrow> 'p sys \<Rightarrow> 'p sys" where
  "brightness_cap e d s =
     (let (took, s) = brightness_user_took_over e s in
      if took then brightness_yield e s
      else let (cur, s) = brightness_read e s in
        case cur of
          None \<Rightarrow> s
        | Some c \<Rightarrow> let cap = brightness_max s div d
            in if c > cap then brightness_write e cap s else s)"

definition brightness_restore :: "'p env \<Rightarrow> 'p sys \<Rightarrow> 'p sys" where
  "brightness_restore e s =
     (case brightness_saved s of
        None \<Rightarrow> s
      | Some v \<Rightarrow>
          let (took, s) = brightness_user_took_over e (s\<lparr>brightness_saved := None\<rparr>) in
          if took then (let (cur, s) = brightness_read e s in s\<lparr>brightness_set := cur\<rparr>)
          else brightness_write e v s)"

definition brightness_rearm :: "'p env \<Rightarrow> 'p sys \<Rightarrow> 'p sys" where
  "brightness_rearm e s =
     (if brightness_dev s = None then s
      else let (cur, s) = brightness_read e s in s\<lparr>brightness_set := cur\<rparr>)"

section \<open>Keyboard backlight\<close>

definition kbd_set :: "'p env \<Rightarrow> u8 \<Rightarrow> 'p sys \<Rightarrow> 'p sys" where
  "kbd_set e pct s =
     (case kbd_led s of
        None \<Rightarrow> s
      | Some (name, mx) \<Rightarrow>
          let raw = level_to_raw pct mx in
          if kbd_applied s = Some raw then s
          else if \<not> has_session s then s
          else if shadow s then s\<lparr>kbd_applied := Some raw\<rparr>
          else let (done', s) = ask (q_set_brightness e) s;
                   s = emit (CallSetBrightness Leds name raw done') s
               in if done' then s\<lparr>kbd_applied := Some raw\<rparr> else s)"

definition kbd_release_override :: "'p env \<Rightarrow> 'p sys \<Rightarrow> 'p sys" where
  "kbd_release_override e s =
     (if \<not> kbd_override s then s
      else let s = s\<lparr>kbd_override := False\<rparr> in
        if shadow s then s
        else if \<not> runtime_dir s \<or> \<not> kbd_marker s then s
        else let (removed, s) = ask (q_io e) s in
          if removed then emit RemoveKbdMarker (s\<lparr>kbd_marker := False\<rparr>) else s)"

definition kbd_write_status :: "'p env \<Rightarrow> bool \<Rightarrow> 'p sys \<Rightarrow> 'p sys" where
  "kbd_write_status e lit s =
     (if shadow s then s
      else if \<not> runtime_dir s then s
      else let (written, s) = ask (q_io e) s in
        if written then emit (WriteKbdStatus lit) s else s)"

section \<open>Lock and suspend\<close>

definition request_lock :: "'p env \<Rightarrow> 'p sys \<Rightarrow> 'p sys" where
  "request_lock e s =
     (if \<not> has_session s then s
      else if shadow s then s
      else emit CallLock (snd (ask (q_lock_call e) s)))"

definition live_locker :: "'p env \<Rightarrow> 'p sys \<Rightarrow> bool \<times> 'p sys" where
  "live_locker e s =
     (if \<not> has_session s then (False, emit (LiveLocker False) s)
      else let (hint, s) = ask (q_locked_hint e) s in
        if hint = Some True
        then let (comp, s) = ask (q_compositor_lock e) s; live = (comp = Some True)
             in (live, emit (LiveLocker live) s)
        else (False, emit (LiveLocker False) s))"

definition wait_for_lock :: "'p env \<Rightarrow> 'p sys \<Rightarrow> bool \<times> 'p sys" where
  "wait_for_lock e s =
     (let (live, s) = (if locked s then live_locker e s else (False, s)) in
      if live then (True, s) else ask (q_lock_engages e) s)"

definition do_suspend :: "'p env \<Rightarrow> 'p sys \<Rightarrow> bool \<times> 'p sys" where
  "do_suspend e s =
     (if shadow s then (True, s)
      else let (accepted, s) = ask (q_suspend e) s in (accepted, emit (CallSuspend accepted) s))"

end
