(* ===== verification/EffectorLaws.thy ===== *)
theory EffectorLaws
  imports Effectors
begin

text \<open>
  The two facts about every effector that the handlers use: it keeps the trace contract of
  \<open>Ctx\<close> (rules \<open>law_intros\<close>, stated so that they chain backwards through a composition), and
  it leaves what the main machine reads alone (equations in \<open>frame_simps\<close>).
\<close>

named_theorems law_intros \<open>operations keep the trace contract\<close>

section \<open>Queries, log entries and updates\<close>

lemma ask_simps [simp]:
  "fst (ask q s) = q (tick s)" "snd (ask q s) = s\<lparr>tick := Suc (tick s)\<rparr>"
  by (simp_all add: ask_def)

lemma emit_select [simp]:
    "lid_closed (emit x s) = lid_closed s" "lid_present (emit x s) = lid_present s"
    "lid_grace (emit x s) = lid_grace s" "lid_ac (emit x s) = lid_ac s"
    "ext_mon_count (emit x s) = ext_mon_count s"
    "logind_inhibitor (emit x s) = logind_inhibitor s"
    "wayland_inhibitor (emit x s) = wayland_inhibitor s" "locked (emit x s) = locked s"
    "on_ac (emit x s) = on_ac s" "state (emit x s) = state s"
    "suspend_requested (emit x s) = suspend_requested s" "grace_timer (emit x s) = grace_timer s"
    "profile_debounce (emit x s) = profile_debounce s"
    "power_debounce (emit x s) = power_debounce s" "claim_watch (emit x s) = claim_watch s"
    "last_cursor_pos (emit x s) = last_cursor_pos s"
    "current_profile (emit x s) = current_profile s"
    "active_profile_rev (emit x s) = active_profile_rev s" "edp_policy (emit x s) = edp_policy s"
    "gpu_actual (emit x s) = gpu_actual s" "gpu_actual_pending (emit x s) = gpu_actual_pending s"
    "gpu_last_notified (emit x s) = gpu_last_notified s"
    "gpu_last_notify_at (emit x s) = gpu_last_notify_at s"
    "dgpu_pinned (emit x s) = dgpu_pinned s" "on_ac_settled (emit x s) = on_ac_settled s"
    "battery_percent (emit x s) = battery_percent s" "low_battery (emit x s) = low_battery s"
    "power_policy (emit x s) = power_policy s" "battery_low_pct (emit x s) = battery_low_pct s"
    "power_override (emit x s) = power_override s"
    "power_override_base (emit x s) = power_override_base s"
    "power_applied (emit x s) = power_applied s" "power_last_base (emit x s) = power_last_base s"
    "self_writes (emit x s) = self_writes s" "powerd_available (emit x s) = powerd_available s"
    "powerd_warned (emit x s) = powerd_warned s" "brightness_dev (emit x s) = brightness_dev s"
    "brightness_max (emit x s) = brightness_max s" "brightness_set (emit x s) = brightness_set s"
    "brightness_saved (emit x s) = brightness_saved s" "waybar_seen (emit x s) = waybar_seen s"
    "kbd_mode (emit x s) = kbd_mode s" "kbd_idle (emit x s) = kbd_idle s"
    "kbd_dark_lux (emit x s) = kbd_dark_lux s" "kbd_led (emit x s) = kbd_led s"
    "kbd_als (emit x s) = kbd_als s" "kbd_typing (emit x s) = kbd_typing s"
    "kbd_sleeping (emit x s) = kbd_sleeping s" "kbd_dark (emit x s) = kbd_dark s"
    "kbd_last_lux (emit x s) = kbd_last_lux s" "kbd_level (emit x s) = kbd_level s"
    "kbd_override (emit x s) = kbd_override s" "kbd_applied (emit x s) = kbd_applied s"
    "shadow (emit x s) = shadow s" "has_session (emit x s) = has_session s"
    "runtime_dir (emit x s) = runtime_dir s" "request_file (emit x s) = request_file s"
    "override_file (emit x s) = override_file s" "active_link (emit x s) = active_link s"
    "kbd_marker (emit x s) = kbd_marker s" "tick (emit x s) = tick s"
  by (simp_all add: emit_def)

lemma load_profiles_simps [simp]:
  "fst (load_profiles e s) = q_profiles e (tick s)"
  "snd (load_profiles e s) = emit RenderProfiles (s\<lparr>tick := Suc (tick s)\<rparr>)"
  by (simp_all add: load_profiles_def split_beta Let_def)

lemma emit_state_update [simp]: "(emit x s)\<lparr>state := st\<rparr> = emit x (s\<lparr>state := st\<rparr>)"
  by (simp add: emit_def)

lemma log_emit [simp]: "log (emit x s) = log s @ [x]"
  by (simp add: emit_def)

lemma view_update [simp]:
    "fsm_view (s\<lparr>grace_timer := v_grace_timer\<rparr>) = fsm_view s"
    "fsm_view (s\<lparr>profile_debounce := v_profile_debounce\<rparr>) = fsm_view s"
    "fsm_view (s\<lparr>power_debounce := v_power_debounce\<rparr>) = fsm_view s"
    "fsm_view (s\<lparr>claim_watch := v_claim_watch\<rparr>) = fsm_view s"
    "fsm_view (s\<lparr>last_cursor_pos := v_last_cursor_pos\<rparr>) = fsm_view s"
    "fsm_view (s\<lparr>current_profile := v_current_profile\<rparr>) = fsm_view s"
    "fsm_view (s\<lparr>active_profile_rev := v_active_profile_rev\<rparr>) = fsm_view s"
    "fsm_view (s\<lparr>edp_policy := v_edp_policy\<rparr>) = fsm_view s"
    "fsm_view (s\<lparr>gpu_actual := v_gpu_actual\<rparr>) = fsm_view s"
    "fsm_view (s\<lparr>gpu_actual_pending := v_gpu_actual_pending\<rparr>) = fsm_view s"
    "fsm_view (s\<lparr>gpu_last_notified := v_gpu_last_notified\<rparr>) = fsm_view s"
    "fsm_view (s\<lparr>gpu_last_notify_at := v_gpu_last_notify_at\<rparr>) = fsm_view s"
    "fsm_view (s\<lparr>dgpu_pinned := v_dgpu_pinned\<rparr>) = fsm_view s"
    "fsm_view (s\<lparr>battery_percent := v_battery_percent\<rparr>) = fsm_view s"
    "fsm_view (s\<lparr>power_override := v_power_override\<rparr>) = fsm_view s"
    "fsm_view (s\<lparr>power_override_base := v_power_override_base\<rparr>) = fsm_view s"
    "fsm_view (s\<lparr>power_applied := v_power_applied\<rparr>) = fsm_view s"
    "fsm_view (s\<lparr>power_last_base := v_power_last_base\<rparr>) = fsm_view s"
    "fsm_view (s\<lparr>self_writes := v_self_writes\<rparr>) = fsm_view s"
    "fsm_view (s\<lparr>powerd_available := v_powerd_available\<rparr>) = fsm_view s"
    "fsm_view (s\<lparr>powerd_warned := v_powerd_warned\<rparr>) = fsm_view s"
    "fsm_view (s\<lparr>brightness_dev := v_brightness_dev\<rparr>) = fsm_view s"
    "fsm_view (s\<lparr>brightness_max := v_brightness_max\<rparr>) = fsm_view s"
    "fsm_view (s\<lparr>brightness_set := v_brightness_set\<rparr>) = fsm_view s"
    "fsm_view (s\<lparr>brightness_saved := v_brightness_saved\<rparr>) = fsm_view s"
    "fsm_view (s\<lparr>waybar_seen := v_waybar_seen\<rparr>) = fsm_view s"
    "fsm_view (s\<lparr>kbd_led := v_kbd_led\<rparr>) = fsm_view s"
    "fsm_view (s\<lparr>kbd_als := v_kbd_als\<rparr>) = fsm_view s"
    "fsm_view (s\<lparr>kbd_typing := v_kbd_typing\<rparr>) = fsm_view s"
    "fsm_view (s\<lparr>kbd_sleeping := v_kbd_sleeping\<rparr>) = fsm_view s"
    "fsm_view (s\<lparr>kbd_dark := v_kbd_dark\<rparr>) = fsm_view s"
    "fsm_view (s\<lparr>kbd_last_lux := v_kbd_last_lux\<rparr>) = fsm_view s"
    "fsm_view (s\<lparr>kbd_level := v_kbd_level\<rparr>) = fsm_view s"
    "fsm_view (s\<lparr>kbd_override := v_kbd_override\<rparr>) = fsm_view s"
    "fsm_view (s\<lparr>kbd_applied := v_kbd_applied\<rparr>) = fsm_view s"
    "fsm_view (s\<lparr>request_file := v_request_file\<rparr>) = fsm_view s"
    "fsm_view (s\<lparr>override_file := v_override_file\<rparr>) = fsm_view s"
    "fsm_view (s\<lparr>active_link := v_active_link\<rparr>) = fsm_view s"
    "fsm_view (s\<lparr>kbd_marker := v_kbd_marker\<rparr>) = fsm_view s"
    "fsm_view (s\<lparr>log := v_log\<rparr>) = fsm_view s"
    "fsm_view (s\<lparr>tick := v_tick\<rparr>) = fsm_view s"
  by (simp_all add: fsm_view_def world_def inhibitor_def)

lemma law_update [simp]:
    "law.extends s (t\<lparr>lid_closed := v_lid_closed\<rparr>) = law.extends s t"
    "law.extends s (t\<lparr>logind_inhibitor := v_logind_inhibitor\<rparr>) = law.extends s t"
    "law.extends s (t\<lparr>wayland_inhibitor := v_wayland_inhibitor\<rparr>) = law.extends s t"
    "law.extends s (t\<lparr>locked := v_locked\<rparr>) = law.extends s t"
    "law.extends s (t\<lparr>on_ac := v_on_ac\<rparr>) = law.extends s t"
    "law.extends s (t\<lparr>state := v_state\<rparr>) = law.extends s t"
    "law.extends s (t\<lparr>suspend_requested := v_suspend_requested\<rparr>) = law.extends s t"
    "law.extends s (t\<lparr>grace_timer := v_grace_timer\<rparr>) = law.extends s t"
    "law.extends s (t\<lparr>profile_debounce := v_profile_debounce\<rparr>) = law.extends s t"
    "law.extends s (t\<lparr>power_debounce := v_power_debounce\<rparr>) = law.extends s t"
    "law.extends s (t\<lparr>claim_watch := v_claim_watch\<rparr>) = law.extends s t"
    "law.extends s (t\<lparr>last_cursor_pos := v_last_cursor_pos\<rparr>) = law.extends s t"
    "law.extends s (t\<lparr>current_profile := v_current_profile\<rparr>) = law.extends s t"
    "law.extends s (t\<lparr>active_profile_rev := v_active_profile_rev\<rparr>) = law.extends s t"
    "law.extends s (t\<lparr>edp_policy := v_edp_policy\<rparr>) = law.extends s t"
    "law.extends s (t\<lparr>gpu_actual := v_gpu_actual\<rparr>) = law.extends s t"
    "law.extends s (t\<lparr>gpu_actual_pending := v_gpu_actual_pending\<rparr>) = law.extends s t"
    "law.extends s (t\<lparr>gpu_last_notified := v_gpu_last_notified\<rparr>) = law.extends s t"
    "law.extends s (t\<lparr>gpu_last_notify_at := v_gpu_last_notify_at\<rparr>) = law.extends s t"
    "law.extends s (t\<lparr>dgpu_pinned := v_dgpu_pinned\<rparr>) = law.extends s t"
    "law.extends s (t\<lparr>on_ac_settled := v_on_ac_settled\<rparr>) = law.extends s t"
    "law.extends s (t\<lparr>battery_percent := v_battery_percent\<rparr>) = law.extends s t"
    "law.extends s (t\<lparr>low_battery := v_low_battery\<rparr>) = law.extends s t"
    "law.extends s (t\<lparr>power_override := v_power_override\<rparr>) = law.extends s t"
    "law.extends s (t\<lparr>power_override_base := v_power_override_base\<rparr>) = law.extends s t"
    "law.extends s (t\<lparr>power_applied := v_power_applied\<rparr>) = law.extends s t"
    "law.extends s (t\<lparr>power_last_base := v_power_last_base\<rparr>) = law.extends s t"
    "law.extends s (t\<lparr>self_writes := v_self_writes\<rparr>) = law.extends s t"
    "law.extends s (t\<lparr>powerd_available := v_powerd_available\<rparr>) = law.extends s t"
    "law.extends s (t\<lparr>powerd_warned := v_powerd_warned\<rparr>) = law.extends s t"
    "law.extends s (t\<lparr>brightness_dev := v_brightness_dev\<rparr>) = law.extends s t"
    "law.extends s (t\<lparr>brightness_max := v_brightness_max\<rparr>) = law.extends s t"
    "law.extends s (t\<lparr>brightness_set := v_brightness_set\<rparr>) = law.extends s t"
    "law.extends s (t\<lparr>brightness_saved := v_brightness_saved\<rparr>) = law.extends s t"
    "law.extends s (t\<lparr>waybar_seen := v_waybar_seen\<rparr>) = law.extends s t"
    "law.extends s (t\<lparr>kbd_led := v_kbd_led\<rparr>) = law.extends s t"
    "law.extends s (t\<lparr>kbd_als := v_kbd_als\<rparr>) = law.extends s t"
    "law.extends s (t\<lparr>kbd_typing := v_kbd_typing\<rparr>) = law.extends s t"
    "law.extends s (t\<lparr>kbd_sleeping := v_kbd_sleeping\<rparr>) = law.extends s t"
    "law.extends s (t\<lparr>kbd_dark := v_kbd_dark\<rparr>) = law.extends s t"
    "law.extends s (t\<lparr>kbd_last_lux := v_kbd_last_lux\<rparr>) = law.extends s t"
    "law.extends s (t\<lparr>kbd_level := v_kbd_level\<rparr>) = law.extends s t"
    "law.extends s (t\<lparr>kbd_override := v_kbd_override\<rparr>) = law.extends s t"
    "law.extends s (t\<lparr>kbd_applied := v_kbd_applied\<rparr>) = law.extends s t"
    "law.extends s (t\<lparr>request_file := v_request_file\<rparr>) = law.extends s t"
    "law.extends s (t\<lparr>override_file := v_override_file\<rparr>) = law.extends s t"
    "law.extends s (t\<lparr>active_link := v_active_link\<rparr>) = law.extends s t"
    "law.extends s (t\<lparr>kbd_marker := v_kbd_marker\<rparr>) = law.extends s t"
    "law.extends s (t\<lparr>tick := v_tick\<rparr>) = law.extends s t"
  by (simp_all add: law.extends_def law_cond_def)

lemma law_self [law_intros]: "law.extends s s"
  by (rule law.extends_refl)

lemma law_emit_chain [law_intros]:
  "\<lbrakk> law.extends s t; \<not> is_suspend x; x = Worker (SetEdp False) \<longrightarrow> ext_mon_count t > 0;
     outward x \<longrightarrow> \<not> shadow t \<rbrakk> \<Longrightarrow> law.extends s (emit x t)"
  by (rule law.extends_trans [OF _ law_emit]) simp_all

section \<open>The worker queue\<close>

lemma fsm_view_send_cmd [frame_simps]: "fsm_view (send_cmd e c s) = fsm_view s"
  by (simp add: send_cmd_def Let_def split_beta frame_simps)

lemma law_send_cmd [law_intros]:
  "law.extends s t \<Longrightarrow> (c = SetEdp False \<longrightarrow> ext_mon_count t > 0) \<Longrightarrow> law.extends s (send_cmd e c t)"
  by (auto simp: send_cmd_def Let_def split_beta intro!: law_intros)

lemma fsm_view_request_reconcile [frame_simps]: "fsm_view (request_reconcile k s) = fsm_view s"
  by (simp add: request_reconcile_def Let_def split_beta frame_simps split: option.split)

lemma law_request_reconcile [law_intros]: "law.extends s t \<Longrightarrow> law.extends s (request_reconcile k t)"
  by (auto simp: request_reconcile_def Let_def split_beta intro!: law_intros split: option.split)

section \<open>Panels, media, notifications\<close>

lemma fsm_view_set_edp [frame_simps]: "fsm_view (set_edp e on s) = fsm_view s"
  by (simp add: set_edp_def Let_def split_beta frame_simps edp_may_disable_def split: option.split edp_policy.split)

lemma law_set_edp [law_intros]: "law.extends s t \<Longrightarrow> law.extends s (set_edp e on t)"
  by (auto simp: set_edp_def Let_def split_beta edp_may_disable_def intro!: law_intros split: option.split edp_policy.split)

lemma fsm_view_dpms_on [frame_simps]: "fsm_view (dpms_on e s) = fsm_view s"
  by (simp add: dpms_on_def Let_def split_beta frame_simps split: option.split)

lemma law_dpms_on [law_intros]: "law.extends s t \<Longrightarrow> law.extends s (dpms_on e t)"
  by (auto simp: dpms_on_def Let_def split_beta intro!: law_intros split: option.split)

lemma fsm_view_rehome_edp_workspaces [frame_simps]: "fsm_view (rehome_edp_workspaces e s) = fsm_view s"
  by (simp add: rehome_edp_workspaces_def Let_def split_beta frame_simps split: option.split)

lemma law_rehome_edp_workspaces [law_intros]: "law.extends s t \<Longrightarrow> law.extends s (rehome_edp_workspaces e t)"
  by (auto simp: rehome_edp_workspaces_def Let_def split_beta intro!: law_intros split: option.split)

lemma fsm_view_pause_media [frame_simps]: "fsm_view (pause_media e s) = fsm_view s"
  by (simp add: pause_media_def Let_def split_beta frame_simps split: option.split)

lemma law_pause_media [law_intros]: "law.extends s t \<Longrightarrow> law.extends s (pause_media e t)"
  by (auto simp: pause_media_def Let_def split_beta intro!: law_intros split: option.split)

lemma fsm_view_notify_power [frame_simps]: "fsm_view (notify_power e n s) = fsm_view s"
  by (simp add: notify_power_def Let_def split_beta frame_simps split: option.split)

lemma law_notify_power [law_intros]: "law.extends s t \<Longrightarrow> law.extends s (notify_power e n t)"
  by (auto simp: notify_power_def Let_def split_beta intro!: law_intros split: option.split)

lemma fsm_view_notify_gpu_drift [frame_simps]: "fsm_view (notify_gpu_drift e ds r tg s) = fsm_view s"
  by (simp add: notify_gpu_drift_def Let_def split_beta frame_simps split: option.split)

lemma law_notify_gpu_drift [law_intros]: "law.extends s t \<Longrightarrow> law.extends s (notify_gpu_drift e ds r tg t)"
  by (auto simp: notify_gpu_drift_def Let_def split_beta intro!: law_intros split: option.split)

section \<open>Timers\<close>

lemma fsm_view_cancel_grace_timer [frame_simps]: "fsm_view (cancel_grace_timer s) = fsm_view s"
  by (simp add: cancel_grace_timer_def Let_def split_beta frame_simps split: option.split)

lemma law_cancel_grace_timer [law_intros]: "law.extends s t \<Longrightarrow> law.extends s (cancel_grace_timer t)"
  by (auto simp: cancel_grace_timer_def Let_def split_beta intro!: law_intros split: option.split)

lemma fsm_view_start_grace_timer [frame_simps]: "fsm_view (start_grace_timer fresh s) = fsm_view s"
  by (simp add: start_grace_timer_def Let_def split_beta frame_simps split: option.split)

lemma law_start_grace_timer [law_intros]: "law.extends s t \<Longrightarrow> law.extends s (start_grace_timer fresh t)"
  by (auto simp: start_grace_timer_def Let_def split_beta intro!: law_intros split: option.split)

lemma fsm_view_start_claim_watch [frame_simps]: "fsm_view (start_claim_watch s) = fsm_view s"
  by (simp add: start_claim_watch_def Let_def split_beta frame_simps split: option.split)

lemma law_start_claim_watch [law_intros]: "law.extends s t \<Longrightarrow> law.extends s (start_claim_watch t)"
  by (auto simp: start_claim_watch_def Let_def split_beta intro!: law_intros split: option.split)

lemma fsm_view_cancel_claim_watch [frame_simps]: "fsm_view (cancel_claim_watch s) = fsm_view s"
  by (simp add: cancel_claim_watch_def Let_def split_beta frame_simps split: option.split)

lemma law_cancel_claim_watch [law_intros]: "law.extends s t \<Longrightarrow> law.extends s (cancel_claim_watch t)"
  by (auto simp: cancel_claim_watch_def Let_def split_beta intro!: law_intros split: option.split)

lemma fsm_view_schedule_profile_reconcile [frame_simps]: "fsm_view (schedule_profile_reconcile s) = fsm_view s"
  by (simp add: schedule_profile_reconcile_def Let_def split_beta frame_simps split: option.split)

lemma law_schedule_profile_reconcile [law_intros]: "law.extends s t \<Longrightarrow> law.extends s (schedule_profile_reconcile t)"
  by (auto simp: schedule_profile_reconcile_def Let_def split_beta intro!: law_intros split: option.split)

lemma fsm_view_schedule_power_settle [frame_simps]: "fsm_view (schedule_power_settle s) = fsm_view s"
  by (simp add: schedule_power_settle_def Let_def split_beta frame_simps split: option.split)

lemma law_schedule_power_settle [law_intros]: "law.extends s t \<Longrightarrow> law.extends s (schedule_power_settle t)"
  by (auto simp: schedule_power_settle_def Let_def split_beta intro!: law_intros split: option.split)

section \<open>Profiles\<close>

lemma fsm_view_run_hooks [frame_simps]: "fsm_view (run_hooks e hs s) = fsm_view s"
  unfolding run_hooks_def by (induction hs arbitrary: s) (simp_all add: frame_simps)

lemma law_run_hooks [law_intros]: "law.extends s t \<Longrightarrow> law.extends s (run_hooks e hs t)"
  unfolding run_hooks_def by (induction hs arbitrary: t) (simp_all add: law_send_cmd)

lemma fsm_view_record_profile [frame_simps]: "fsm_view (record_profile p s) = fsm_view s"
  by (simp add: record_profile_def Let_def split_beta frame_simps split: option.split)

lemma law_record_profile [law_intros]: "law.extends s t \<Longrightarrow> law.extends s (record_profile p t)"
  by (auto simp: record_profile_def Let_def split_beta intro!: law_intros split: option.split)

lemma fsm_view_apply_profile [frame_simps]: "fsm_view (apply_profile e p s) = fsm_view s"
  by (simp add: apply_profile_def Let_def split_beta frame_simps link_same_def split: option.split)

lemma law_apply_profile [law_intros]: "law.extends s t \<Longrightarrow> law.extends s (apply_profile e p t)"
  by (auto simp: apply_profile_def Let_def split_beta link_same_def intro!: law_intros split: option.split)

lemma fsm_view_write_gpu_breadcrumb [frame_simps]: "fsm_view (write_gpu_breadcrumb e v s) = fsm_view s"
  by (simp add: write_gpu_breadcrumb_def Let_def split_beta frame_simps split: option.split)

lemma law_write_gpu_breadcrumb [law_intros]: "law.extends s t \<Longrightarrow> law.extends s (write_gpu_breadcrumb e v t)"
  by (auto simp: write_gpu_breadcrumb_def Let_def split_beta intro!: law_intros split: option.split)

section \<open>Power\<close>

lemma fsm_view_sync_waybar [frame_simps]: "fsm_view (sync_waybar s) = fsm_view s"
  by (simp add: sync_waybar_def Let_def split_beta frame_simps split: option.split)

lemma law_sync_waybar [law_intros]: "law.extends s t \<Longrightarrow> law.extends s (sync_waybar t)"
  by (auto simp: sync_waybar_def Let_def split_beta intro!: law_intros split: option.split)

lemma fsm_view_powerd_lost [frame_simps]: "fsm_view (powerd_lost s) = fsm_view s"
  by (simp add: powerd_lost_def Let_def split_beta frame_simps split: option.split)

lemma law_powerd_lost [law_intros]: "law.extends s t \<Longrightarrow> law.extends s (powerd_lost t)"
  by (auto simp: powerd_lost_def Let_def split_beta intro!: law_intros split: option.split)

lemma fsm_view_apply_power_profile [frame_simps]: "fsm_view (apply_power_profile e p s) = fsm_view s"
  by (simp add: apply_power_profile_def Let_def split_beta frame_simps split: option.split)

lemma law_apply_power_profile [law_intros]: "law.extends s t \<Longrightarrow> law.extends s (apply_power_profile e p t)"
  by (auto simp: apply_power_profile_def Let_def split_beta intro!: law_intros split: option.split)

lemma fsm_view_sync_dgpu_pin [frame_simps]: "fsm_view (sync_dgpu_pin e b s) = fsm_view s"
  by (simp add: sync_dgpu_pin_def Let_def split_beta frame_simps split: option.split)

lemma law_sync_dgpu_pin [law_intros]: "law.extends s t \<Longrightarrow> law.extends s (sync_dgpu_pin e b t)"
  by (auto simp: sync_dgpu_pin_def Let_def split_beta intro!: law_intros split: option.split)

section \<open>Files\<close>

lemma fsm_view_clear_suspend_request [frame_simps]: "fsm_view (clear_suspend_request e s) = fsm_view s"
  by (simp add: clear_suspend_request_def Let_def split_beta frame_simps split: option.split)

lemma law_clear_suspend_request [law_intros]: "law.extends s t \<Longrightarrow> law.extends s (clear_suspend_request e t)"
  by (auto simp: clear_suspend_request_def Let_def split_beta intro!: law_intros split: option.split)

lemma fsm_view_clear_power_override [frame_simps]: "fsm_view (clear_power_override e s) = fsm_view s"
  by (simp add: clear_power_override_def Let_def split_beta frame_simps split: option.split)

lemma law_clear_power_override [law_intros]: "law.extends s t \<Longrightarrow> law.extends s (clear_power_override e t)"
  by (auto simp: clear_power_override_def Let_def split_beta intro!: law_intros split: option.split)

lemma fsm_view_adopt_power_override [frame_simps]: "fsm_view (adopt_power_override e p s) = fsm_view s"
  by (simp add: adopt_power_override_def Let_def split_beta frame_simps split: option.split)

lemma law_adopt_power_override [law_intros]: "law.extends s t \<Longrightarrow> law.extends s (adopt_power_override e p t)"
  by (auto simp: adopt_power_override_def Let_def split_beta intro!: law_intros split: option.split)

section \<open>Brightness\<close>

lemma fsm_view_brightness_write [frame_simps]: "fsm_view (brightness_write e v s) = fsm_view s"
  by (simp add: brightness_write_def Let_def split_beta frame_simps split: option.split)

lemma law_brightness_write [law_intros]: "law.extends s t \<Longrightarrow> law.extends s (brightness_write e v t)"
  by (auto simp: brightness_write_def Let_def split_beta intro!: law_intros split: option.split)

lemma fsm_view_brightness_yield [frame_simps]: "fsm_view (brightness_yield e s) = fsm_view s"
  by (simp add: brightness_yield_def Let_def split_beta frame_simps brightness_read_def split: option.split)

lemma law_brightness_yield [law_intros]: "law.extends s t \<Longrightarrow> law.extends s (brightness_yield e t)"
  by (auto simp: brightness_yield_def Let_def split_beta brightness_read_def intro!: law_intros split: option.split)

lemma fsm_view_brightness_save_and_cap [frame_simps]: "fsm_view (brightness_save_and_cap e d s) = fsm_view s"
  by (simp add: brightness_save_and_cap_def Let_def split_beta frame_simps brightness_read_def brightness_user_took_over_def split: option.split)

lemma law_brightness_save_and_cap [law_intros]: "law.extends s t \<Longrightarrow> law.extends s (brightness_save_and_cap e d t)"
  by (auto simp: brightness_save_and_cap_def Let_def split_beta brightness_read_def brightness_user_took_over_def intro!: law_intros split: option.split)

lemma fsm_view_brightness_cap [frame_simps]: "fsm_view (brightness_cap e d s) = fsm_view s"
  by (simp add: brightness_cap_def Let_def split_beta frame_simps brightness_read_def brightness_user_took_over_def split: option.split)

lemma law_brightness_cap [law_intros]: "law.extends s t \<Longrightarrow> law.extends s (brightness_cap e d t)"
  by (auto simp: brightness_cap_def Let_def split_beta brightness_read_def brightness_user_took_over_def intro!: law_intros split: option.split)

lemma fsm_view_brightness_restore [frame_simps]: "fsm_view (brightness_restore e s) = fsm_view s"
  by (simp add: brightness_restore_def Let_def split_beta frame_simps brightness_read_def brightness_user_took_over_def split: option.split)

lemma law_brightness_restore [law_intros]: "law.extends s t \<Longrightarrow> law.extends s (brightness_restore e t)"
  by (auto simp: brightness_restore_def Let_def split_beta brightness_read_def brightness_user_took_over_def intro!: law_intros split: option.split)

lemma fsm_view_brightness_rearm [frame_simps]: "fsm_view (brightness_rearm e s) = fsm_view s"
  by (simp add: brightness_rearm_def Let_def split_beta frame_simps brightness_read_def split: option.split)

lemma law_brightness_rearm [law_intros]: "law.extends s t \<Longrightarrow> law.extends s (brightness_rearm e t)"
  by (auto simp: brightness_rearm_def Let_def split_beta brightness_read_def intro!: law_intros split: option.split)

section \<open>Keyboard backlight\<close>

lemma fsm_view_kbd_set [frame_simps]: "fsm_view (kbd_set e pct s) = fsm_view s"
  by (simp add: kbd_set_def Let_def split_beta frame_simps split: option.split)

lemma law_kbd_set [law_intros]: "law.extends s t \<Longrightarrow> law.extends s (kbd_set e pct t)"
  by (auto simp: kbd_set_def Let_def split_beta intro!: law_intros split: option.split)

lemma fsm_view_kbd_release_override [frame_simps]: "fsm_view (kbd_release_override e s) = fsm_view s"
  by (simp add: kbd_release_override_def Let_def split_beta frame_simps split: option.split)

lemma law_kbd_release_override [law_intros]: "law.extends s t \<Longrightarrow> law.extends s (kbd_release_override e t)"
  by (auto simp: kbd_release_override_def Let_def split_beta intro!: law_intros split: option.split)

lemma fsm_view_kbd_write_status [frame_simps]: "fsm_view (kbd_write_status e lit s) = fsm_view s"
  by (simp add: kbd_write_status_def Let_def split_beta frame_simps split: option.split)

lemma law_kbd_write_status [law_intros]: "law.extends s t \<Longrightarrow> law.extends s (kbd_write_status e lit t)"
  by (auto simp: kbd_write_status_def Let_def split_beta intro!: law_intros split: option.split)

section \<open>Locking\<close>

lemma fsm_view_request_lock [frame_simps]: "fsm_view (request_lock e s) = fsm_view s"
  by (simp add: request_lock_def Let_def split_beta frame_simps split: option.split)

lemma law_request_lock [law_intros]: "law.extends s t \<Longrightarrow> law.extends s (request_lock e t)"
  by (auto simp: request_lock_def Let_def split_beta intro!: law_intros split: option.split)

lemma fsm_view_ingest_active_profile [frame_simps]: "fsm_view (snd (ingest_active_profile e s)) = fsm_view s"
  by (simp add: ingest_active_profile_def Let_def split_beta frame_simps active_profile_name_def split: option.split)

lemma law_ingest_active_profile [law_intros]: "law.extends s t \<Longrightarrow> law.extends s (snd (ingest_active_profile e t))"
  by (auto simp: ingest_active_profile_def Let_def split_beta active_profile_name_def intro!: law_intros split: option.split)

lemma fsm_view_live_locker [frame_simps]: "fsm_view (snd (live_locker e s)) = fsm_view s"
  by (simp add: live_locker_def Let_def split_beta frame_simps split: option.split)

lemma law_live_locker [law_intros]: "law.extends s t \<Longrightarrow> law.extends s (snd (live_locker e t))"
  by (auto simp: live_locker_def Let_def split_beta intro!: law_intros split: option.split)

lemma fsm_view_wait_for_lock [frame_simps]: "fsm_view (snd (wait_for_lock e s)) = fsm_view s"
  by (simp add: wait_for_lock_def Let_def split_beta frame_simps split: option.split)

lemma law_wait_for_lock [law_intros]: "law.extends s t \<Longrightarrow> law.extends s (snd (wait_for_lock e t))"
  by (auto simp: wait_for_lock_def Let_def split_beta intro!: law_intros split: option.split)

end
