(* ===== verification/PowerPolicy.thy ===== *)
theory PowerPolicy
  imports EffectorLaws
begin

text \<open>
  Power policy orchestration, \<open>src/daemon/power_policy.rs\<close>: stamp or expire the manual
  override, apply the profile the policy or the override wants, and move the brightness on
  the edges of the base state.
\<close>

definition base_of :: "'p sys \<Rightarrow> base_state" where
  "base_of s = power_base_state (on_ac_settled s) (ext_mon_count s) (low_battery s)"

definition override_expires :: "base_state \<Rightarrow> base_state \<Rightarrow> bool" where
  "override_expires base stamped =
     (ac_axis base \<noteq> ac_axis stamped \<or> (base = BatteryLow \<and> stamped \<noteq> BatteryLow))"

definition check_override :: "'p env \<Rightarrow> base_state \<Rightarrow> 'p sys \<Rightarrow> 'p sys" where
  "check_override e base s =
     (case power_override s of
        None \<Rightarrow> s
      | Some _ \<Rightarrow>
          (case power_override_base s of
             None \<Rightarrow> s\<lparr>power_override_base := Some base\<rparr>
           | Some stamped \<Rightarrow>
               if override_expires base stamped
               then let s = clear_power_override e s in
                 notify_power e (OverrideCleared (for_base (power_policy s) base) base) s
               else s))"

definition desired_profile :: "base_state \<Rightarrow> 'p sys \<Rightarrow> power_profile" where
  "desired_profile base s =
     (case power_override s of Some p \<Rightarrow> p | None \<Rightarrow> for_base (power_policy s) base)"

definition brightness_edges :: "'p env \<Rightarrow> base_state option \<Rightarrow> base_state \<Rightarrow> 'p sys \<Rightarrow> 'p sys" where
  "brightness_edges e last_base base s =
     (case last_base of
        None \<Rightarrow> s
      | Some prev \<Rightarrow>
          if prev = base then s
          else
            let s = (if ac_axis prev = AxisAc \<and> ac_axis base = AxisBattery
                     then brightness_save_and_cap e 2 s else s);
                s = (if base = BatteryLow \<and> prev \<noteq> BatteryLow then brightness_cap e 4 s else s)
            in if ac_axis prev = AxisBattery \<and> ac_axis base = AxisAc
               then brightness_restore e s else s)"

definition power_policy_check :: "'p env \<Rightarrow> 'p sys \<Rightarrow> 'p sys" where
  "power_policy_check e s =
     (let base = base_of s;
          s = check_override e base s;
          s = apply_power_profile e (desired_profile base s) s;
          prev = power_last_base s
      in brightness_edges e prev base (s\<lparr>power_last_base := Some base\<rparr>))"

section \<open>Frame and trace\<close>

lemma fsm_view_check_override [frame_simps]: "fsm_view (check_override e b s) = fsm_view s"
  by (simp add: check_override_def Let_def frame_simps split: option.split)

lemma law_check_override [law_intros]:
  "law.extends s t \<Longrightarrow> law.extends s (check_override e b t)"
  by (auto simp: check_override_def Let_def intro!: law_intros split: option.split)

lemma fsm_view_brightness_edges [frame_simps]: "fsm_view (brightness_edges e p b s) = fsm_view s"
  by (simp add: brightness_edges_def Let_def frame_simps split: option.split)

lemma law_brightness_edges [law_intros]:
  "law.extends s t \<Longrightarrow> law.extends s (brightness_edges e p b t)"
  by (auto simp: brightness_edges_def Let_def intro!: law_intros split: option.split)

lemma fsm_view_power_policy_check [frame_simps]: "fsm_view (power_policy_check e s) = fsm_view s"
  by (simp add: power_policy_check_def Let_def frame_simps)

lemma law_power_policy_check [law_intros]:
  "law.extends s t \<Longrightarrow> law.extends s (power_policy_check e t)"
  by (auto simp: power_policy_check_def Let_def intro!: law_intros)

section \<open>What the power policy reads and keeps\<close>

text \<open>The override, its stamp, the policy map and the last base are the check's own; the
  brightness effectors do not touch them.\<close>

definition power_view :: "'p sys \<Rightarrow> power_profile option \<times> base_state option \<times> power_profile option
    \<times> power_policy \<times> bool \<times> base_state option \<times> bool" where
  "power_view s = (power_override s, power_override_base s, power_applied s, power_policy s,
     powerd_available s, power_last_base s, shadow s)"

lemma power_viewD:
  assumes "power_view s' = power_view s"
  shows "power_override s' = power_override s" "power_override_base s' = power_override_base s"
    "power_applied s' = power_applied s" "power_policy s' = power_policy s"
    "powerd_available s' = powerd_available s" "power_last_base s' = power_last_base s"
    "shadow s' = shadow s"
  using assms by (simp_all add: power_view_def)

lemma power_view_brightness [frame_simps]:
  "power_view (snd (brightness_read e s)) = power_view s"
  "power_view (snd (brightness_user_took_over e s)) = power_view s"
  "power_view (brightness_write e v s) = power_view s"
  "power_view (brightness_yield e s) = power_view s"
  by (simp_all add: power_view_def brightness_read_def brightness_user_took_over_def
      brightness_write_def brightness_yield_def Let_def split_beta split: option.split)

lemma power_view_brightness_updates [frame_simps]:
  "power_view (s\<lparr>brightness_set := x\<rparr>) = power_view s"
  "power_view (s\<lparr>brightness_saved := y\<rparr>) = power_view s"
  by (simp_all add: power_view_def)

lemma power_view_brightness_edges [frame_simps]:
  "power_view (brightness_edges e p b s) = power_view s"
  by (simp add: brightness_edges_def brightness_save_and_cap_def brightness_cap_def
      brightness_restore_def Let_def split_beta frame_simps split: option.split)

lemma power_apply_fields:
  "power_override (apply_power_profile e p s) = power_override s"
  "power_override_base (apply_power_profile e p s) = power_override_base s"
  "power_policy (apply_power_profile e p s) = power_policy s"
  "power_last_base (apply_power_profile e p s) = power_last_base s"
  by (simp_all add: apply_power_profile_def powerd_lost_def Let_def split_beta)

lemma power_apply_outcome:
  "power_applied (apply_power_profile e p s) = Some p
     \<or> \<not> powerd_available (apply_power_profile e p s)"
  by (simp add: apply_power_profile_def powerd_lost_def Let_def split_beta)

lemma base_of_view: "fsm_view s' = fsm_view s \<Longrightarrow> base_of s' = base_of s"
  using fsm_viewD [of s' s] by (simp add: base_of_def)

lemma check_override_power:
  "power_policy (check_override e b s) = power_policy s"
  "power_last_base (check_override e b s) = power_last_base s"
  by (simp_all add: check_override_def clear_power_override_def notify_power_def send_cmd_def
      Let_def split_beta split: option.split)

text \<open>The override outlives the check unless it was stamped and its stamp has expired; the one
  that outlives it is stamped.\<close>

lemma check_override_cases:
  "power_override (check_override e b s) =
     (case (power_override s, power_override_base s) of
        (Some p, Some st) \<Rightarrow> (if override_expires b st then None else Some p)
      | (p, _) \<Rightarrow> p)"
  "power_override_base (check_override e b s) =
     (case (power_override s, power_override_base s) of
        (Some p, Some st) \<Rightarrow> (if override_expires b st then None else Some st)
      | (Some p, None) \<Rightarrow> Some b
      | (None, st) \<Rightarrow> st)"
  by (auto simp: check_override_def clear_power_override_def notify_power_def send_cmd_def
      Let_def split_beta split: option.split)

lemma policy_check_override:
  "power_override (power_policy_check e s) = power_override (check_override e (base_of s) s)"
  "power_override_base (power_policy_check e s) = power_override_base (check_override e (base_of s) s)"
  "power_policy (power_policy_check e s) = power_policy s"
  "power_last_base (power_policy_check e s) = Some (base_of s)"
  unfolding power_policy_check_def Let_def
  by (simp_all add: power_viewD [OF power_view_brightness_edges] power_apply_fields
      check_override_power)

lemma policy_check_applied:
  "power_applied (power_policy_check e s)
     = Some (desired_profile (base_of s) (check_override e (base_of s) s))
   \<or> \<not> powerd_available (power_policy_check e s)"
  using power_apply_outcome [of e "desired_profile (base_of s) (check_override e (base_of s) s)"
      "check_override e (base_of s) s"]
  unfolding power_policy_check_def Let_def
  by (simp add: power_viewD [OF power_view_brightness_edges])

text \<open>A second check in an unchanged world finds nothing to do.\<close>

lemma check_override_idem:
  assumes "power_override s = None \<or> (\<exists>st. power_override_base s = Some st \<and> \<not> override_expires b st)"
  shows "check_override e b s = s"
  using assms by (auto simp: check_override_def split: option.split)

lemma apply_noop: "power_applied s = Some p \<or> \<not> powerd_available s \<Longrightarrow> apply_power_profile e p s = s"
  by (auto simp: apply_power_profile_def)

lemma policy_check_noop:
  assumes "power_override s = None \<or> (\<exists>st. power_override_base s = Some st \<and> \<not> override_expires (base_of s) st)"
    and "power_applied s = Some (desired_profile (base_of s) s) \<or> \<not> powerd_available s"
    and "power_last_base s = Some (base_of s)"
  shows "power_policy_check e s = s"
proof -
  have "s\<lparr>power_last_base := Some (base_of s)\<rparr> = s" using assms(3) by simp
  then show ?thesis
    using check_override_idem [OF assms(1), of e] apply_noop [OF assms(2)] assms(3)
    by (simp add: power_policy_check_def Let_def brightness_edges_def)
qed

lemma not_expires_self: "\<not> override_expires b b"
  by (simp add: override_expires_def)

lemma policy_check_settled:
  fixes e :: "'p env" and s :: "'p sys"
  defines "t \<equiv> power_policy_check e s"
  shows "power_override t = None \<or> (\<exists>st. power_override_base t = Some st \<and> \<not> override_expires (base_of t) st)"
    and "power_applied t = Some (desired_profile (base_of t) t) \<or> \<not> powerd_available t"
    and "power_last_base t = Some (base_of t)"
proof -
  have b: "base_of t = base_of s"
    unfolding t_def by (rule base_of_view) (rule fsm_view_power_policy_check)
  note o = policy_check_override [of e s, folded t_def]
  show "power_override t = None \<or> (\<exists>st. power_override_base t = Some st \<and> \<not> override_expires (base_of t) st)"
    unfolding o b by (auto simp: check_override_cases not_expires_self split: option.split)
  show "power_applied t = Some (desired_profile (base_of t) t) \<or> \<not> powerd_available t"
    using policy_check_applied [of e s, folded t_def] o b
    by (cases "power_override (check_override e (base_of s) s)")
      (simp_all add: desired_profile_def check_override_power)
  show "power_last_base t = Some (base_of t)" using o(4) b by simp
qed

end
