(* ===== verification/KbdPolicy.thy ===== *)
theory KbdPolicy
  imports EffectorLaws
begin

text \<open>
  Keyboard backlight orchestration, \<open>src/daemon/kbd_policy.rs\<close>, and the two hardware
  discoveries of \<open>src/daemon/mod.rs\<close> (\<open>discover_backlight\<close>, \<open>discover_kbd\<close>).
\<close>

record kbd_status =
  ks_lit :: bool
  ks_level :: u8
  ks_override_armed :: bool
  ks_typing :: bool
  ks_dark :: bool
  ks_lux :: "f64 option"
  ks_dark_lux :: u32
  ks_led :: string
  ks_sensor :: string

definition kbd_status_of :: "'p sys \<Rightarrow> bool \<Rightarrow> kbd_status" where
  "kbd_status_of s lit = \<lparr>ks_lit = lit, ks_level = kbd_level s, ks_override_armed = kbd_override s,
     ks_typing = kbd_typing s, ks_dark = kbd_dark s, ks_lux = kbd_last_lux s,
     ks_dark_lux = kbd_dark_lux s,
     ks_led = (case kbd_led s of Some (n, _) \<Rightarrow> n | None \<Rightarrow> []),
     ks_sensor = or_default [] (kbd_als s)\<rparr>"

definition kbd_inputs_of :: "'p sys \<Rightarrow> kbd_inputs" where
  "kbd_inputs_of s = \<lparr>ki_locked = locked s, ki_sleeping = kbd_sleeping s,
     ki_typing = kbd_typing s, ki_dark = kbd_dark s, ki_override_armed = kbd_override s\<rparr>"

definition sample_lux :: "'p env \<Rightarrow> 'p sys \<Rightarrow> 'p sys" where
  "sample_lux e s =
     (case kbd_als s of
        None \<Rightarrow> s
      | Some als \<Rightarrow>
          let (fs, s) = ask (q_fs e) s in
          (case read_lux (parse_f64 e) fs als of
             Some lux \<Rightarrow> s\<lparr>kbd_last_lux := Some lux, kbd_dark := is_dark lux (kbd_dark_lux s)\<rparr>
           | None \<Rightarrow> s))"

definition kbd_policy_check :: "'p env \<Rightarrow> bool \<Rightarrow> 'p sys \<Rightarrow> 'p sys" where
  "kbd_policy_check e smp s =
     (if \<not> kbd_active s then s
      else let s = (if smp then sample_lux e s else s);
               lit = kbd_lit (kbd_inputs_of s);
               s = kbd_set e (if lit then kbd_level s else 0) s
           in kbd_write_status e lit s)"

definition discover_backlight :: "'p env \<Rightarrow> 'p sys \<Rightarrow> 'p sys" where
  "discover_backlight e s =
     (let (fs, s) = ask (q_fs e) s; found = find_backlight fs in
      if map_option fst found = brightness_dev s then s
      else s\<lparr>brightness_dev := map_option fst found,
             brightness_max := or_default 0 (map_option snd found),
             brightness_set := None, brightness_saved := None\<rparr>)"

definition discover_kbd :: "'p env \<Rightarrow> 'p sys \<Rightarrow> 'p sys" where
  "discover_kbd e s =
     (let (fs, s) = ask (q_fs e) s; led = find_kbd_led fs;
          s = (if led \<noteq> kbd_led s
               then let (fs, s) = ask (q_fs e) s in
                 s\<lparr>kbd_applied := Option.bind led (\<lambda>(name, _). led_brightness fs name)\<rparr>
               else s);
          s = s\<lparr>kbd_led := led\<rparr>;
          (fs, s) = ask (q_fs e) s
      in s\<lparr>kbd_als := find_als fs\<rparr>)"

section \<open>Frame and trace\<close>

lemma fsm_view_sample_lux [frame_simps]: "fsm_view (sample_lux e s) = fsm_view s"
  by (simp add: sample_lux_def Let_def split_beta split: option.split)

lemma law_sample_lux [law_intros]: "law.extends s t \<Longrightarrow> law.extends s (sample_lux e t)"
  by (simp add: sample_lux_def Let_def split_beta split: option.split)

lemma fsm_view_kbd_policy_check [frame_simps]: "fsm_view (kbd_policy_check e smp s) = fsm_view s"
  by (simp add: kbd_policy_check_def Let_def frame_simps)

lemma law_kbd_policy_check [law_intros]:
  "law.extends s t \<Longrightarrow> law.extends s (kbd_policy_check e smp t)"
  by (auto simp: kbd_policy_check_def Let_def intro!: law_intros)

lemma fsm_view_discover [frame_simps]:
  "fsm_view (discover_backlight e s) = fsm_view s" "fsm_view (discover_kbd e s) = fsm_view s"
  by (simp_all add: discover_backlight_def discover_kbd_def Let_def split_beta)

lemma law_discover [law_intros]:
  "law.extends s t \<Longrightarrow> law.extends s (discover_backlight e t)"
  "law.extends s t \<Longrightarrow> law.extends s (discover_kbd e t)"
  by (simp_all add: discover_backlight_def discover_kbd_def Let_def split_beta)

section \<open>What the check leaves on the LED\<close>

lemma sample_lux_fields [simp]:
  "kbd_led (sample_lux e s) = kbd_led s" "kbd_als (sample_lux e s) = kbd_als s"
  "kbd_mode (sample_lux e s) = kbd_mode s" "kbd_level (sample_lux e s) = kbd_level s"
  "kbd_override (sample_lux e s) = kbd_override s" "kbd_typing (sample_lux e s) = kbd_typing s"
  "kbd_sleeping (sample_lux e s) = kbd_sleeping s" "locked (sample_lux e s) = locked s"
  "kbd_applied (sample_lux e s) = kbd_applied s" "shadow (sample_lux e s) = shadow s"
  "has_session (sample_lux e s) = has_session s" "log (sample_lux e s) = log s"
  by (simp_all add: sample_lux_def Let_def split_beta split: option.split)

lemma kbd_set_fields [simp]:
  "kbd_inputs_of (kbd_set e pct s) = kbd_inputs_of s" "kbd_led (kbd_set e pct s) = kbd_led s"
  "kbd_level (kbd_set e pct s) = kbd_level s"
  by (simp_all add: kbd_set_def kbd_inputs_of_def Let_def split_beta split: option.split)

lemma kbd_write_status_fields [simp]:
  "kbd_inputs_of (kbd_write_status e lit s) = kbd_inputs_of s"
  "kbd_led (kbd_write_status e lit s) = kbd_led s"
  "kbd_level (kbd_write_status e lit s) = kbd_level s"
  "kbd_applied (kbd_write_status e lit s) = kbd_applied s"
  by (simp_all add: kbd_write_status_def kbd_inputs_of_def Let_def split_beta)

text \<open>Exactly one call where the recorded value differs, and the record follows the answer.\<close>

lemma kbd_set_exact:
  assumes "kbd_led s = Some (name, mx)" "has_session s" "\<not> shadow s"
  shows "\<exists>accepted. log (kbd_set e pct s) = log s @ (if kbd_applied s = Some (level_to_raw pct mx) then []
        else [CallSetBrightness Leds name (level_to_raw pct mx) accepted])
     \<and> kbd_applied (kbd_set e pct s) = (if kbd_applied s = Some (level_to_raw pct mx) \<or> accepted
        then Some (level_to_raw pct mx) else kbd_applied s)"
  using assms by (auto simp: kbd_set_def Let_def split_beta)

lemma kbd_write_status_log:
  "\<exists>status. log (kbd_write_status e lit s) = log s @ status \<and> set status \<subseteq> range WriteKbdStatus"
  by (auto simp: kbd_write_status_def Let_def split_beta)

definition kbd_target :: "'p sys \<Rightarrow> u8" where
  "kbd_target s = (if kbd_lit (kbd_inputs_of s) then kbd_level s else 0)"

lemma kbd_policy_check_unfold:
  "kbd_active s \<Longrightarrow> kbd_policy_check e smp s =
     (let t = (if smp then sample_lux e s else s) in
      kbd_write_status e (kbd_lit (kbd_inputs_of t)) (kbd_set e (kbd_target t) t))"
  by (simp add: kbd_policy_check_def kbd_target_def Let_def)

end
