(* ===== verification/GpuDrift.thy ===== *)
theory GpuDrift
  imports EffectorLaws
begin

text \<open>
  GPU-selection drift, \<open>src/daemon/gpu_drift.rs\<close>, and the running compositor's device list
  of \<open>src/sysio/hypr_instance.rs\<close>. A panic of \<open>gpu_desired\<close> (its \<open>None\<close>) would end the
  daemon; \<open>gpu_desired_cases\<close> shows there is none, and that branch returns the state here.
\<close>

section \<open>The compositor's own device list\<close>

definition hyprland_pid :: "string option \<Rightarrow> filesystem \<Rightarrow> u32 option" where
  "hyprland_pid lock fs =
     Option.bind lock (\<lambda>l. Option.bind (fs_file fs l) (\<lambda>text.
       (case lines text of
          [] \<Rightarrow> None
        | line # _ \<Rightarrow> Option.bind (parse_u32 (trim line)) (\<lambda>pid.
            Option.bind (fs_file fs (''/proc/'' @ nat_str (unat pid) @ ''/comm'')) (\<lambda>comm.
              if trim comm = ''Hyprland'' then Some pid else None)))))"

definition AQ_KEY :: string where "AQ_KEY = ''AQ_DRM_DEVICES=''"

definition nul :: char where "nul = CHR 0x00"

definition hyprland_aq_devices :: "string option \<Rightarrow> filesystem \<Rightarrow> string list option" where
  "hyprland_aq_devices lock fs =
     Option.bind (hyprland_pid lock fs) (\<lambda>pid.
     Option.bind (fs_file fs (''/proc/'' @ nat_str (unat pid) @ ''/environ'')) (\<lambda>environ.
       case find (starts_with AQ_KEY) (split_char nul environ) of
         Some chunk \<Rightarrow> Some (filter (\<lambda>p. p \<noteq> []) (split_char (CHR '':'') (drop (length AQ_KEY) chunk)))
       | None \<Rightarrow> Some []))"

section \<open>Drift\<close>

definition resolve_gpu_actual :: "'p env \<Rightarrow> 'p sys \<Rightarrow> 'p sys" where
  "resolve_gpu_actual e s =
     (let (fs, s) = ask (q_fs e) s in
      case hyprland_aq_devices (hypr_lock_path e) fs of
        None \<Rightarrow> s
      | Some devices \<Rightarrow>
          if devices \<noteq> [] then s\<lparr>gpu_actual_pending := False, gpu_actual := Some devices\<rparr>
          else let (reason, s) = ask (q_gpu_reason e) s in
            s\<lparr>gpu_actual_pending := False,
              gpu_actual := (if reason = Some ''bailed-transient'' \<or> reason = Some ''validation-failed''
                             then Some [] else None)\<rparr>)"

definition PLATFORM_PROFILE_PATH :: string where
  "PLATFORM_PROFILE_PATH = ''/sys/firmware/acpi/platform_profile''"

definition resolve_session_gpu_mode ::
  "'p env \<Rightarrow> gpu_pref \<Rightarrow> 'p sys \<Rightarrow> (gpu_mode \<times> gpu_mode_source) \<times> 'p sys" where
  "resolve_session_gpu_mode e pref s =
     (let (fs, s) = ask (q_fs e) s;
          override_word = read_first_word fs (gpu_override_path e);
          overlay = (if pref = gpu_pref.Auto then None else Some (ext_gpu_pref_str e pref));
          platform = read_first_word fs PLATFORM_PROFILE_PATH;
          (mode, source, _) = resolve_gpu_mode override_word overlay platform
      in ((mode, source), s))"

definition notify_if_new ::
  "'p env \<Rightarrow> string \<Rightarrow> string list \<Rightarrow> string \<Rightarrow> 'p sys \<Rightarrow> 'p sys" where
  "notify_if_new e trigger desired reason s =
     (let key = join '':'' desired in
      if gpu_last_notified s = Some key then s
      else let (now, s) = ask (q_now e) s in
        if (case gpu_last_notify_at s of Some t \<Rightarrow> now - t < GPU_NOTIFY_MIN | None \<Rightarrow> False) then s
        else notify_gpu_drift e desired reason trigger
               (s\<lparr>gpu_last_notified := Some key, gpu_last_notify_at := Some now\<rparr>))"

definition check_and_notify_drift ::
  "'p env \<Rightarrow> string \<Rightarrow> gpu_mode \<Rightarrow> gpu_mode_source \<Rightarrow> 'p sys \<Rightarrow> 'p sys" where
  "check_and_notify_drift e trigger mode source s =
     (let s = (if gpu_actual_pending s then resolve_gpu_actual e s else s) in
      if gpu_actual_pending s then s
      else case gpu_actual s of
          None \<Rightarrow> s
        | Some actual \<Rightarrow>
            let (fs, s) = ask (q_fs e) s in
            (case gpu_desired (read_gpu_snapshot fs) mode source of
               None \<Rightarrow> s
             | Some (None, _) \<Rightarrow> s
             | Some (Some desired, reason) \<Rightarrow>
                 if desired = actual then s\<lparr>gpu_last_notified := None\<rparr>
                 else notify_if_new e trigger desired reason s))"

definition gpu_drift_check :: "'p env \<Rightarrow> string \<Rightarrow> gpu_pref \<Rightarrow> 'p sys \<Rightarrow> gpu_mode \<times> 'p sys" where
  "gpu_drift_check e trigger pref s =
     (let ((mode, source), s) = resolve_session_gpu_mode e pref s
      in (mode, check_and_notify_drift e trigger mode source s))"

section \<open>Frame and trace\<close>

lemma fsm_view_resolve_gpu_actual [frame_simps]: "fsm_view (resolve_gpu_actual e s) = fsm_view s"
  by (simp add: resolve_gpu_actual_def Let_def split_beta split: option.split)

lemma law_resolve_gpu_actual [law_intros]:
  "law.extends s t \<Longrightarrow> law.extends s (resolve_gpu_actual e t)"
  by (simp add: resolve_gpu_actual_def Let_def split_beta split: option.split)

lemma snd_resolve_session_gpu_mode [simp]:
  "snd (resolve_session_gpu_mode e pref s) = s\<lparr>tick := Suc (tick s)\<rparr>"
  by (simp add: resolve_session_gpu_mode_def Let_def split_beta)

lemma fsm_view_notify_if_new [frame_simps]: "fsm_view (notify_if_new e tg d r s) = fsm_view s"
  by (simp add: notify_if_new_def Let_def split_beta frame_simps)

lemma law_notify_if_new [law_intros]:
  "law.extends s t \<Longrightarrow> law.extends s (notify_if_new e tg d r t)"
  by (auto simp: notify_if_new_def Let_def split_beta intro!: law_intros)

lemma fsm_view_check_and_notify [frame_simps]:
  "fsm_view (check_and_notify_drift e tg m src s) = fsm_view s"
  by (simp add: check_and_notify_drift_def Let_def split_beta frame_simps split: option.split)

lemma law_check_and_notify [law_intros]:
  "law.extends s t \<Longrightarrow> law.extends s (check_and_notify_drift e tg m src t)"
  by (auto simp: check_and_notify_drift_def Let_def split_beta intro!: law_intros split: option.split)

lemma fsm_view_gpu_drift_check [frame_simps]: "fsm_view (snd (gpu_drift_check e tg p s)) = fsm_view s"
  by (simp add: gpu_drift_check_def Let_def split_beta frame_simps)

lemma law_gpu_drift_check [law_intros]:
  "law.extends s t \<Longrightarrow> law.extends s (snd (gpu_drift_check e tg p t))"
  by (auto simp: gpu_drift_check_def Let_def split_beta intro!: law_intros)

end
