(* ===== verification/Dispatcher.thy ===== *)
theory Dispatcher
  imports PowerPolicy KbdPolicy GpuDrift
begin

text \<open>
  The event loop of \<open>src/daemon/dispatcher.rs\<close>: entering a state, the suspending tail, the
  evaluation of the main machine, the handlers, and the routing of one event. The telemetry
  snapshots (\<open>emit_help\<close>) and the occupancy span are observers and are left out; the log line
  of a transition is the trace entry \<open>Transition\<close>.
\<close>

section \<open>Entering a state\<close>

datatype entry = Fresh | Reassert

definition suspending_tail :: "'p env \<Rightarrow> 'p sys \<Rightarrow> bool \<times> 'p sys" where
  "suspending_tail e s =
     (let (live, s) = live_locker e s;
          (ready, s) =
            (if live then (True, s)
             else let s = request_lock e s;
                      (waited, s) = wait_for_lock e s
                  in if waited then live_locker e s else (False, s))
      in if ready then do_suspend e s else (False, s))"

definition on_enter :: "'p env \<Rightarrow> fsm_state \<Rightarrow> entry \<Rightarrow> 'p sys \<Rightarrow> bool \<times> 'p sys" where
  "on_enter e st entry s =
     (let s = (if st = fsm_state.Deferred \<and> wayland_inhibitor s then start_claim_watch s
               else cancel_claim_watch s)
      in case st of
          fsm_state.LidOpen \<Rightarrow> (True, set_edp e True (cancel_grace_timer s))
        | fsm_state.Docked \<Rightarrow> (True, set_edp e False (cancel_grace_timer s))
        | fsm_state.Deferred \<Rightarrow>
            let s = set_edp e False (cancel_grace_timer s) in
            (True, if claim_governs (world s) then pause_media e s else s)
        | fsm_state.Countdown \<Rightarrow> (True, start_grace_timer (entry = Fresh) (set_edp e False s))
        | fsm_state.Suspending \<Rightarrow> suspending_tail e (cancel_grace_timer s))"

definition refresh_wayland_claim :: "'p env \<Rightarrow> 'p sys \<Rightarrow> 'p sys" where
  "refresh_wayland_claim e s =
     (let (held, s) = wayland_idle_inhibited e s in
      case held of None \<Rightarrow> s | Some h \<Rightarrow> s\<lparr>wayland_inhibitor := h\<rparr>)"

section \<open>Battery-low requests\<close>

datatype battery_low_act = Request | Withdraw | Hold

definition battery_low_action :: "bool \<Rightarrow> bool \<Rightarrow> bool \<Rightarrow> bool \<Rightarrow> battery_low_act" where
  "battery_low_action low ac ac_settled standing =
     (if low \<and> \<not> ac \<and> \<not> ac_settled \<and> \<not> standing then Request
      else if standing \<and> (ac \<or> \<not> low) then Withdraw
      else Hold)"

definition battery_low_request_check :: "'p env \<Rightarrow> 'p sys \<Rightarrow> bool \<times> 'p sys" where
  "battery_low_request_check e s =
     (case battery_low_action (low_battery s) (on_ac s) (on_ac_settled s) (suspend_requested s) of
        Request \<Rightarrow>
          let (written, s) = request_suspend e s in
          if written then (True, s\<lparr>suspend_requested := True\<rparr>) else (False, s)
      | Withdraw \<Rightarrow>
          let (removed, s) = clear_battery_low_request e s in
          if removed then (True, s\<lparr>suspend_requested := False\<rparr>) else (False, s)
      | Hold \<Rightarrow> (False, s))"

section \<open>Evaluating the main machine\<close>

definition evaluate_fsms :: "'p env \<Rightarrow> event_kind \<Rightarrow> string \<Rightarrow> 'p sys \<Rightarrow> 'p sys" where
  "evaluate_fsms e kind label s =
     (case desired_state (state s) kind (world s) of
        None \<Rightarrow> s
      | Some new \<Rightarrow>
          if new = state s then s
          else let s = emit (Transition (state s) new label) s in
            if new = fsm_state.Suspending then
              (let (entered, s) = on_enter e new Fresh s in
               if entered then s\<lparr>state := new\<rparr> else start_grace_timer True s)
            else snd (on_enter e new Fresh (s\<lparr>state := new\<rparr>)))"

definition on_enter_effector_names :: "fsm_state \<Rightarrow> 'p sys \<Rightarrow> string list" where
  "on_enter_effector_names st s =
     (case st of
        fsm_state.LidOpen \<Rightarrow> [''cancel_grace_timer'', ''set_edp_on'']
      | fsm_state.Docked \<Rightarrow> [''cancel_grace_timer'', ''set_edp_off'']
      | fsm_state.Deferred \<Rightarrow>
          (if claim_governs (world s) then [''cancel_grace_timer'', ''set_edp_off'', ''pause_media'']
           else [''cancel_grace_timer'', ''set_edp_off''])
      | fsm_state.Countdown \<Rightarrow> [''set_edp_off'', ''start_grace_timer'']
      | fsm_state.Suspending \<Rightarrow> [''cancel_grace_timer'', ''lock_then_suspend''])"

section \<open>Monitor changes\<close>

definition chosen_profile :: "'p env \<Rightarrow> 'p sys \<Rightarrow> 'p monitor_profile option \<times> 'p sys" where
  "chosen_profile e s =
     (let (signature, s) = monitor_signature e s;
          (profiles, s) = load_profiles e s
      in (select_profile e signature profiles, s))"

definition gpu_pref_of :: "'p monitor_profile option \<Rightarrow> gpu_pref" where
  "gpu_pref_of chosen = (case chosen of Some p \<Rightarrow> mp_gpu p | None \<Rightarrow> gpu_pref.Auto)"

definition handle_monitors_changed :: "'p env \<Rightarrow> 'p sys \<Rightarrow> 'p sys" where
  "handle_monitors_changed e s =
     (let (chosen, s) = chosen_profile e s;
          s = (case chosen of
                 None \<Rightarrow> s\<lparr>active_profile_rev := None\<rparr>
               | Some p \<Rightarrow> apply_profile e p s);
          s = write_gpu_breadcrumb e (map_option mp_gpu chosen) s;
          (mode, s) = gpu_drift_check e ''monitors changed'' (gpu_pref_of chosen) s;
          s = sync_dgpu_pin e (dgpu_runtime_pm_pinned mode) s;
          s = power_policy_check e s;
          edp_should_be_off = (case edp_policy s of
              edp_policy.Disable \<Rightarrow> True | edp_policy.Enable \<Rightarrow> False
            | edp_policy.Auto \<Rightarrow> state s \<noteq> fsm_state.LidOpen)
      in if edp_should_be_off \<and> ext_mon_count s > 0 then rehome_edp_workspaces e s else s)"

section \<open>Reconcile passes\<close>

text \<open>Diff and repair: the new state, whether an input of the main machine drifted, and whether
  a power input did.\<close>

definition repair_lid :: "reconcile_snapshot \<Rightarrow> 'p sys \<Rightarrow> bool \<times> 'p sys" where
  "repair_lid snap s =
     (if lid_present s \<and> rs_lid_closed snap \<noteq> lid_closed s
      then (True, s\<lparr>lid_closed := rs_lid_closed snap\<rparr>) else (False, s))"

definition repair_request :: "'p sys \<Rightarrow> bool \<times> 'p sys" where
  "repair_request s =
     (let request_now = suspend_request_standing s in
      if request_now \<noteq> suspend_requested s
      then (True, s\<lparr>suspend_requested := request_now\<rparr>) else (False, s))"

definition repair_ext_mon :: "reconcile_snapshot \<Rightarrow> 'p sys \<Rightarrow> bool \<times> 'p sys" where
  "repair_ext_mon snap s =
     (if rs_ext_mon_count snap \<noteq> ext_mon_count s
      then (True, schedule_profile_reconcile (s\<lparr>ext_mon_count := rs_ext_mon_count snap\<rparr>))
      else (False, s))"

definition repair_claims :: "reconcile_snapshot \<Rightarrow> 'p sys \<Rightarrow> bool \<times> 'p sys" where
  "repair_claims snap s =
     (let d1 = (rs_logind_inhibitor snap \<noteq> logind_inhibitor s);
          s = s\<lparr>logind_inhibitor := rs_logind_inhibitor snap\<rparr>
      in case rs_wayland_inhibitor snap of
          None \<Rightarrow> (d1, s)
        | Some w \<Rightarrow> (d1 \<or> w \<noteq> wayland_inhibitor s, s\<lparr>wayland_inhibitor := w\<rparr>))"

definition repair_lock :: "reconcile_snapshot \<Rightarrow> 'p sys \<Rightarrow> bool \<times> 'p sys" where
  "repair_lock snap s =
     (case rs_locked snap of
        None \<Rightarrow> (False, s)
      | Some l \<Rightarrow> if l \<noteq> locked s then (True, emit (LockMirror l) (s\<lparr>locked := l\<rparr>)) else (False, s))"

definition repair_ac :: "reconcile_snapshot \<Rightarrow> 'p sys \<Rightarrow> bool \<times> 'p sys" where
  "repair_ac snap s =
     (case rs_on_ac snap of
        None \<Rightarrow> (False, s)
      | Some a \<Rightarrow> if a \<noteq> on_ac s then (True, s\<lparr>on_ac := a\<rparr>) else (False, s))"

definition repair_snapshot :: "reconcile_snapshot \<Rightarrow> 'p sys \<Rightarrow> bool \<times> bool \<times> 'p sys" where
  "repair_snapshot snap s =
     (let (d_lid, s) = repair_lid snap s;
          (d_req, s) = repair_request s;
          (d_ext, s) = repair_ext_mon snap s;
          (d_claim, s) = repair_claims snap s;
          (d_lock, s) = repair_lock snap s;
          (d_ac, s) = repair_ac snap s
      in (d_lid \<or> d_req \<or> d_ext \<or> d_claim \<or> d_lock, d_ext \<or> d_ac, s))"

definition edp_should_be_enabled :: "'p sys \<Rightarrow> bool" where
  "edp_should_be_enabled s = (case edp_policy s of
      edp_policy.Disable \<Rightarrow> False | edp_policy.Enable \<Rightarrow> True
    | edp_policy.Auto \<Rightarrow> state s = fsm_state.LidOpen)"

definition reassert_edp :: "'p env \<Rightarrow> reconcile_snapshot \<Rightarrow> 'p sys \<Rightarrow> 'p sys" where
  "reassert_edp e snap s =
     (case rs_edp_disabled snap of
        None \<Rightarrow> s
      | Some disabled \<Rightarrow>
          if edp_should_be_enabled s \<and> disabled then set_edp e True s
          else if \<not> edp_should_be_enabled s \<and> \<not> disabled then set_edp e False s
          else s)"

definition stuck_dpms_backstop :: "'p env \<Rightarrow> reconcile_snapshot \<Rightarrow> 'p sys \<Rightarrow> 'p sys" where
  "stuck_dpms_backstop e snap s =
     (let cursor_moved = (case (last_cursor_pos s, rs_cursor_pos snap) of
            (Some prev, Some now) \<Rightarrow> prev \<noteq> now | _ \<Rightarrow> False);
          s = s\<lparr>last_cursor_pos := rs_cursor_pos snap\<rparr>
      in case rs_dpms_off snap of
          None \<Rightarrow> s
        | Some off \<Rightarrow>
            if dpms_stuck_off (state s)
                 \<lparr>ss_dpms_off = off, ss_locked = locked s, ss_cursor_moved = cursor_moved\<rparr>
            then dpms_on e s else s)"

definition repair_power :: "'p env \<Rightarrow> 'p sys \<Rightarrow> 'p sys" where
  "repair_power e s =
     snd (battery_low_request_check e (power_policy_check e (s\<lparr>on_ac_settled := on_ac s\<rparr>)))"

definition handle_reconcile_tick :: "'p env \<Rightarrow> reconcile_snapshot \<Rightarrow> 'p sys \<Rightarrow> 'p sys" where
  "handle_reconcile_tick e snap s =
     (let (fsm_drift, power_drift, s) = repair_snapshot snap s;
          s = (if power_drift then repair_power e s else s);
          s = (if fsm_drift then evaluate_fsms e event_kind.CtxRepaired ''CtxRepaired'' s else s)
      in if state s = fsm_state.Suspending then s
         else let s = snd (ingest_active_profile e s)
              in stuck_dpms_backstop e snap (reassert_edp e snap s))"

section \<open>Routing\<close>

definition reassert_state :: "'p env \<Rightarrow> 'p sys \<Rightarrow> 'p sys" where
  "reassert_state e s =
     (if state s = fsm_state.Suspending then s
      else let s = snd (ingest_active_profile e s) in snd (on_enter e (state s) Reassert s))"

definition ingest_override :: "string option \<Rightarrow> 'p sys \<Rightarrow> 'p sys" where
  "ingest_override word s =
     (case word of
        None \<Rightarrow> s\<lparr>power_override := None, power_override_base := None\<rparr>
      | Some w \<Rightarrow>
          (case power_profile_from_str w of
             None \<Rightarrow> s
           | Some p \<Rightarrow>
               if power_override s = Some p then s
               else s\<lparr>power_override := Some p, power_override_base := None\<rparr>))"

definition handle_platform_profile :: "'p env \<Rightarrow> string option \<Rightarrow> 'p sys \<Rightarrow> 'p sys" where
  "handle_platform_profile e v s =
     (let (now, s) = ask (q_now e) s;
          (own, writes) = is_self_write now v (self_writes s);
          s = s\<lparr>self_writes := writes\<rparr>
      in if own then s
         else power_policy_check e (adopt_power_override e (profile_from_platform_value v) s))"

definition handle_battery_percent :: "'p env \<Rightarrow> f64 \<Rightarrow> 'p sys \<Rightarrow> bool \<times> 'p sys" where
  "handle_battery_percent e pct s =
     (let s = s\<lparr>battery_percent := Some pct\<rparr>;
          new_low = battery_low_step (low_battery s) pct (battery_low_pct s);
          flipped = (new_low \<noteq> low_battery s);
          s = s\<lparr>low_battery := new_low\<rparr>;
          (changed, s) = battery_low_request_check e s;
          s = (if flipped then request_reconcile RtBatteryLowChanged s else s)
      in (flipped \<or> changed, s))"

definition handle_ac_changed :: "'p env \<Rightarrow> bool \<Rightarrow> 'p sys \<Rightarrow> bool \<times> 'p sys" where
  "handle_ac_changed e ac s =
     (if ac = on_ac s then (False, s)
      else let s = snd (battery_low_request_check e (s\<lparr>on_ac := ac\<rparr>))
           in (True, request_reconcile RtAcChanged (schedule_power_settle s)))"

definition handle_powerd_appeared :: "'p sys \<Rightarrow> 'p sys" where
  "handle_powerd_appeared s =
     (let s = (if \<not> powerd_available s
               then s\<lparr>powerd_available := True, powerd_warned := False,
                      power_applied := None, dgpu_pinned := None\<rparr>
               else s)
      in s\<lparr>on_ac_settled := on_ac s\<rparr>)"

definition handle_suspend_request :: "'p env \<Rightarrow> string option \<Rightarrow> 'p sys \<Rightarrow> 'p sys" where
  "handle_suspend_request e word s =
     (let requested = (word \<noteq> None); s = s\<lparr>suspend_requested := requested\<rparr>
      in if requested then refresh_wayland_claim e s else s)"

definition handle_timer_expired :: "'p sys \<Rightarrow> 'p sys" where
  "handle_timer_expired s =
     (if suspend_requested s \<and> \<not> suspend_request_standing s then s\<lparr>suspend_requested := False\<rparr> else s)"

definition handle_resumed :: "'p env \<Rightarrow> 'p sys \<Rightarrow> 'p sys" where
  "handle_resumed e s =
     (let s = clear_suspend_request e (s\<lparr>suspend_requested := False\<rparr>);
          s = (request_reconcile RtResumed s)\<lparr>kbd_sleeping := False\<rparr>
      in kbd_policy_check e False s)"

text \<open>These three are read through wherever \<open>route_event\<close> is.\<close>

declare handle_suspend_request_def [simp] handle_timer_expired_def [simp] handle_resumed_def [simp]

text \<open>The \<open>match\<close> of \<open>dispatch\<close>: whether the event falls through to the common tail.\<close>

definition route_event :: "'p env \<Rightarrow> event \<Rightarrow> 'p sys \<Rightarrow> bool \<times> 'p sys" where
  "route_event e ev s = (case ev of
       ConfigReloaded \<Rightarrow> (False, request_reconcile RtConfigReloaded (reassert_state e s))
     | ProfileApplied \<Rightarrow> (False, request_reconcile RtProfileApplied (reassert_state e s))
     | ReconcileTick snap \<Rightarrow> (False, handle_reconcile_tick e snap s)
     | MonitorsChanged \<Rightarrow> (False, handle_monitors_changed e s)
     | ProfilesChanged \<Rightarrow> (False, schedule_profile_reconcile s)
     | BacklightHotplug \<Rightarrow> (False, discover_backlight e s)
     | Sleeping \<Rightarrow> (False, kbd_policy_check e False (s\<lparr>kbd_sleeping := True\<rparr>))
     | KbdIdle idle \<Rightarrow>
         (let s = s\<lparr>kbd_typing := \<not> idle\<rparr>;
              s = (if idle then kbd_release_override e s else s)
          in (False, kbd_policy_check e (\<not> idle) s))
     | KbdLevelChanged level \<Rightarrow>
         (False, kbd_policy_check e True (s\<lparr>kbd_level := or_default DEFAULT_KBD_LEVEL_PCT level\<rparr>))
     | KbdOverrideChanged armed \<Rightarrow> (False, kbd_policy_check e armed (s\<lparr>kbd_override := armed\<rparr>))
     | KbdLedHotplug \<Rightarrow> (False, kbd_policy_check e True (discover_kbd e s))
     | Lid shut \<Rightarrow>
         (if lid_present s
          then let s = s\<lparr>lid_closed := shut\<rparr>
               in (True, if shut then refresh_wayland_claim e s else s)
          else (False, s))
     | MonitorHotplug added name \<Rightarrow>
         (let (n, s) = ext_monitor_count e (ext_mon_count s) s;
              s = schedule_profile_reconcile (s\<lparr>ext_mon_count := n\<rparr>)
          in (True, request_reconcile RtMonitorHotplug s))
     | Inhibitor wayland active \<Rightarrow>
         (True, if wayland then s\<lparr>wayland_inhibitor := active\<rparr> else s\<lparr>logind_inhibitor := active\<rparr>)
     | LockChanged l \<Rightarrow>
         (True, kbd_policy_check e False (request_reconcile RtLockChanged (s\<lparr>locked := l\<rparr>)))
     | AcChanged ac \<Rightarrow> handle_ac_changed e ac s
     | PowerAcSettled \<Rightarrow> (True, snd (battery_low_request_check e (s\<lparr>on_ac_settled := on_ac s\<rparr>)))
     | PowerOverrideChanged word \<Rightarrow> (True, ingest_override word s)
     | BatteryPercent pct \<Rightarrow> handle_battery_percent e pct s
     | PlatformProfileChanged v \<Rightarrow> (True, handle_platform_profile e v s)
     | GpuOverrideChanged _ \<Rightarrow> (True, s)
     | PowerdAppeared \<Rightarrow> (True, handle_powerd_appeared s)
     | SuspendRequestChanged word \<Rightarrow> (True, handle_suspend_request e word s)
     | TimerExpired \<Rightarrow> (True, handle_timer_expired s)
     | Resumed \<Rightarrow> (True, handle_resumed e s))"

definition gpu_gate :: "event_kind \<Rightarrow> bool" where
  "gpu_gate k = (k \<in> {event_kind.AcPlugged, event_kind.AcUnplugged,
     event_kind.PlatformProfileChanged, event_kind.GpuOverrideChanged})"

definition power_gate :: "event_kind \<Rightarrow> bool" where
  "power_gate k = (k \<in> {event_kind.BatteryLowChanged, event_kind.PowerOverrideChanged,
     event_kind.PowerAcSettled})"

definition advise_gpu :: "'p env \<Rightarrow> string \<Rightarrow> 'p sys \<Rightarrow> 'p sys" where
  "advise_gpu e label s =
     (let (chosen, s) = chosen_profile e s;
          (mode, s) = gpu_drift_check e label (gpu_pref_of chosen) s
      in sync_dgpu_pin e (dgpu_runtime_pm_pinned mode) s)"

definition before_fsms :: "'p env \<Rightarrow> event_kind \<Rightarrow> string \<Rightarrow> 'p sys \<Rightarrow> 'p sys" where
  "before_fsms e kind label s =
     (let s = (if kind = event_kind.Resumed then brightness_rearm e s else s);
          s = (if gpu_gate kind then advise_gpu e label s else s)
      in if power_gate kind then power_policy_check e s else s)"

definition dispatch :: "'p env \<Rightarrow> event \<Rightarrow> 'p sys \<Rightarrow> 'p sys" where
  "dispatch e ev s =
     (let kind = event_kind_of ev; label = event_label ev;
          (falls, s) = route_event e ev s
      in if falls then evaluate_fsms e kind label (before_fsms e kind label s) else s)"

text \<open>One turn of the loop, and the start of \<open>run\<close>.\<close>

definition turn :: "'p env \<Rightarrow> event \<Rightarrow> 'p sys \<Rightarrow> 'p sys" where
  "turn e ev s = sync_waybar (dispatch e ev s)"

definition start :: "'p env \<Rightarrow> 'p sys \<Rightarrow> 'p sys" where
  "start e s =
     (let s = emit BindTelemetry s;
          s = s\<lparr>state := world_state (world s)\<rparr>;
          s = snd (on_enter e (state s) Fresh s);
          (chosen, s) = chosen_profile e s;
          ((mode, _), s) = resolve_session_gpu_mode e (gpu_pref_of chosen) s;
          s = sync_dgpu_pin e (dgpu_runtime_pm_pinned mode) s;
          s = sync_waybar s
      in request_reconcile Startup (kbd_policy_check e True s))"

end
