(* ===== verification/DispatcherLaws.thy ===== *)
theory DispatcherLaws
  imports Dispatcher
begin

text \<open>
  The handlers of \<open>Dispatcher\<close> against the trace contract, and what each of them may change
  of the main machine's inputs and state.
\<close>

section \<open>Entering a state\<close>

lemma live_locker_log: "log (snd (live_locker e s)) = log s @ [LiveLocker (fst (live_locker e s))]"
  by (simp add: live_locker_def Let_def split_beta)

lemma law_proved_suspend:
  assumes "law.extends s t" "fst (live_locker e t)"
  shows "law.extends s (snd (do_suspend e (snd (live_locker e t))))"
proof -
  let ?t = "snd (live_locker e t)"
  have c: "law_cond ?t = law_cond t" by (rule law_cond_view) (rule fsm_view_live_locker)
  have sh: "shadow ?t = shadow t" using fsm_viewD(6) [OF fsm_view_live_locker] .
  have "law.extends t (snd (do_suspend e ?t))"
    using assms(2) c sh live_locker_log [of e t]
    by (auto simp: law.extends_def do_suspend_def Let_def split_beta lawful_def law_cond_def)
  with assms(1) show ?thesis by (rule law.extends_trans)
qed

lemma fsm_view_do_suspend [frame_simps]: "fsm_view (snd (do_suspend e s)) = fsm_view s"
  by (simp add: do_suspend_def Let_def split_beta frame_simps)

lemma fsm_view_suspending_tail [frame_simps]: "fsm_view (snd (suspending_tail e s)) = fsm_view s"
  by (simp add: suspending_tail_def Let_def split_beta frame_simps)

lemma law_suspending_tail [law_intros]:
  "law.extends s t \<Longrightarrow> law.extends s (snd (suspending_tail e t))"
  by (auto simp: suspending_tail_def Let_def split_beta intro!: law_proved_suspend law_intros)

lemma fsm_view_on_enter [frame_simps]: "fsm_view (snd (on_enter e st en s)) = fsm_view s"
  by (simp add: on_enter_def Let_def frame_simps split: fsm_state.split)

lemma law_on_enter [law_intros]: "law.extends s t \<Longrightarrow> law.extends s (snd (on_enter e st en t))"
  by (auto simp: on_enter_def Let_def intro!: law_intros split: fsm_state.split)

lemma on_enter_ordinary: "st \<noteq> fsm_state.Suspending \<Longrightarrow> fst (on_enter e st en s)"
  by (cases st) (simp_all add: on_enter_def Let_def)

lemma law_refresh_wayland_claim [law_intros]:
  "law.extends s t \<Longrightarrow> law.extends s (refresh_wayland_claim e t)"
  by (simp add: refresh_wayland_claim_def wayland_idle_inhibited_def Let_def split_beta
      split: option.split)

section \<open>Battery-low requests\<close>

lemma fsm_view_request_file [frame_simps]:
  "fsm_view (snd (request_suspend e s)) = fsm_view s"
  "fsm_view (snd (clear_battery_low_request e s)) = fsm_view s"
  by (simp_all add: request_suspend_def clear_battery_low_request_def Let_def split_beta frame_simps
      split: option.split)

lemma law_request_file [law_intros]:
  "law.extends s t \<Longrightarrow> law.extends s (snd (request_suspend e t))"
  "law.extends s t \<Longrightarrow> law.extends s (snd (clear_battery_low_request e t))"
  by (auto simp: request_suspend_def clear_battery_low_request_def Let_def split_beta
      intro!: law_intros split: option.split)

lemma law_battery_low_request_check [law_intros]:
  "law.extends s t \<Longrightarrow> law.extends s (snd (battery_low_request_check e t))"
  by (auto simp: battery_low_request_check_def Let_def split_beta intro!: law_intros
      split: battery_low_act.split)

lemma battery_low_check_fields:
  assumes "t = snd (battery_low_request_check e s)"
  shows "state t = state s" "on_ac t = on_ac s" "on_ac_settled t = on_ac_settled s"
    "low_battery t = low_battery s" "ext_mon_count t = ext_mon_count s" "locked t = locked s"
    "lid_closed t = lid_closed s" "shadow t = shadow s"
  using assms fsm_viewD [OF fsm_view_request_file(1), of e s]
    fsm_viewD [OF fsm_view_request_file(2), of e s]
  by (simp_all add: battery_low_request_check_def Let_def split_beta split: battery_low_act.split)

section \<open>The main machine\<close>

lemma law_state_update [simp]: "law.extends s (t\<lparr>state := v\<rparr>) = law.extends s t"
  by (simp add: law.extends_def law_cond_def)

lemma law_evaluate_fsms [law_intros]:
  "law.extends s t \<Longrightarrow> law.extends s (evaluate_fsms e k l t)"
  by (auto simp: evaluate_fsms_def Let_def split_beta intro!: law_intros split: option.split)

lemma world_state_update [simp]: "world (s\<lparr>state := v\<rparr>) = world s"
  by (simp add: world_def inhibitor_def)

lemma world_emit [simp]: "world (emit x s) = world s"
  by (simp add: world_def inhibitor_def)

lemmas on_enter_fields = fsm_viewD [OF fsm_view_on_enter]
lemmas start_grace_fields = fsm_viewD [OF fsm_view_start_grace_timer]

lemma world_evaluate_fsms: "world (evaluate_fsms e k l s) = world s"
  by (simp add: on_enter_fields start_grace_fields evaluate_fsms_def Let_def split_beta split: option.split)

text \<open>The state the daemon is in afterwards: what the machine asks for, except that entering
  \<open>Suspending\<close> takes a completed suspend.\<close>

lemma state_evaluate_fsms:
  "state (evaluate_fsms e k l s) =
     (case desired_state (state s) k (world s) of
        None \<Rightarrow> state s
      | Some new \<Rightarrow>
          if new = fsm_state.Suspending \<and> state s \<noteq> new
             \<and> \<not> fst (on_enter e new Fresh (emit (Transition (state s) new l) s))
          then state s else new)"
  by (simp add: on_enter_fields start_grace_fields evaluate_fsms_def Let_def split_beta split: option.split)

lemma shadow_evaluate_fsms: "shadow (evaluate_fsms e k l s) = shadow s"
  using law.extends_cond [OF law_evaluate_fsms [OF law_self, of s e k l]] by (simp add: law_cond_def)

section \<open>Monitor changes and reconcile passes\<close>

lemma snd_chosen_profile [simp]: "snd (chosen_profile e s) = emit RenderProfiles (s\<lparr>tick := Suc (Suc (tick s))\<rparr>)"
  by (simp add: chosen_profile_def monitor_signature_def Let_def split_beta)

lemma fsm_view_handle_monitors_changed [frame_simps]:
  "fsm_view (handle_monitors_changed e s) = fsm_view s"
  by (simp add: handle_monitors_changed_def Let_def split_beta frame_simps split: option.split)

lemma law_handle_monitors_changed [law_intros]:
  "law.extends s t \<Longrightarrow> law.extends s (handle_monitors_changed e t)"
  by (auto simp: handle_monitors_changed_def Let_def split_beta intro!: law_intros split: option.split)

lemma law_repair_parts [law_intros]:
  "law.extends s t \<Longrightarrow> law.extends s (snd (repair_lid snap t))"
  "law.extends s t \<Longrightarrow> law.extends s (snd (repair_request t))"
  "law.extends s t \<Longrightarrow> law.extends s (snd (repair_claims snap t))"
  "law.extends s t \<Longrightarrow> law.extends s (snd (repair_lock snap t))"
  "law.extends s t \<Longrightarrow> law.extends s (snd (repair_ac snap t))"
  by (auto simp: repair_lid_def repair_request_def repair_claims_def repair_lock_def repair_ac_def
      Let_def intro!: law_intros split: option.split)

lemma repair_ext_mon_ext: "ext_mon_count (snd (repair_ext_mon snap s)) = rs_ext_mon_count snap"
  by (simp add: repair_ext_mon_def fsm_viewD(8) [OF fsm_view_schedule_profile_reconcile])

lemma law_repair_ext_mon:
  "law.extends (s\<lparr>ext_mon_count := n\<rparr>) (t\<lparr>ext_mon_count := n\<rparr>) \<Longrightarrow> n = rs_ext_mon_count snap
     \<Longrightarrow> law.extends (s\<lparr>ext_mon_count := n\<rparr>) (snd (repair_ext_mon snap t))"
  by (auto simp: repair_ext_mon_def intro!: law_intros)

lemma law_with_ext:
  "law.extends s t \<Longrightarrow> log t = log s
     \<Longrightarrow> law.extends (s\<lparr>ext_mon_count := n\<rparr>) (t\<lparr>ext_mon_count := n\<rparr>)"
  by (auto simp: law.extends_def law_cond_def lawful_def)

lemma law_repair_snapshot:
  "law.extends (s\<lparr>ext_mon_count := rs_ext_mon_count snap\<rparr>) (snd (snd (repair_snapshot snap s)))"
proof -
  let ?u = "snd (repair_request (snd (repair_lid snap s)))"
  have "law.extends s ?u" by (intro law_intros)
  moreover have "log ?u = log s" by (simp add: repair_request_def repair_lid_def Let_def)
  ultimately have "law.extends (s\<lparr>ext_mon_count := rs_ext_mon_count snap\<rparr>) (snd (repair_ext_mon snap ?u))"
    by (intro law_repair_ext_mon law_with_ext) simp_all
  then show ?thesis
    by (auto simp: repair_snapshot_def Let_def split_beta intro!: law_intros)
qed

lemma law_reassert_edp [law_intros]: "law.extends s t \<Longrightarrow> law.extends s (reassert_edp e snap t)"
  by (auto simp: reassert_edp_def intro!: law_intros split: option.split)

lemma law_stuck_dpms_backstop [law_intros]:
  "law.extends s t \<Longrightarrow> law.extends s (stuck_dpms_backstop e snap t)"
  by (auto simp: stuck_dpms_backstop_def Let_def intro!: law_intros split: option.split)

lemma law_repair_power [law_intros]: "law.extends s t \<Longrightarrow> law.extends s (repair_power e t)"
  by (auto simp: repair_power_def intro!: law_intros)

lemma law_handle_reconcile_tick:
  "law.extends (s\<lparr>ext_mon_count := rs_ext_mon_count snap\<rparr>) (handle_reconcile_tick e snap s)"
  using law_repair_snapshot [of snap s]
  by (auto simp: handle_reconcile_tick_def Let_def split_beta intro!: law_intros)

section \<open>Routing\<close>

lemma law_reassert_state [law_intros]: "law.extends s t \<Longrightarrow> law.extends s (reassert_state e t)"
  by (auto simp: reassert_state_def Let_def intro!: law_intros)

lemma law_small_handlers [law_intros]:
  "law.extends s t \<Longrightarrow> law.extends s (ingest_override w t)"
  "law.extends s t \<Longrightarrow> law.extends s (handle_platform_profile e v t)"
  "law.extends s t \<Longrightarrow> law.extends s (snd (handle_battery_percent e pct t))"
  "law.extends s t \<Longrightarrow> law.extends s (snd (handle_ac_changed e ac t))"
  "law.extends s t \<Longrightarrow> law.extends s (handle_powerd_appeared t)"
  by (auto simp: ingest_override_def handle_platform_profile_def handle_battery_percent_def
      handle_ac_changed_def handle_powerd_appeared_def Let_def split_beta
      intro!: law_intros split: option.split)

text \<open>The monitor count an event leaves: the only event-driven input of the contract.\<close>

definition ext_after :: "'p env \<Rightarrow> event \<Rightarrow> 'p sys \<Rightarrow> u32" where
  "ext_after e ev s = (case ev of
       MonitorHotplug _ _ \<Rightarrow> fst (ext_monitor_count e (ext_mon_count s) s)
     | ReconcileTick snap \<Rightarrow> rs_ext_mon_count snap
     | _ \<Rightarrow> ext_mon_count s)"

lemma law_route_event:
  "law.extends (s\<lparr>ext_mon_count := ext_after e ev s\<rparr>) (snd (route_event e ev s))"
proof (cases ev)
  case (MonitorHotplug added name)
  have "law.extends (s\<lparr>ext_mon_count := n\<rparr>) (s\<lparr>tick := k, ext_mon_count := n\<rparr>)" for n k
    by (simp add: law.extends_def law_cond_def lawful_def)
  then show ?thesis
    using MonitorHotplug
    by (auto simp: route_event_def ext_after_def ext_monitor_count_def Let_def split_beta
        intro!: law_intros)
next
  case (ReconcileTick snap)
  then show ?thesis using law_handle_reconcile_tick by (simp add: route_event_def ext_after_def)
qed (auto simp: route_event_def ext_after_def Let_def split_beta intro!: law_intros
      intro: law_self)

lemma law_advise_gpu [law_intros]: "law.extends s t \<Longrightarrow> law.extends s (advise_gpu e l t)"
  by (auto simp: advise_gpu_def Let_def split_beta intro!: law_intros)

lemma fsm_view_advise_gpu [frame_simps]: "fsm_view (advise_gpu e l s) = fsm_view s"
  by (simp add: advise_gpu_def Let_def split_beta frame_simps)

lemma fsm_view_before_fsms [frame_simps]: "fsm_view (before_fsms e k l s) = fsm_view s"
  by (simp add: before_fsms_def Let_def frame_simps)

lemma law_before_fsms [law_intros]: "law.extends s t \<Longrightarrow> law.extends s (before_fsms e k l t)"
  by (auto simp: before_fsms_def Let_def intro!: law_intros)

lemma law_dispatch:
  "law.extends (s\<lparr>ext_mon_count := ext_after e ev s\<rparr>) (dispatch e ev s)"
  using law_route_event [of e ev s]
  by (auto simp: dispatch_def Let_def split_beta intro!: law_intros)

lemma law_turn: "law.extends (s\<lparr>ext_mon_count := ext_after e ev s\<rparr>) (turn e ev s)"
  unfolding turn_def by (intro law_intros law_dispatch)

lemma law_start: "law.extends s (start e s)"
  by (auto simp: start_def Let_def split_beta intro!: law_intros)

text \<open>The same, unfolded for the properties: the effects of one turn are lawful for the
  monitor count the turn leaves.\<close>

lemma turn_trace:
  "\<exists>es. log (turn e ev s) = log s @ es
     \<and> lawful (shadow s, has_session s, ext_mon_count (turn e ev s)) es"
proof -
  from law.extends_cond [OF law_turn, of e ev s]
  have "ext_mon_count (turn e ev s) = ext_after e ev s"
    by (simp add: law_cond_def)
  then show ?thesis using law.extends_log [OF law_turn, of e ev s] by (simp add: law_cond_def)
qed

lemma turn_static: "shadow (turn e ev s) = shadow s \<and> has_session (turn e ev s) = has_session s"
  using law.extends_cond [OF law_turn, of e ev s] by (simp add: law_cond_def)

lemma start_trace:
  "\<exists>es. log (start e s) = log s @ es \<and> lawful (shadow s, has_session s, ext_mon_count s) es"
  using law.extends_log [OF law_start, of e s] by (simp add: law_cond_def)

end
