(* ===== verification/Timers.thy ===== *)
theory Timers
  imports DispatcherLaws
begin

text \<open>
  The grace timer through the handlers: which operations leave it alone (\<open>timer_frame\<close>), and
  that every turn of the dispatcher leaves a timer exactly where the state wants one or touches
  neither.
\<close>

section \<open>What leaves the grace timer alone\<close>

named_theorems timer_frame \<open>operations that keep the grace timer\<close>

lemma timer_queries [timer_frame]:
  "grace_timer (snd (ask q s)) = grace_timer s" "grace_timer (send_cmd e c s) = grace_timer s"
  by (simp_all add: send_cmd_def Let_def split_beta)

lemma timer_panel [timer_frame]:
  "grace_timer (set_edp e on s) = grace_timer s" "grace_timer (dpms_on e s) = grace_timer s"
  "grace_timer (rehome_edp_workspaces e s) = grace_timer s"
  "grace_timer (pause_media e s) = grace_timer s" "grace_timer (notify_power e n s) = grace_timer s"
  "grace_timer (notify_gpu_drift e ds r tg s) = grace_timer s"
  "grace_timer (request_reconcile k s) = grace_timer s"
  by (simp_all add: set_edp_def dpms_on_def rehome_edp_workspaces_def pause_media_def
      notify_power_def notify_gpu_drift_def request_reconcile_def Let_def timer_frame)

lemma timer_other_timers [timer_frame]:
  "grace_timer (start_claim_watch s) = grace_timer s"
  "grace_timer (cancel_claim_watch s) = grace_timer s"
  "grace_timer (schedule_profile_reconcile s) = grace_timer s"
  "grace_timer (schedule_power_settle s) = grace_timer s"
  by (simp_all add: start_claim_watch_def cancel_claim_watch_def schedule_profile_reconcile_def
      schedule_power_settle_def Let_def split: option.split)

lemma timer_run_hooks [timer_frame]: "grace_timer (run_hooks e hs s) = grace_timer s"
  unfolding run_hooks_def by (induction hs arbitrary: s) (simp_all add: timer_frame)

lemma timer_profiles [timer_frame]:
  "grace_timer (record_profile p s) = grace_timer s"
  "grace_timer (write_gpu_breadcrumb e v s) = grace_timer s"
  "grace_timer (snd (ingest_active_profile e s)) = grace_timer s"
  by (simp_all add: record_profile_def write_gpu_breadcrumb_def ingest_active_profile_def
      active_profile_name_def Let_def split_beta split: option.split)

lemma timer_apply_profile [timer_frame]: "grace_timer (apply_profile e p s) = grace_timer s"
  by (simp add: apply_profile_def link_same_def Let_def split_beta timer_frame split: option.split)

lemma timer_power [timer_frame]:
  "grace_timer (sync_waybar s) = grace_timer s" "grace_timer (powerd_lost s) = grace_timer s"
  "grace_timer (clear_power_override e s) = grace_timer s"
  by (simp_all add: sync_waybar_def powerd_lost_def clear_power_override_def Let_def split_beta
      split: option.split)

lemma timer_powerd [timer_frame]:
  "grace_timer (apply_power_profile e p s) = grace_timer s"
  "grace_timer (sync_dgpu_pin e b s) = grace_timer s"
  "grace_timer (adopt_power_override e p s) = grace_timer s"
  by (simp_all add: apply_power_profile_def sync_dgpu_pin_def adopt_power_override_def Let_def
      split_beta timer_frame)

lemma timer_request_file [timer_frame]:
  "grace_timer (snd (request_suspend e s)) = grace_timer s"
  "grace_timer (snd (clear_battery_low_request e s)) = grace_timer s"
  "grace_timer (clear_suspend_request e s) = grace_timer s"
  by (simp_all add: request_suspend_def clear_battery_low_request_def clear_suspend_request_def
      Let_def split_beta split: option.split)

lemma timer_brightness_io [timer_frame]:
  "grace_timer (snd (brightness_read e s)) = grace_timer s"
  "grace_timer (brightness_write e v s) = grace_timer s"
  by (simp_all add: brightness_read_def brightness_write_def Let_def split_beta split: option.split)

lemma timer_brightness [timer_frame]:
  "grace_timer (snd (brightness_user_took_over e s)) = grace_timer s"
  "grace_timer (brightness_yield e s) = grace_timer s"
  "grace_timer (brightness_rearm e s) = grace_timer s"
  by (simp_all add: brightness_user_took_over_def brightness_yield_def brightness_rearm_def Let_def
      split_beta timer_frame split: option.split)

lemma timer_brightness_caps [timer_frame]:
  "grace_timer (brightness_save_and_cap e d s) = grace_timer s"
  "grace_timer (brightness_cap e d s) = grace_timer s"
  "grace_timer (brightness_restore e s) = grace_timer s"
  by (simp_all add: brightness_save_and_cap_def brightness_cap_def brightness_restore_def Let_def
      split_beta timer_frame split: option.split)

lemma timer_kbd [timer_frame]:
  "grace_timer (kbd_set e pct s) = grace_timer s"
  "grace_timer (kbd_release_override e s) = grace_timer s"
  "grace_timer (kbd_write_status e lit s) = grace_timer s"
  "grace_timer (sample_lux e s) = grace_timer s"
  by (simp_all add: kbd_set_def kbd_release_override_def kbd_write_status_def sample_lux_def
      Let_def split_beta split: option.split)

lemma timer_kbd_policy [timer_frame]:
  "grace_timer (kbd_policy_check e b s) = grace_timer s"
  "grace_timer (discover_kbd e s) = grace_timer s"
  "grace_timer (discover_backlight e s) = grace_timer s"
  by (simp_all add: kbd_policy_check_def discover_kbd_def discover_backlight_def Let_def split_beta
      timer_frame)

lemma timer_policy_parts [timer_frame]:
  "grace_timer (check_override e b s) = grace_timer s"
  "grace_timer (brightness_edges e p b s) = grace_timer s"
  by (simp_all add: check_override_def brightness_edges_def Let_def timer_frame split: option.split)

lemma timer_policy [timer_frame]: "grace_timer (power_policy_check e s) = grace_timer s"
  by (simp add: power_policy_check_def Let_def timer_frame)

lemma timer_gpu_parts [timer_frame]:
  "grace_timer (resolve_gpu_actual e s) = grace_timer s"
  "grace_timer (notify_if_new e tg d r s) = grace_timer s"
  by (simp_all add: resolve_gpu_actual_def notify_if_new_def Let_def split_beta timer_frame
      split: option.split)

lemma timer_gpu [timer_frame]:
  "grace_timer (check_and_notify_drift e tg m src s) = grace_timer s"
  "grace_timer (snd (gpu_drift_check e tg p s)) = grace_timer s"
  by (simp_all add: check_and_notify_drift_def gpu_drift_check_def Let_def split_beta timer_frame
      split: option.split)

lemma timer_lock [timer_frame]:
  "grace_timer (request_lock e s) = grace_timer s"
  "grace_timer (snd (live_locker e s)) = grace_timer s"
  "grace_timer (snd (do_suspend e s)) = grace_timer s"
  by (simp_all add: request_lock_def live_locker_def do_suspend_def Let_def split_beta)

lemma timer_handlers [timer_frame]:
  "grace_timer (handle_monitors_changed e s) = grace_timer s"
  "grace_timer (snd (battery_low_request_check e s)) = grace_timer s"
  "grace_timer (before_fsms e k l s) = grace_timer s"
  "grace_timer (refresh_wayland_claim e s) = grace_timer s"
  by (simp_all add: handle_monitors_changed_def battery_low_request_check_def before_fsms_def
      advise_gpu_def refresh_wayland_claim_def wayland_idle_inhibited_def Let_def split_beta
      timer_frame split: option.split battery_low_act.split)

section \<open>The grace timer belongs to Countdown\<close>

lemma running_start_grace: "running (grace_timer (start_grace_timer fresh s))"
  by (simp add: start_grace_timer_def Let_def running_def)

lemma cancelled_grace: "grace_timer (cancel_grace_timer s) = None"
  by (simp add: cancel_grace_timer_def split: option.split)

lemma timer_suspending_tail [timer_frame]:
  "grace_timer (snd (suspending_tail e s)) = grace_timer s"
  by (simp add: suspending_tail_def wait_for_lock_def Let_def split_beta timer_frame)

lemma on_enter_grace:
  "if st = fsm_state.Countdown then running (grace_timer (snd (on_enter e st en s)))
   else grace_timer (snd (on_enter e st en s)) = None"
  by (cases st) (simp_all add: on_enter_def Let_def timer_frame running_start_grace cancelled_grace)

text \<open>A timer stands where a state wants one: a running one in \<open>Countdown\<close> (or one that has
  fired), none elsewhere.\<close>

definition timed :: "'p sys \<Rightarrow> bool" where
  "timed s \<longleftrightarrow> (if state s = fsm_state.Countdown then running (grace_timer s) else grace_timer s = None)"

definition same_timer :: "'p sys \<Rightarrow> 'p sys \<Rightarrow> bool" where
  "same_timer s s' \<longleftrightarrow> state s' = state s \<and> grace_timer s' = grace_timer s"

lemma same_timer_trans: "same_timer s t \<Longrightarrow> same_timer t u \<Longrightarrow> same_timer s u"
  by (simp add: same_timer_def)

lemma timed_on_enter: "state s = st \<Longrightarrow> timed (snd (on_enter e st en s))"
  using on_enter_grace [of st e en s] by (simp add: timed_def on_enter_fields)

lemma timed_evaluate_fsms:
  "timed (evaluate_fsms e k l s)
     \<or> (same_timer s (evaluate_fsms e k l s) \<and> \<not> (state s = fsm_state.Countdown \<and> k = event_kind.TimerExpired))"
proof (cases "desired_state (state s) k (world s)")
  case None
  then show ?thesis
    using main_fsm.fire_src [of "world s"] by (auto simp: evaluate_fsms_def same_timer_def)
next
  case (Some new)
  show ?thesis
  proof (cases "new = state s")
    case True
    with Some show ?thesis
      by (auto simp: evaluate_fsms_def same_timer_def desired_state_def Let_def world_state_def
          split: if_splits)
  next
    case False
    let ?s = "emit (Transition (state s) new l) s"
    have susp: "new = fsm_state.Suspending \<Longrightarrow> state s = fsm_state.Countdown"
      using main_fsm.nxt_commit Some by blast
    show ?thesis
    proof (cases "new = fsm_state.Suspending")
      case True
      have "grace_timer (snd (on_enter e new Fresh ?s)) = None"
        using on_enter_grace [of new e Fresh ?s] True by simp
      then show ?thesis
        using Some False True susp
        by (auto simp: evaluate_fsms_def Let_def split_beta timed_def running_start_grace
            start_grace_fields on_enter_fields)
    next
      case other: False
      have "timed (snd (on_enter e new Fresh (?s\<lparr>state := new\<rparr>)))"
        by (intro timed_on_enter) simp
      with Some False other show ?thesis by (simp add: evaluate_fsms_def Let_def)
    qed
  qed
qed

text \<open>What one turn does to state and timer: it keeps both, or leaves a timer where one belongs;
  an expiry taken in \<open>Countdown\<close> never just keeps them.\<close>

lemma same_timer_view:
  "fsm_view t = fsm_view s \<Longrightarrow> grace_timer t = grace_timer s \<Longrightarrow> same_timer s t"
  using fsm_viewD(1) [of t s] by (simp add: same_timer_def)

lemma state_battery_check: "state (snd (battery_low_request_check e s)) = state s"
  by (rule battery_low_check_fields) simp

lemma same_timer_repairs:
  "same_timer s t \<Longrightarrow> same_timer s (snd (repair_lid snap t))"
  "same_timer s t \<Longrightarrow> same_timer s (snd (repair_request t))"
  "same_timer s t \<Longrightarrow> same_timer s (snd (repair_ext_mon snap t))"
  "same_timer s t \<Longrightarrow> same_timer s (snd (repair_claims snap t))"
  "same_timer s t \<Longrightarrow> same_timer s (snd (repair_lock snap t))"
  "same_timer s t \<Longrightarrow> same_timer s (snd (repair_ac snap t))"
  by (auto simp: same_timer_def repair_lid_def repair_request_def repair_ext_mon_def
      repair_claims_def repair_lock_def repair_ac_def Let_def timer_frame
      fsm_viewD(1) [OF fsm_view_schedule_profile_reconcile] split: option.split)

lemma same_timer_refl: "same_timer s s"
  by (simp add: same_timer_def)

lemma state_repair_snapshot: "same_timer s (snd (snd (repair_snapshot snap s)))"
  unfolding repair_snapshot_def Let_def split_beta snd_conv
  by (intro same_timer_repairs same_timer_refl)

lemma same_timer_repair_power: "same_timer s (repair_power e s)"
  by (simp add: same_timer_def repair_power_def state_battery_check timer_frame
      fsm_viewD(1) [OF fsm_view_power_policy_check])

lemma same_timer_tail:
  "same_timer s (stuck_dpms_backstop e snap (reassert_edp e snap (snd (ingest_active_profile e s))))"
proof -
  have "fsm_view (reassert_edp e snap t) = fsm_view t" "grace_timer (reassert_edp e snap t) = grace_timer t" for t
    by (simp_all add: reassert_edp_def frame_simps timer_frame split: option.split)
  moreover have "fsm_view (stuck_dpms_backstop e snap t) = fsm_view t"
    "grace_timer (stuck_dpms_backstop e snap t) = grace_timer t" for t
    by (simp_all add: stuck_dpms_backstop_def Let_def frame_simps timer_frame split: option.split)
  ultimately show ?thesis by (intro same_timer_view) (simp_all add: frame_simps timer_frame)
qed

lemma timed_same: "same_timer s t \<Longrightarrow> timed s \<Longrightarrow> timed t"
  by (simp add: same_timer_def timed_def)

lemma timed_reconcile_tick:
  "timed (handle_reconcile_tick e snap s) \<or> same_timer s (handle_reconcile_tick e snap s)"
proof -
  let ?d = "repair_snapshot snap s"
  let ?p = "if fst (snd ?d) then repair_power e (snd (snd ?d)) else snd (snd ?d)"
  let ?f = "if fst ?d then evaluate_fsms e event_kind.CtxRepaired ''CtxRepaired'' ?p else ?p"
  let ?r = "handle_reconcile_tick e snap s"
  have "same_timer s ?p"
    using same_timer_trans [OF state_repair_snapshot same_timer_repair_power] state_repair_snapshot
    by auto
  moreover have "timed ?f \<or> same_timer ?p ?f"
    using timed_evaluate_fsms [of e event_kind.CtxRepaired "''CtxRepaired''" ?p]
    by (cases "fst ?d") (auto simp: same_timer_def)
  ultimately have f: "timed ?f \<or> same_timer s ?f" using same_timer_trans by blast
  have "same_timer ?f ?r"
    using same_timer_tail [of ?f e snap]
    by (auto simp: handle_reconcile_tick_def Let_def split_beta same_timer_def)
  with f show ?thesis using timed_same same_timer_trans by blast
qed

definition reasserts :: "event \<Rightarrow> bool" where
  "reasserts ev = (case ev of ConfigReloaded \<Rightarrow> True | ProfileApplied \<Rightarrow> True | _ \<Rightarrow> False)"

definition is_tick :: "event \<Rightarrow> bool" where
  "is_tick ev = (case ev of ReconcileTick _ \<Rightarrow> True | _ \<Rightarrow> False)"

lemma timed_reassert_state:
  "timed (reassert_state e s) \<or> same_timer s (reassert_state e s)"
  using timed_on_enter [of "snd (ingest_active_profile e s)" "state s" e Reassert]
  by (simp add: reassert_state_def Let_def same_timer_def
      fsm_viewD(1) [OF fsm_view_ingest_active_profile])

lemma state_kbd_policy_check [simp]: "state (kbd_policy_check e b s) = state s"
  using fsm_viewD(1) [OF fsm_view_kbd_policy_check] .

lemma state_views [simp]:
  "state (snd (kbd_policy_check e b s, t)) = state t"
  "state (request_reconcile k s) = state s"
  "state (schedule_profile_reconcile s) = state s" "state (schedule_power_settle s) = state s"
  "state (discover_kbd e s) = state s" "state (discover_backlight e s) = state s"
  "state (kbd_release_override e s) = state s" "state (clear_suspend_request e s) = state s"
  "state (adopt_power_override e p s) = state s" "state (power_policy_check e s) = state s"
  "state (handle_monitors_changed e s) = state s"
  using fsm_viewD(1) [OF fsm_view_request_reconcile] fsm_viewD(1) [OF fsm_view_schedule_profile_reconcile]
    fsm_viewD(1) [OF fsm_view_schedule_power_settle] fsm_viewD(1) [OF fsm_view_discover(2)]
    fsm_viewD(1) [OF fsm_view_discover(1)] fsm_viewD(1) [OF fsm_view_kbd_release_override]
    fsm_viewD(1) [OF fsm_view_clear_suspend_request] fsm_viewD(1) [OF fsm_view_adopt_power_override]
    fsm_viewD(1) [OF fsm_view_power_policy_check] fsm_viewD(1) [OF fsm_view_handle_monitors_changed]
  by simp_all

lemma state_refresh_wayland_claim [simp]: "state (refresh_wayland_claim e s) = state s"
  by (simp add: refresh_wayland_claim_def wayland_idle_inhibited_def Let_def split_beta split: option.split)

lemma same_timer_route:
  "\<not> reasserts ev \<Longrightarrow> \<not> is_tick ev \<Longrightarrow> same_timer s (snd (route_event e ev s))"
  by (cases ev) (simp_all add: same_timer_def route_event_def reasserts_def is_tick_def Let_def
      split_beta timer_frame state_battery_check ext_monitor_count_def ingest_override_def
      handle_platform_profile_def handle_battery_percent_def handle_ac_changed_def
      handle_powerd_appeared_def split: option.split)

lemma timed_route:
  "timed (snd (route_event e ev s)) \<or> same_timer s (snd (route_event e ev s))"
proof (cases "reasserts ev \<or> is_tick ev")
  case True
  then show ?thesis
    using timed_reassert_state [of e s] timed_reconcile_tick [of e _ s]
    by (cases ev) (auto simp: reasserts_def is_tick_def route_event_def same_timer_def timed_def timer_frame)
next
  case False
  then show ?thesis using same_timer_route by blast
qed

lemma same_timer_before_fsms: "same_timer s (before_fsms e k l s)"
  by (intro same_timer_view) (simp_all add: frame_simps timer_frame)

lemma same_timer_sync_waybar: "same_timer s (sync_waybar s)"
  by (intro same_timer_view) (simp_all add: frame_simps timer_frame)

lemma timed_falls:
  "timed (evaluate_fsms e k l (before_fsms e k l s))
     \<or> (same_timer s (evaluate_fsms e k l (before_fsms e k l s))
        \<and> \<not> (state s = fsm_state.Countdown \<and> k = event_kind.TimerExpired))"
  using timed_evaluate_fsms [of e k l "before_fsms e k l s"] same_timer_before_fsms [of s e k l]
  by (auto simp: same_timer_def)

lemma falls_timer_expired: "fst (route_event e event.TimerExpired s)"
  by (simp add: route_event_def)

lemma timed_dispatch:
  "timed (dispatch e ev s)
     \<or> (same_timer s (dispatch e ev s) \<and> \<not> (state s = fsm_state.Countdown \<and> ev = event.TimerExpired))"
proof -
  let ?r = "route_event e ev s"
  let ?k = "event_kind_of ev" and ?l = "event_label ev"
  have r: "timed (snd ?r) \<or> same_timer s (snd ?r)" by (rule timed_route)
  show ?thesis
  proof (cases "fst ?r")
    case False
    then have "ev \<noteq> event.TimerExpired" using falls_timer_expired by metis
    with r False show ?thesis by (simp add: dispatch_def Let_def split_beta)
  next
    case True
    have d: "dispatch e ev s = evaluate_fsms e ?k ?l (before_fsms e ?k ?l (snd ?r))"
      using True by (simp add: dispatch_def Let_def split_beta)
    have "ev = event.TimerExpired \<Longrightarrow> same_timer s (snd ?r)"
      by (intro same_timer_route) (simp_all add: reasserts_def is_tick_def)
    then show ?thesis
      using timed_falls [of e ?k ?l "snd ?r"] r timed_same same_timer_trans
      unfolding d by (auto simp: same_timer_def)
  qed
qed

lemma timed_turn:
  "timed (turn e ev s)
     \<or> (same_timer s (turn e ev s) \<and> \<not> (state s = fsm_state.Countdown \<and> ev = event.TimerExpired))"
proof -
  have w: "same_timer (dispatch e ev s) (turn e ev s)"
    unfolding turn_def by (rule same_timer_sync_waybar)
  from timed_dispatch [of e ev s] show ?thesis
  proof (elim disjE conjE)
    assume "timed (dispatch e ev s)"
    with w show ?thesis using timed_same by blast
  next
    assume "same_timer s (dispatch e ev s)" "\<not> (state s = fsm_state.Countdown \<and> ev = event.TimerExpired)"
    with w show ?thesis using same_timer_trans by blast
  qed
qed

lemma timed_start: "timed (start e s)"
proof -
  let ?t = "emit BindTelemetry (s\<lparr>state := world_state (world s)\<rparr>)"
  have "timed (snd (on_enter e (world_state (world s)) Fresh ?t))"
    by (intro timed_on_enter) simp
  moreover have "same_timer (snd (on_enter e (world_state (world s)) Fresh ?t)) (start e s)"
    by (intro same_timer_view)
      (simp_all add: start_def Let_def split_beta frame_simps timer_frame)
  ultimately show ?thesis using timed_same by blast
qed

end
