(* ===== verification/Machine.thy ===== *)
theory Machine
  imports Timers
begin

text \<open>
  The daemon as it runs: the dispatcher's state with the event queue in front of it. A source
  appends an event, the grace timer appends \<open>TimerExpired\<close> when its sleep is over, the loop
  takes the oldest event and handles it, and other processes rewrite the files between two
  turns. The facts here are invariants of every run from the daemon's start.
\<close>

section \<open>Runs\<close>

text \<open>A spawned sleep that is over. The event it sends is queued in the same step.\<close>

definition slept :: "task option \<Rightarrow> task option" where
  "slept t = map_option (\<lambda>h. Task (task_delay h) True) t"

inductive run :: "'p env \<Rightarrow> 'p sys \<Rightarrow> 'p sys \<Rightarrow> event list \<Rightarrow> bool" for e s0 where
  run_start: "event.TimerExpired \<notin> set q \<Longrightarrow> run e s0 (start e s0) q"
| run_source: "run e s0 s q \<Longrightarrow> ev \<noteq> event.TimerExpired \<Longrightarrow> run e s0 s (q @ [ev])"
| run_expire: "run e s0 s q \<Longrightarrow> running (grace_timer s)
    \<Longrightarrow> run e s0 (s\<lparr>grace_timer := slept (grace_timer s)\<rparr>) (q @ [event.TimerExpired])"
| run_profile_debounce: "run e s0 s q \<Longrightarrow> running (profile_debounce s)
    \<Longrightarrow> run e s0 (s\<lparr>profile_debounce := slept (profile_debounce s)\<rparr>) (q @ [event.MonitorsChanged])"
| run_power_debounce: "run e s0 s q \<Longrightarrow> running (power_debounce s)
    \<Longrightarrow> run e s0 (s\<lparr>power_debounce := slept (power_debounce s)\<rparr>) (q @ [event.PowerAcSettled])"
| run_claim_watch: "run e s0 s q \<Longrightarrow> running (claim_watch s)
    \<Longrightarrow> run e s0 (s\<lparr>claim_watch := slept (claim_watch s)\<rparr>) (q @ [Inhibitor True False])"
| run_outside: "run e s0 s q \<Longrightarrow> tick s \<le> t
    \<Longrightarrow> run e s0 (s\<lparr>request_file := rf, override_file := ov, active_link := al, kbd_marker := km,
                      tick := t\<rparr>) q"
| run_turn: "run e s0 s (ev # q) \<Longrightarrow> run e s0 (turn e ev s) q"

definition armed_inv :: "'p sys \<Rightarrow> event list \<Rightarrow> bool" where
  "armed_inv s q \<longleftrightarrow>
     (if state s = fsm_state.Countdown then running (grace_timer s) \<or> event.TimerExpired \<in> set q
      else grace_timer s = None)"

lemma armed_timed: "timed s \<Longrightarrow> armed_inv s q"
  by (simp add: timed_def armed_inv_def)

lemma armed_inv_turn: "armed_inv s (ev # q) \<Longrightarrow> armed_inv (turn e ev s) q"
  using timed_turn [of e ev s] armed_timed [of "turn e ev s" q]
  by (auto simp: armed_inv_def same_timer_def split: if_splits)

lemma run_armed: "run e s0 s q \<Longrightarrow> armed_inv s q"
proof (induction rule: run.induct)
  case (run_start q)
  then show ?case by (intro armed_timed timed_start)
next
  case (run_expire s q)
  then show ?case by (auto simp: armed_inv_def running_def split: if_splits)
next
  case (run_turn s ev q)
  then show ?case by (intro armed_inv_turn)
qed (auto simp: armed_inv_def)

section \<open>The trace of a run\<close>

lemma lawful_suspends: "lawful c es \<Longrightarrow> suspends_proved False es"
  by (auto simp: lawful_def split: prod.splits)

lemma lawful_shadow: "lawful (True, b, n) es \<Longrightarrow> x \<in> set es \<Longrightarrow> \<not> outward x"
  by (auto simp: lawful_def)

lemma run_static: "run e s0 s q \<Longrightarrow> shadow s = shadow s0 \<and> has_session s = has_session s0"
proof (induction rule: run.induct)
  case (run_start q)
  then show ?case using law.extends_cond [OF law_start, of e s0] by (simp add: law_cond_def)
next
  case (run_turn s ev q)
  then show ?case using turn_static [of e ev s] by simp
qed simp_all

lemma run_suspends_proved_from:
  "run e s0 s q \<Longrightarrow> suspends_proved False (log s0) \<Longrightarrow> suspends_proved False (log s)"
proof (induction rule: run.induct)
  case (run_start q)
  then show ?case using start_trace [of e s0] lawful_suspends suspends_proved_append by auto
next
  case (run_turn s ev q)
  then show ?case using turn_trace [of e ev s] lawful_suspends suspends_proved_append by auto
qed simp_all

lemma run_suspends_proved: "run e s0 s q \<Longrightarrow> log s0 = [] \<Longrightarrow> suspends_proved False (log s)"
  using run_suspends_proved_from [of e s0 s q] by simp

lemma run_shadow_from:
  "run e s0 s q \<Longrightarrow> shadow s0 \<Longrightarrow> \<exists>es. log s = log s0 @ es \<and> (\<forall>x \<in> set es. \<not> outward x)"
proof (induction rule: run.induct)
  case (run_start q)
  obtain es where "log (start e s0) = log s0 @ es" "lawful (shadow s0, has_session s0, ext_mon_count s0) es"
    using start_trace [of e s0] by blast
  with run_start show ?case by (auto dest: lawful_shadow)
next
  case (run_turn s ev q)
  have sh: "shadow s" using run_static [OF run_turn.hyps] run_turn.prems by simp
  obtain es where es: "log s = log s0 @ es" "\<forall>x \<in> set es. \<not> outward x"
    using run_turn.IH [OF run_turn.prems] by blast
  obtain fs where fs: "log (turn e ev s) = log s @ fs" "lawful (shadow s, has_session s, ext_mon_count (turn e ev s)) fs"
    using turn_trace [of e ev s] by blast
  have "\<forall>x \<in> set fs. \<not> outward x" using fs(2) sh by (auto dest: lawful_shadow)
  then have "log (turn e ev s) = log s0 @ (es @ fs)" "\<forall>x \<in> set (es @ fs). \<not> outward x" using es fs(1) by auto
  then show ?case by blast
qed auto

lemma run_shadow: "run e s0 s q \<Longrightarrow> log s0 = [] \<Longrightarrow> shadow s0 \<Longrightarrow> \<forall>x \<in> set (log s). \<not> outward x"
  using run_shadow_from [of e s0 s q] by auto

section \<open>Suspending is entered and left on one event each\<close>

lemma state_route: "\<not> is_tick ev \<Longrightarrow> state (snd (route_event e ev s)) = state s"
proof (cases "reasserts ev")
  case True
  then show ?thesis
    by (cases ev) (simp_all add: reasserts_def route_event_def reassert_state_def Let_def
        on_enter_fields fsm_viewD(1) [OF fsm_view_ingest_active_profile])
next
  case False
  moreover assume "\<not> is_tick ev"
  ultimately show ?thesis using same_timer_route [of ev s e] by (simp add: same_timer_def)
qed

lemma state_before_fsms: "state (before_fsms e k l s) = state s"
  by (rule fsm_viewD(1) [OF fsm_view_before_fsms])

lemma state_world_sync_waybar:
  "state (sync_waybar s) = state s" "world (sync_waybar s) = world s"
  by (rule fsm_viewD(1) [OF fsm_view_sync_waybar]) (rule fsm_viewD(2) [OF fsm_view_sync_waybar])

lemma world_before_fsms: "world (before_fsms e k l s) = world s"
  by (rule fsm_viewD(2) [OF fsm_view_before_fsms])

lemma evaluate_commit_stuck:
  "state s = fsm_state.Suspending \<Longrightarrow> k \<noteq> event_kind.Resumed \<Longrightarrow> evaluate_fsms e k l s = s"
  using main_fsm.commit_released by (simp add: evaluate_fsms_def)

lemma kind_resumed: "event_kind_of ev = event_kind.Resumed \<longleftrightarrow> ev = event.Resumed"
  by (cases ev) simp_all

lemma kind_timer_expired: "event_kind_of ev = event_kind.TimerExpired \<longleftrightarrow> ev = event.TimerExpired"
  by (cases ev) simp_all

lemma turn_unfold:
  "turn e ev s = sync_waybar
     (if fst (route_event e ev s)
      then evaluate_fsms e (event_kind_of ev) (event_label ev)
             (before_fsms e (event_kind_of ev) (event_label ev) (snd (route_event e ev s)))
      else snd (route_event e ev s))"
  by (simp add: turn_def dispatch_def Let_def split_beta)

lemma falls_tick: "is_tick ev \<Longrightarrow> \<not> fst (route_event e ev s)"
  by (cases ev) (simp_all add: is_tick_def route_event_def)

lemma tick_stuck:
  "state s = fsm_state.Suspending \<Longrightarrow> state (handle_reconcile_tick e snap s) = fsm_state.Suspending"
proof -
  assume s: "state s = fsm_state.Suspending"
  let ?d = "repair_snapshot snap s"
  let ?p = "if fst (snd ?d) then repair_power e (snd (snd ?d)) else snd (snd ?d)"
  have "state ?p = fsm_state.Suspending"
    using s state_repair_snapshot [of s snap] same_timer_repair_power [of "snd (snd ?d)" e]
    by (simp add: same_timer_def)
  then show ?thesis
    using evaluate_commit_stuck [of ?p event_kind.CtxRepaired e]
    by (simp add: handle_reconcile_tick_def Let_def split_beta)
qed

lemma turn_suspending:
  assumes "state s = fsm_state.Suspending" and "ev \<noteq> event.Resumed"
  shows "state (turn e ev s) = fsm_state.Suspending"
proof (cases "is_tick ev")
  case True
  then obtain snap where "ev = ReconcileTick snap" by (cases ev) (simp_all add: is_tick_def)
  then show ?thesis
    using tick_stuck [OF assms(1)]
    by (simp add: turn_unfold route_event_def state_world_sync_waybar)
next
  case False
  then show ?thesis
    using assms(1) state_route [OF False, of e s] kind_resumed [of ev] assms(2)
      evaluate_commit_stuck [of "before_fsms e (event_kind_of ev) (event_label ev)
        (snd (route_event e ev s))" "event_kind_of ev" e "event_label ev"]
    by (simp add: turn_unfold state_world_sync_waybar state_before_fsms)
qed

section \<open>What a completed suspend leaves in the trace\<close>

lemma suspending_tail_completes:
  assumes "fst (suspending_tail e s)" and "\<not> shadow s"
  shows "\<exists>es. log (snd (suspending_tail e s)) = log s @ es @ [LiveLocker True, CallSuspend True]"
proof -
  have ll: "log (snd (live_locker e t)) = log t @ [LiveLocker (fst (live_locker e t))]" for t :: "'a sys"
    by (rule live_locker_log)
  let ?a = "live_locker e s"
  let ?b = "wait_for_lock e (request_lock e (snd ?a))"
  let ?r = "live_locker e (snd ?b)"
  have sh: "\<not> shadow (snd ?a)" "\<not> shadow (snd ?r)"
    using assms(2) by (simp_all add: fsm_viewD(6) [OF fsm_view_live_locker]
        fsm_viewD(6) [OF fsm_view_wait_for_lock] fsm_viewD(6) [OF fsm_view_request_lock])
  have "law.extends s (snd ?b)" by (intro law_intros)
  then have ext: "\<exists>es. log (snd ?b) = log s @ es" using law.extends_log by blast
  show ?thesis
  proof (cases "fst ?a")
    case True
    then show ?thesis
      using assms(1) sh ll [of s] by (simp add: suspending_tail_def do_suspend_def Let_def split_beta)
  next
    case False
    then have "fst ?b" "fst ?r"
      using assms(1) by (auto simp: suspending_tail_def Let_def split_beta split: if_splits)
    then show ?thesis
      using assms(1) False sh ll [of "snd ?b"] ext
      by (auto simp: suspending_tail_def do_suspend_def Let_def split_beta)
  qed
qed

lemma on_enter_suspending_log:
  assumes "fst (on_enter e fsm_state.Suspending en s)" and "\<not> shadow s"
  shows "\<exists>es. log (snd (on_enter e fsm_state.Suspending en s)) = log s @ es @ [LiveLocker True, CallSuspend True]"
proof -
  let ?c = "cancel_grace_timer (cancel_claim_watch s)"
  have o: "on_enter e fsm_state.Suspending en s = suspending_tail e ?c"
    by (simp add: on_enter_def Let_def)
  have "law.extends s ?c" by (intro law_intros)
  then have "\<exists>es. log ?c = log s @ es" using law.extends_log by blast
  moreover have "\<not> shadow ?c"
    using assms(2) by (simp add: fsm_viewD(6) [OF fsm_view_cancel_grace_timer]
        fsm_viewD(6) [OF fsm_view_cancel_claim_watch])
  ultimately show ?thesis
    using suspending_tail_completes [of e ?c] assms(1) unfolding o by auto
qed

text \<open>What has to have happened when an evaluation ends in \<open>Suspending\<close>.\<close>

lemma evaluate_enters:
  assumes "state s \<noteq> fsm_state.Suspending" "state (evaluate_fsms e k l s) = fsm_state.Suspending"
    and "\<not> shadow s"
  shows "k = event_kind.TimerExpired \<and> state s = fsm_state.Countdown \<and> world_state (world s) = fsm_state.Countdown
     \<and> (\<exists>es. log (evaluate_fsms e k l s) = log s @ es @ [LiveLocker True, CallSuspend True])"
proof -
  let ?s = "emit (Transition (state s) fsm_state.Suspending l) s"
  have d: "desired_state (state s) k (world s) = Some fsm_state.Suspending"
    using assms(1,2) by (auto simp: state_evaluate_fsms split: option.splits if_splits)
  have en: "fst (on_enter e fsm_state.Suspending Fresh ?s)"
    using assms(1,2) by (auto simp: state_evaluate_fsms d split: if_splits)
  have sh: "\<not> shadow ?s" using assms(3) by simp
  have l: "\<exists>es. log (evaluate_fsms e k l s) = log s @ es @ [LiveLocker True, CallSuspend True]"
    using on_enter_suspending_log [OF en sh] assms(1) d en
    by (auto simp: evaluate_fsms_def Let_def split_beta)
  show ?thesis
    using main_fsm.nxt_commit [OF d] l by blast
qed

lemma log_extended: "law.extends s t \<Longrightarrow> \<exists>es. log t = log s @ es"
  using law.extends_log by blast

lemma route_log: "\<exists>es. log (snd (route_event e ev s)) = log s @ es"
  using law.extends_log [OF law_route_event, of e ev s] by auto

lemma tick_enters_not:
  assumes "state s \<noteq> fsm_state.Suspending"
  shows "state (handle_reconcile_tick e snap s) \<noteq> fsm_state.Suspending"
proof -
  let ?d = "repair_snapshot snap s"
  let ?p = "if fst (snd ?d) then repair_power e (snd (snd ?d)) else snd (snd ?d)"
  let ?f = "if fst ?d then evaluate_fsms e event_kind.CtxRepaired ''CtxRepaired'' ?p else ?p"
  have p: "state ?p = state s"
    using state_repair_snapshot [of s snap] same_timer_repair_power [of "snd (snd ?d)" e]
    by (simp add: same_timer_def)
  have "state ?f \<noteq> fsm_state.Suspending"
    using assms p main_fsm.nxt_commit [of "state ?p" event_kind.CtxRepaired "world ?p"]
    by (auto simp: state_evaluate_fsms split: option.split)
  moreover have "state (handle_reconcile_tick e snap s) = state ?f"
    using same_timer_tail [of ?f e snap]
    by (auto simp: handle_reconcile_tick_def Let_def split_beta same_timer_def)
  ultimately show ?thesis by simp
qed

lemma shadow_route_event: "shadow (snd (route_event e ev s)) = shadow s"
  using law.extends_cond [OF law_route_event, of e ev s] by (simp add: law_cond_def)

lemma shadow_before_fsms: "shadow (before_fsms e k l s) = shadow s"
  by (rule fsm_viewD(6) [OF fsm_view_before_fsms])

lemma turn_enters_suspending:
  assumes "state s \<noteq> fsm_state.Suspending" "state (turn e ev s) = fsm_state.Suspending" "\<not> shadow s"
  shows "ev = event.TimerExpired \<and> state s = fsm_state.Countdown
     \<and> world_state (world (turn e ev s)) = fsm_state.Countdown
     \<and> (\<exists>xs ys. log (turn e ev s) = log s @ xs @ [LiveLocker True, CallSuspend True] @ ys)"
proof -
  let ?k = "event_kind_of ev" and ?l = "event_label ev"
  let ?r = "snd (route_event e ev s)"
  let ?b = "before_fsms e ?k ?l ?r"
  have nt: "\<not> is_tick ev"
    using assms(1,2) tick_enters_not [of s e]
    by (cases ev) (auto simp: is_tick_def turn_unfold route_event_def state_world_sync_waybar)
  have b: "state ?b = state s"
    using state_route [OF nt, of e s] by (simp add: state_before_fsms)
  have f: "fst (route_event e ev s)"
    using assms(1,2) state_route [OF nt, of e s]
    by (auto simp: turn_unfold state_world_sync_waybar split: if_splits)
  let ?v = "evaluate_fsms e ?k ?l ?b"
  have t: "turn e ev s = sync_waybar ?v" using f by (simp add: turn_unfold)
  have sh: "\<not> shadow ?b" using assms(3) by (simp add: shadow_before_fsms shadow_route_event)
  have v: "state ?v = fsm_state.Suspending" using assms(2) t by (simp add: state_world_sync_waybar)
  from evaluate_enters [OF _ v sh] assms(1) b
  obtain es where k: "?k = event_kind.TimerExpired" "state s = fsm_state.Countdown"
    "world_state (world ?b) = fsm_state.Countdown"
    and l: "log ?v = log ?b @ es @ [LiveLocker True, CallSuspend True]" by auto
  obtain as bs cs where "log ?r = log s @ as" "log ?b = log ?r @ bs" "log (sync_waybar ?v) = log ?v @ cs"
    using route_log [of e ev s] log_extended [OF law_before_fsms [OF law_self], of e ?k ?l ?r]
      log_extended [OF law_sync_waybar [OF law_self], of ?v] by blast
  then have "log (turn e ev s) = log s @ (as @ bs @ es) @ [LiveLocker True, CallSuspend True] @ cs"
    using l t by simp
  moreover have "world_state (world (turn e ev s)) = fsm_state.Countdown"
    using k(3) t by (simp add: state_world_sync_waybar world_evaluate_fsms)
  ultimately show ?thesis using k kind_timer_expired by blast
qed

section \<open>The state follows the world\<close>

definition converged :: "'p sys \<Rightarrow> bool" where
  "converged s \<longleftrightarrow> state s = fsm_state.Suspending \<or> state s = world_state (world s)"

lemma converged_view: "fsm_view t = fsm_view s \<Longrightarrow> converged t = converged s"
  by (simp add: converged_def fsm_view_def)

lemma converged_evaluate:
  assumes "k \<noteq> event_kind.TimerExpired \<or> state s = fsm_state.Countdown"
    and "k \<noteq> event_kind.Resumed \<or> state s = fsm_state.Suspending"
  shows "converged (evaluate_fsms e k l s)"
proof (cases "state s = fsm_state.Suspending")
  case True
  then show ?thesis
    using main_fsm.commit_released [of k "world s"] main_fsm.derive_not_commit [of "world s"]
    by (auto simp: converged_def state_evaluate_fsms world_evaluate_fsms)
next
  case False
  then have d: "desired_state (state s) k (world s) =
      (if k = event_kind.TimerExpired
       then Some (if world_state (world s) = fsm_state.Countdown then fsm_state.Suspending else world_state (world s))
       else if world_state (world s) = state s then None else Some (world_state (world s)))"
    using assms main_fsm.fire_src [of "world s"] main_fsm.ordinary [of "state s" k "world s"] by auto
  show ?thesis
    using False assms main_fsm.derive_not_commit [of "world s"]
    by (auto simp: converged_def state_evaluate_fsms world_evaluate_fsms d)
qed

lemma converged_sync_waybar: "converged (sync_waybar s) = converged s"
  by (rule converged_view) (rule fsm_view_sync_waybar)

lemma converged_reassert_state: "converged (reassert_state e s) = converged s"
  by (rule converged_view) (simp add: reassert_state_def Let_def frame_simps)

text \<open>Handlers that do not fall through leave the machine's view alone.\<close>

lemma battery_check_quiet:
  "\<not> fst (battery_low_request_check e s) \<Longrightarrow> fsm_view (snd (battery_low_request_check e s)) = fsm_view s"
  by (auto simp: battery_low_request_check_def Let_def split_beta frame_simps
      split: battery_low_act.split if_splits)

lemma battery_percent_quiet:
  assumes "\<not> fst (handle_battery_percent e pct s)"
  shows "fsm_view (snd (handle_battery_percent e pct s)) = fsm_view s"
proof -
  let ?b = "battery_low_step (low_battery s) pct (battery_low_pct s)"
  let ?t = "s\<lparr>battery_percent := Some pct, low_battery := ?b\<rparr>"
  have f: "fst (handle_battery_percent e pct s) \<longleftrightarrow> ?b \<noteq> low_battery s \<or> fst (battery_low_request_check e ?t)"
    and t: "fsm_view (snd (handle_battery_percent e pct s)) = fsm_view (snd (battery_low_request_check e ?t))"
    by (simp_all add: handle_battery_percent_def Let_def split_beta frame_simps)
  from f assms have b: "?b = low_battery s" and q: "\<not> fst (battery_low_request_check e ?t)" by blast+
  have "fsm_view ?t = fsm_view s" using b by (simp add: fsm_view_def world_def inhibitor_def)
  with battery_check_quiet [OF q] t show ?thesis by metis
qed

lemma ac_changed_quiet:
  "\<not> fst (handle_ac_changed e ac s) \<Longrightarrow> snd (handle_ac_changed e ac s) = s"
  by (auto simp: handle_ac_changed_def Let_def split: if_splits)

lemma quiet_route_view:
  assumes "\<not> is_tick ev" and "\<not> fst (route_event e ev s)"
  shows "fsm_view (snd (route_event e ev s)) = fsm_view s"
  using assms
proof (cases ev)
  case (AcChanged ac)
  with assms show ?thesis using ac_changed_quiet [of e ac s] by (simp add: route_event_def)
next
  case (BatteryPercent pct)
  with assms show ?thesis using battery_percent_quiet [of e pct s] by (simp add: route_event_def)
qed (simp_all add: route_event_def is_tick_def Let_def split_beta frame_simps reassert_state_def split: if_splits)

lemma repair_quiet_parts:
  "\<not> fst (repair_lid snap s) \<Longrightarrow> snd (repair_lid snap s) = s"
  "\<not> fst (repair_request s) \<Longrightarrow> snd (repair_request s) = s"
  "\<not> fst (repair_ext_mon snap s) \<Longrightarrow> snd (repair_ext_mon snap s) = s"
  "\<not> fst (repair_lock snap s) \<Longrightarrow> snd (repair_lock snap s) = s"
  "\<not> fst (repair_ac snap s) \<Longrightarrow> snd (repair_ac snap s) = s"
  by (auto simp: repair_lid_def repair_request_def repair_ext_mon_def repair_lock_def repair_ac_def
      Let_def split: option.splits if_splits)

lemma repair_claims_quiet: "\<not> fst (repair_claims snap s) \<Longrightarrow> snd (repair_claims snap s) = s"
  by (auto simp: repair_claims_def Let_def split: option.splits)

lemma repair_quiet_but_ac:
  assumes "\<not> fst (repair_snapshot snap s)"
  shows "repair_snapshot snap s = (False, repair_ac snap s)"
proof -
  have q: "\<not> fst (repair_lid snap s)" "snd (repair_lid snap s) = s"
    using assms repair_quiet_parts(1) [of snap s] by (auto simp: repair_snapshot_def Let_def split_beta)
  moreover have "\<not> fst (repair_request s)" "snd (repair_request s) = s"
    using assms q repair_quiet_parts(2) [of s] by (auto simp: repair_snapshot_def Let_def split_beta)
  moreover from calculation have "\<not> fst (repair_ext_mon snap s)" "snd (repair_ext_mon snap s) = s"
    using assms repair_quiet_parts(3) [of snap s] by (auto simp: repair_snapshot_def Let_def split_beta)
  moreover from calculation have "\<not> fst (repair_claims snap s)" "snd (repair_claims snap s) = s"
    using assms repair_claims_quiet [of snap s] by (auto simp: repair_snapshot_def Let_def split_beta)
  moreover from calculation have "\<not> fst (repair_lock snap s)" "snd (repair_lock snap s) = s"
    using assms repair_quiet_parts(4) [of snap s] by (auto simp: repair_snapshot_def Let_def split_beta)
  ultimately show ?thesis by (simp add: repair_snapshot_def Let_def split_beta)
qed

lemma repair_quiet:
  assumes "\<not> fst (repair_snapshot snap s)"
    and "rs_on_ac snap = None \<or> rs_on_ac snap = Some (on_ac s)"
  shows "repair_snapshot snap s = (False, False, s)"
  using repair_quiet_but_ac [OF assms(1)] assms(2) by (auto simp: repair_ac_def)

lemma view_tail:
  "fsm_view (stuck_dpms_backstop e snap (reassert_edp e snap (snd (ingest_active_profile e s)))) = fsm_view s"
proof -
  have "fsm_view (reassert_edp e snap t) = fsm_view t" for t
    by (simp add: reassert_edp_def frame_simps split: option.split)
  moreover have "fsm_view (stuck_dpms_backstop e snap t) = fsm_view t" for t
    by (simp add: stuck_dpms_backstop_def Let_def frame_simps split: option.split)
  ultimately show ?thesis by (simp add: frame_simps)
qed

lemma converged_tick:
  assumes "converged s" and "rs_on_ac snap = None \<or> rs_on_ac snap = Some (on_ac s)"
  shows "converged (handle_reconcile_tick e snap s)"
proof -
  let ?d = "repair_snapshot snap s"
  let ?p = "if fst (snd ?d) then repair_power e (snd (snd ?d)) else snd (snd ?d)"
  let ?f = "if fst ?d then evaluate_fsms e event_kind.CtxRepaired ''CtxRepaired'' ?p else ?p"
  have "converged ?f"
    using assms repair_quiet [of snap s] converged_evaluate by (cases "fst ?d") auto
  moreover have "fsm_view (handle_reconcile_tick e snap s) = fsm_view ?f"
    using view_tail [of e snap ?f] by (auto simp: handle_reconcile_tick_def Let_def split_beta)
  ultimately show ?thesis using converged_view by blast
qed

text \<open>The three events that may leave the state behind the world: an expiry that finds the request
  file gone outside \<open>Countdown\<close>, a resume that was not the daemon's own, and a pass whose only
  news is the AC state.\<close>

definition keeps_up :: "event \<Rightarrow> 'p sys \<Rightarrow> bool" where
  "keeps_up ev s = (case ev of
       event.TimerExpired \<Rightarrow> state s = fsm_state.Countdown
         \<or> \<not> suspend_requested s \<or> suspend_request_standing s
     | event.Resumed \<Rightarrow> state s = fsm_state.Suspending
     | ReconcileTick snap \<Rightarrow> rs_on_ac snap = None \<or> rs_on_ac snap = Some (on_ac s)
     | _ \<Rightarrow> True)"

lemma expired_unmoved:
  "\<not> suspend_requested s \<or> suspend_request_standing s \<Longrightarrow> state s \<noteq> fsm_state.Countdown
     \<Longrightarrow> evaluate_fsms e event_kind.TimerExpired l (before_fsms e event_kind.TimerExpired l
           (snd (route_event e event.TimerExpired s))) = s"
  by (auto simp: route_event_def before_fsms_def gpu_gate_def power_gate_def Let_def
      evaluate_fsms_def desired_state_def)

lemma turn_converges:
  assumes "converged s" and "keeps_up ev s"
  shows "converged (turn e ev s)"
proof (cases "fst (route_event e ev s)")
  case False
  show ?thesis
  proof (cases "is_tick ev")
    case True
    then obtain snap where "ev = ReconcileTick snap" by (cases ev) (simp_all add: is_tick_def)
    then show ?thesis
      using assms converged_tick [of s snap e]
      by (simp add: turn_unfold converged_sync_waybar route_event_def keeps_up_def)
  next
    case nt: False
    then show ?thesis
      using assms(1) False converged_view [OF quiet_route_view [OF nt False]]
      by (simp add: turn_unfold converged_sync_waybar)
  qed
next
  case True
  then have nt: "\<not> is_tick ev" using falls_tick [of ev e s] by blast
  let ?k = "event_kind_of ev" and ?l = "event_label ev"
  let ?b = "before_fsms e ?k ?l (snd (route_event e ev s))"
  have t: "turn e ev s = sync_waybar (evaluate_fsms e ?k ?l ?b)" using True by (simp add: turn_unfold)
  have st: "state ?b = state s" using state_route [OF nt, of e s] by (simp add: state_before_fsms)
  show ?thesis
  proof (cases "ev = event.TimerExpired \<and> state s \<noteq> fsm_state.Countdown")
    case True
    then have "evaluate_fsms e ?k ?l ?b = s"
      using assms(2) expired_unmoved [of s e ?l] by (simp add: keeps_up_def)
    with assms(1) t show ?thesis by (simp add: converged_sync_waybar)
  next
    case False
    then have "converged (evaluate_fsms e ?k ?l ?b)"
      using assms(2) st kind_timer_expired [of ev] kind_resumed [of ev]
      by (intro converged_evaluate) (auto simp: keeps_up_def)
    with t show ?thesis by (simp add: converged_sync_waybar)
  qed
qed

lemma converged_start: "converged (start e s)"
proof -
  let ?t = "s\<lparr>state := world_state (world s)\<rparr>"
  have "fsm_view (start e s) = fsm_view ?t"
    by (simp add: start_def Let_def split_beta frame_simps fsm_view_emit)
  then show ?thesis using converged_view [of "start e s" ?t] by (simp add: converged_def)
qed

text \<open>A completed or refused suspend: in particular, an own resume re-derives the state.\<close>

lemma resumed_rederives:
  "state s = fsm_state.Suspending \<Longrightarrow> state (turn e event.Resumed s) = world_state (world (turn e event.Resumed s))"
proof -
  assume s: "state s = fsm_state.Suspending"
  let ?r = "snd (route_event e event.Resumed s)"
  let ?b = "before_fsms e event_kind.Resumed (event_label event.Resumed) ?r"
  have st: "state ?b = fsm_state.Suspending"
    using s state_route [of event.Resumed e s] by (simp add: state_before_fsms is_tick_def)
  have "fst (route_event e event.Resumed s)" by (simp add: route_event_def Let_def)
  then have t: "turn e event.Resumed s
      = sync_waybar (evaluate_fsms e event_kind.Resumed (event_label event.Resumed) ?b)"
    by (simp add: turn_unfold)
  show ?thesis
    using st main_fsm.commit_released [of event_kind.Resumed "world ?b"]
      main_fsm.derive_not_commit [of "world ?b"]
    by (simp add: t state_world_sync_waybar state_evaluate_fsms world_evaluate_fsms)
qed

text \<open>The resume clears the request the suspend was made for.\<close>

lemma resumed_request:
  "suspend_requested (turn e event.Resumed s) = False"
proof -
  let ?r = "snd (route_event e event.Resumed s)"
  have q: "\<not> wi_suspend_requested (world ?r)"
    by (simp add: route_event_def Let_def world_def fsm_viewD(9) [OF fsm_view_kbd_policy_check]
        fsm_viewD(9) [OF fsm_view_request_reconcile] fsm_viewD(9) [OF fsm_view_clear_suspend_request])
  have "fst (route_event e event.Resumed s)" by (simp add: route_event_def Let_def)
  then have "world (turn e event.Resumed s) = world ?r"
    by (simp add: turn_unfold state_world_sync_waybar world_evaluate_fsms world_before_fsms)
  with q show ?thesis by (simp add: world_def)
qed

text \<open>A pass whose only news is that the charger is gone repairs the power inputs and does not
  evaluate the machine: a lid parked on the charger stays parked on battery.\<close>

lemma repair_power_unrequested:
  assumes "\<not> suspend_requested s" "\<not> low_battery s"
  shows "fsm_view (repair_power e s) = fsm_view (s\<lparr>on_ac_settled := on_ac s\<rparr>)"
proof -
  let ?p = "power_policy_check e (s\<lparr>on_ac_settled := on_ac s\<rparr>)"
  have v: "fsm_view ?p = fsm_view (s\<lparr>on_ac_settled := on_ac s\<rparr>)" by (rule fsm_view_power_policy_check)
  then have "battery_low_request_check e ?p = (False, ?p)"
    using assms fsm_viewD(5,9) [OF v]
    by (simp add: battery_low_request_check_def battery_low_action_def)
  with v show ?thesis by (simp add: repair_power_def)
qed

lemma ac_repair_unevaluated:
  assumes "\<not> fst (repair_snapshot snap s)" "rs_on_ac snap = Some False" "state s = fsm_state.Deferred"
    and "lid_closed s" "ext_mon_count s = 0" "\<not> inhibitor s" "\<not> suspend_requested s" "\<not> low_battery s"
  shows "state (turn e (ReconcileTick snap) s) = fsm_state.Deferred
     \<and> world_state (world (turn e (ReconcileTick snap) s)) = fsm_state.Countdown"
proof -
  let ?d = "repair_snapshot snap s"
  let ?p = "if fst (snd ?d) then repair_power e (snd (snd ?d)) else snd (snd ?d)"
  have d: "?d = (False, on_ac s, s\<lparr>on_ac := False\<rparr>)"
    using repair_quiet_but_ac [OF assms(1)] assms(2) by (auto simp: repair_ac_def)
  have "fsm_view (turn e (ReconcileTick snap) s) = fsm_view ?p"
    using view_tail [of e snap ?p] assms(1)
    by (auto simp: turn_unfold route_event_def handle_reconcile_tick_def Let_def split_beta frame_simps)
  moreover have "state ?p = fsm_state.Deferred"
    using assms(3) d fsm_viewD(1) [OF repair_power_unrequested, of "s\<lparr>on_ac := False\<rparr>" e] assms(7,8)
    by (auto split: if_splits)
  moreover have "world_state (world ?p) = fsm_state.Countdown"
    using assms(4-8) d fsm_viewD(2) [OF repair_power_unrequested, of "s\<lparr>on_ac := False\<rparr>" e]
    by (auto simp: world_def inhibitor_def world_state_def claim_governs_def Let_def split: if_splits)
  ultimately show ?thesis
    using fsm_viewD(1,2) [of "turn e (ReconcileTick snap) s" ?p] by simp
qed

section \<open>A suspend that goes through, and one that does not\<close>

lemma live_locker_proved:
  "has_session s \<Longrightarrow> q_locked_hint e (tick s) = Some True \<Longrightarrow> q_compositor_lock e (Suc (tick s)) = Some True
     \<Longrightarrow> fst (live_locker e s)"
  by (simp add: live_locker_def Let_def split_beta)

lemma suspending_tail_accepted:
  assumes "has_session s" "\<And>k. q_locked_hint e k = Some True" "\<And>k. q_compositor_lock e k = Some True"
    and "\<And>k. q_suspend e k"
  shows "fst (suspending_tail e s)"
  using live_locker_proved [OF assms(1) assms(2) assms(3)] assms(4)
  by (simp add: suspending_tail_def do_suspend_def Let_def split_beta)

text \<open>An expiry reaches the machine as it is, unless it finds the request withdrawn.\<close>

lemma turn_timer_expired:
  assumes "\<not> suspend_requested s \<or> suspend_request_standing s"
  shows "turn e event.TimerExpired s
     = sync_waybar (evaluate_fsms e event_kind.TimerExpired (event_label event.TimerExpired) s)"
  using assms by (auto simp: turn_unfold route_event_def before_fsms_def gpu_gate_def power_gate_def Let_def)

lemma has_session_emit: "has_session (emit x s) = has_session s"
  by simp

lemma on_enter_suspending: "on_enter e fsm_state.Suspending en s = suspending_tail e (cancel_grace_timer (cancel_claim_watch s))"
  by (simp add: on_enter_def Let_def)

lemma expiry_completes:
  assumes "state s = fsm_state.Countdown" "world_state (world s) = fsm_state.Countdown"
    and "\<not> suspend_requested s \<or> suspend_request_standing s"
    and "has_session s" "\<And>k. q_locked_hint e k = Some True" "\<And>k. q_compositor_lock e k = Some True"
    and "\<And>k. q_suspend e k"
  shows "state (turn e event.TimerExpired s) = fsm_state.Suspending"
proof -
  let ?l = "event_label event.TimerExpired"
  let ?t = "cancel_grace_timer (cancel_claim_watch (emit (Transition (state s) fsm_state.Suspending ?l) s))"
  have "has_session ?t"
    using assms(4) by (simp add: fsm_viewD(7) [OF fsm_view_cancel_grace_timer]
        fsm_viewD(7) [OF fsm_view_cancel_claim_watch])
  then have "fst (suspending_tail e ?t)" using assms(5-7) by (intro suspending_tail_accepted)
  then show ?thesis
    using assms(1,2) main_fsm.fire_src [of "world s"]
    by (simp add: turn_timer_expired [OF assms(3)] state_world_sync_waybar state_evaluate_fsms
        on_enter_suspending)
qed

lemma expiry_refused:
  assumes "state s = fsm_state.Countdown" "\<not> suspend_requested s \<or> suspend_request_standing s"
    and "world_state (world s) = fsm_state.Countdown"
    and "state (turn e event.TimerExpired s) \<noteq> fsm_state.Suspending"
  shows "\<exists>u. turn e event.TimerExpired s = sync_waybar (start_grace_timer True u)
     \<and> fsm_view u = fsm_view s"
proof -
  let ?l = "event_label event.TimerExpired"
  let ?e = "on_enter e fsm_state.Suspending Fresh (emit (Transition (state s) fsm_state.Suspending ?l) s)"
  have d: "desired_state (state s) event_kind.TimerExpired (world s) = Some fsm_state.Suspending"
    using assms(1,3) main_fsm.fire_src [of "world s"] by simp
  have f: "\<not> fst ?e"
    using assms(1,4) d
    by (auto simp: turn_timer_expired [OF assms(2)] state_world_sync_waybar state_evaluate_fsms)
  have "turn e event.TimerExpired s = sync_waybar (start_grace_timer True (snd ?e))"
    using d f assms(1)
    by (simp add: turn_timer_expired [OF assms(2)] evaluate_fsms_def Let_def split_beta)
  moreover have "fsm_view (snd ?e) = fsm_view s" by (simp add: frame_simps)
  ultimately show ?thesis by blast
qed

lemma sync_waybar_fields:
  "grace_timer (sync_waybar s) = grace_timer s" "lid_grace (sync_waybar s) = lid_grace s"
  "suspend_requested (sync_waybar s) = suspend_requested s"
  by (simp_all add: sync_waybar_def Let_def)

lemma fresh_grace:
  "grace_timer (start_grace_timer True s) =
     Some (Task (if suspend_requested s then GRACE_SECONDS else lid_grace s) False)"
  "lid_grace (start_grace_timer True s) = lid_grace s"
  "suspend_requested (start_grace_timer True s) = suspend_requested s"
  by (simp_all add: start_grace_timer_def cancel_grace_timer_def Let_def split: option.split)

section \<open>A daemon to run\<close>

text \<open>A closed lid on battery in an environment where everything works: the locker is live, logind
  accepts. It is what the properties of runs are applied to.\<close>

definition empty_fs :: filesystem where
  "empty_fs = \<lparr>fs_dir = (\<lambda>_. None), fs_file = (\<lambda>_. None), fs_canonical = (\<lambda>_. None)\<rparr>"

definition demo_env :: "unit env" where
  "demo_env = \<lparr>q_io = (\<lambda>_. True), q_worker = (\<lambda>_. True), q_now = (\<lambda>_. 0),
     q_monitors = (\<lambda>_. Some []), q_clients = (\<lambda>_. Some []), q_compositor_lock = (\<lambda>_. Some True),
     q_locked_hint = (\<lambda>_. Some True), q_lock_call = (\<lambda>_. True), q_lock_engages = (\<lambda>_. True),
     q_suspend = (\<lambda>_. True), q_powerd = (\<lambda>_. True), q_set_brightness = (\<lambda>_. True),
     q_profiles = (\<lambda>_. []), q_canonical = (\<lambda>_ _. None), q_fs = (\<lambda>_. empty_fs),
     q_gpu_reason = (\<lambda>_. None), ext_select = (\<lambda>_ _. None), ext_gpu_pref_str = (\<lambda>_. ''auto''),
     parse_f64 = (\<lambda>_. None), active_link_path = ''.active.lua'', gpu_override_path = ''gpu-select'',
     hypr_lock_path = None\<rparr>"

definition demo_sys :: "bool \<Rightarrow> unit sys" where
  "demo_sys sh = daemon_ctx.extend (default_context\<lparr>lid_closed := True\<rparr>)
     \<lparr>shadow = sh, has_session = True, runtime_dir = True, request_file = None,
      override_file = None, active_link = None, kbd_marker = False, log = [], tick = 0\<rparr>"

lemma demo_env_answers:
  "q_locked_hint demo_env k = Some True" "q_compositor_lock demo_env k = Some True"
  "q_suspend demo_env k"
  by (simp_all add: demo_env_def)

lemma demo_world_state: "world_state (world (demo_sys sh)) = fsm_state.Countdown"
  by (simp add: world_def demo_sys_def default_context_def daemon_ctx.defs inhibitor_def
      world_state_def claim_governs_def)

lemma demo_sys_fields:
  "log (demo_sys sh) = []" "shadow (demo_sys sh) = sh" "has_session (demo_sys sh) = True"
  "suspend_requested (demo_sys sh) = False"
  by (simp_all add: demo_sys_def default_context_def daemon_ctx.defs)

lemma view_start: "fsm_view (start e s) = fsm_view (s\<lparr>state := world_state (world s)\<rparr>)"
  by (simp add: start_def Let_def split_beta frame_simps)

lemma demo_started:
  "state (start e (demo_sys sh)) = fsm_state.Countdown"
  "world_state (world (start e (demo_sys sh))) = fsm_state.Countdown"
  "\<not> suspend_requested (start e (demo_sys sh))" "has_session (start e (demo_sys sh))"
  "shadow (start e (demo_sys sh)) = sh"
  using fsm_viewD [OF view_start [of e "demo_sys sh"]]
  by (simp_all add: demo_world_state demo_sys_fields)

text \<open>Its first expiry suspends it.\<close>

definition demo_fired :: "bool \<Rightarrow> unit sys" where
  "demo_fired sh = (let s = start demo_env (demo_sys sh) in s\<lparr>grace_timer := slept (grace_timer s)\<rparr>)"

lemma world_grace_timer [simp]: "world (s\<lparr>grace_timer := g\<rparr>) = world s"
  by (simp add: world_def inhibitor_def)

lemma demo_fired_fields:
  "state (demo_fired sh) = fsm_state.Countdown" "world_state (world (demo_fired sh)) = fsm_state.Countdown"
  "\<not> suspend_requested (demo_fired sh)" "has_session (demo_fired sh)" "shadow (demo_fired sh) = sh"
  by (simp_all add: demo_fired_def Let_def demo_started)

lemma demo_suspends: "state (turn demo_env event.TimerExpired (demo_fired sh)) = fsm_state.Suspending"
  by (rule expiry_completes) (simp_all add: demo_fired_fields demo_env_answers)

lemma demo_run_fired: "run demo_env (demo_sys sh) (demo_fired sh) [event.TimerExpired]"
proof -
  have r: "run demo_env (demo_sys sh) (start demo_env (demo_sys sh)) []" by (rule run_start) simp
  have "running (grace_timer (start demo_env (demo_sys sh)))"
    using timed_start [of demo_env "demo_sys sh"] by (simp add: timed_def demo_started)
  from run_expire [OF r this] show ?thesis by (simp add: demo_fired_def Let_def)
qed

lemma demo_run_suspended: "run demo_env (demo_sys sh) (turn demo_env event.TimerExpired (demo_fired sh)) []"
  by (rule run_turn) (rule demo_run_fired)

end
