(* ===== verification/Knobs.thy ===== *)
theory Knobs
  imports Sysfs PowerRules
begin

text \<open>
  The sysfs knob matrix of powerd, \<open>src/powerd/knobs.rs\<close>. A \<open>machine\<close> is a file system in
  which a path may also be unreadable, in which a write ends in one of the ways the code tells
  apart, and in which a successful write leaves what the kernel shows afterwards
  (\<open>m_shows path old value\<close>). Opening an attribute is not free of effect on this hardware (it wakes a
  suspended card), so every attribute that a row opens, for reading or writing, goes on record in
  \<open>m_opened\<close>; the discovery of the cards (\<open>sysio/sysfs.rs\<close>) and the files of powerd itself
  are read without a record. Each row is a function from machine to machine with its result
  string; the result map is written in the order of the rows.
\<close>

section \<open>The machine\<close>

datatype write_result = WriteOk | EBusy | EPerm | EAcces | WriteErr string

record machine = filesystem +
  m_unreadable :: "string \<Rightarrow> string option"
  m_write :: "string \<Rightarrow> string \<Rightarrow> write_result"
  m_shows :: "string \<Rightarrow> string \<Rightarrow> string \<Rightarrow> string"
  m_opened :: "string list"

definition fs_of :: "machine \<Rightarrow> filesystem" where
  "fs_of m = \<lparr>fs_dir = fs_dir m,
     fs_file = (\<lambda>p. if m_unreadable m p = None then fs_file m p else None),
     fs_canonical = fs_canonical m\<rparr>"

definition m_exists :: "machine \<Rightarrow> string \<Rightarrow> bool" where
  "m_exists m p = (fs_file m p \<noteq> None \<or> m_unreadable m p \<noteq> None \<or> fs_dir m p \<noteq> None)"

definition read_file :: "machine \<Rightarrow> string \<Rightarrow> string option" where
  "read_file m p = fs_file (fs_of m) p"

definition open_file :: "string \<Rightarrow> machine \<Rightarrow> machine" where
  "open_file p m = m\<lparr>m_opened := m_opened m @ [p]\<rparr>"

definition read_to_string :: "string \<Rightarrow> machine \<Rightarrow> string option \<times> machine" where
  "read_to_string p m = (read_file m p, open_file p m)"

definition write_file :: "string \<Rightarrow> string \<Rightarrow> machine \<Rightarrow> write_result \<times> machine" where
  "write_file p v m =
     (let m = open_file p m in
      case m_write m p v of
        WriteOk \<Rightarrow> (WriteOk,
          m\<lparr>fs_file := (fs_file m)(p \<mapsto> m_shows m p (or_default [] (fs_file m p)) v)\<rparr>)
      | r \<Rightarrow> (r, m))"

definition knob_write :: "string \<Rightarrow> string \<Rightarrow> machine \<Rightarrow> string \<times> machine" where
  "knob_write p v m =
     (let (read, m) = read_to_string p m in
      case m_unreadable m p of
        Some e \<Rightarrow> (''error:'' @ e, m)
      | None \<Rightarrow>
          (case read of
             None \<Rightarrow> (''skipped-missing'', m)
           | Some cur \<Rightarrow>
               if trim cur = v then (''unchanged'', m)
               else (case write_file p v m of
                   (WriteOk, m') \<Rightarrow> (''written'', m')
                 | (EBusy, m') \<Rightarrow> (''skipped-unsupported'', m')
                 | (EPerm, m') \<Rightarrow> (''skipped-unsupported'', m')
                 | (EAcces, m') \<Rightarrow> (''skipped-unsupported'', m')
                 | (WriteErr e, m') \<Rightarrow> (''error:'' @ e, m'))))"

section \<open>The matrix\<close>

fun governor :: "power_profile \<Rightarrow> string" where
  "governor PowerSaver = ''powersave''"
| "governor Balanced = ''powersave''"
| "governor Performance = ''performance''"

fun epp :: "power_profile \<Rightarrow> string option" where
  "epp PowerSaver = Some ''power''"
| "epp Balanced = Some ''balance_performance''"
| "epp Performance = None"

fun boost :: "power_profile \<Rightarrow> string" where
  "boost PowerSaver = ''0''"
| "boost Balanced = ''1''"
| "boost Performance = ''1''"

fun dgpu_dpm :: "power_profile \<Rightarrow> string" where
  "dgpu_dpm PowerSaver = ''low''"
| "dgpu_dpm Balanced = ''auto''"
| "dgpu_dpm Performance = ''auto''"

fun aspm :: "power_profile \<Rightarrow> string" where
  "aspm PowerSaver = ''powersupersave''"
| "aspm Balanced = ''default''"
| "aspm Performance = ''default''"

definition merge_row :: "string list \<Rightarrow> string" where
  "merge_row statuses =
     (if statuses = [] then ''skipped-missing''
      else case find (starts_with ''error'') statuses of
          Some err \<Rightarrow> err
        | None \<Rightarrow>
            if ''written'' \<in> set statuses then ''written''
            else if \<forall>s \<in> set statuses. s = ''unchanged'' then ''unchanged''
            else hd statuses)"

type_synonym results = "string \<rightharpoonup> string"

text \<open>The writes of a row over several paths, in order.\<close>

fun map_knobs :: "(string \<Rightarrow> machine \<Rightarrow> string \<times> machine) \<Rightarrow> string list \<Rightarrow> machine \<Rightarrow> string list \<times> machine" where
  "map_knobs f [] m = ([], m)"
| "map_knobs f (p # ps) m =
     (let (r, m) = f p m; (rs, m) = map_knobs f ps m in (r # rs, m))"

section \<open>CPU rows\<close>

definition CPUFREQ_DIR :: string where "CPUFREQ_DIR = ''/sys/devices/system/cpu/cpufreq''"
definition INTEL_NO_TURBO_PATH :: string where
  "INTEL_NO_TURBO_PATH = ''/sys/devices/system/cpu/intel_pstate/no_turbo''"

definition is_policy_dir :: "string \<Rightarrow> bool" where
  "is_policy_dir n = (case strip_prefix ''policy'' n of
      Some rest \<Rightarrow> rest \<noteq> [] \<and> list_all is_ascii_digit rest | None \<Rightarrow> False)"

definition cpufreq_policies :: "machine \<Rightarrow> string list" where
  "cpufreq_policies m =
     sort (map (path_join CPUFREQ_DIR) (filter is_policy_dir (or_default [] (fs_dir m CPUFREQ_DIR))))"

definition governor_knob :: "string \<Rightarrow> string \<Rightarrow> machine \<Rightarrow> string \<times> machine" where
  "governor_knob gov pol m =
     (let (avail, m) = read_to_string (path_join pol ''scaling_available_governors'') m in
      if gov \<in> set (split_whitespace (or_default [] avail)) then knob_write (path_join pol ''scaling_governor'') gov m
      else (''skipped-unsupported'', m))"

definition epp_capable :: "string \<Rightarrow> machine \<Rightarrow> bool \<times> machine" where
  "epp_capable p0 m =
     (let (read, m) = read_to_string (path_join p0 ''scaling_driver'') m;
          driver = or_default [] (map_option trim read)
      in (m_exists m (path_join p0 ''energy_performance_preference'')
          \<or> driver = ''amd-pstate-epp'' \<or> driver = ''intel_pstate'', m))"

definition cpu_rows :: "power_profile \<Rightarrow> results \<times> machine \<Rightarrow> results \<times> machine" where
  "cpu_rows profile rm =
     (let (res, m) = rm in
      case cpufreq_policies m of
        [] \<Rightarrow> (res(''cpu'' \<mapsto> ''skipped-missing''), m)
      | p0 # ps \<Rightarrow>
          let (capable, m) = epp_capable p0 m in
          if \<not> capable
          then (res(''scaling_governor'' \<mapsto> ''skipped-unsupported'',
                    ''energy_performance_preference'' \<mapsto> ''skipped-unsupported''), m)
          else
            let (sts, m) = map_knobs (governor_knob (governor profile)) (p0 # ps) m;
                res = res(''scaling_governor'' \<mapsto> merge_row sts)
            in (case epp profile of
                  None \<Rightarrow> (res, m)
                | Some v \<Rightarrow>
                    let (sts, m) = map_knobs
                          (\<lambda>pol. knob_write (path_join pol ''energy_performance_preference'') v) (p0 # ps) m
                    in (res(''energy_performance_preference'' \<mapsto> merge_row sts), m)))"

definition boost_row :: "power_profile \<Rightarrow> results \<times> machine \<Rightarrow> results \<times> machine" where
  "boost_row profile rm =
     (let (res, m) = rm; boost_path = path_join CPUFREQ_DIR ''boost'' in
      if m_exists m boost_path
      then let (st, m) = knob_write boost_path (boost profile) m in (res(''boost'' \<mapsto> st), m)
      else if m_exists m INTEL_NO_TURBO_PATH
      then let (st, m) = knob_write INTEL_NO_TURBO_PATH
                 (if profile = PowerSaver then ''1'' else ''0'') m
           in (res(''no_turbo'' \<mapsto> st), m)
      else (res(''boost'' \<mapsto> ''skipped-missing''), m))"

section \<open>GPU rows\<close>

definition classified :: "gpu_snapshot \<Rightarrow> nat option" where
  "classified snap = (if 2 \<le> length (gs_cards snap) then integrated_card (gs_cards snap) else None)"

definition card_dev :: "gpu_card \<Rightarrow> string" where
  "card_dev c = path_join (path_join DRM_DIR (gc_card c)) ''device''"

definition dpm_label :: "gpu_card \<Rightarrow> string" where
  "dpm_label c = ''dpm:'' @ pci_key (gc_path c)"

definition gpu_card_row ::
  "power_profile \<Rightarrow> nat \<Rightarrow> nat \<times> gpu_card \<Rightarrow> results \<times> machine \<Rightarrow> results \<times> machine" where
  "gpu_card_row profile integrated ic rm =
     (let (res, m) = rm; (i, c) = ic;
          knob = path_join (card_dev c) ''power_dpm_force_performance_level''
      in if i = integrated
         then let (st, m) = knob_write knob ''auto'' m in (res(dpm_label c \<mapsto> st), m)
         else let (status, m) = read_to_string (path_join (card_dev c) ''power/runtime_status'') m in
           case status of
             None \<Rightarrow> (res(dpm_label c \<mapsto> ''skipped-missing''), m)
           | Some st \<Rightarrow>
               if trim st = ''suspended'' then (res(dpm_label c \<mapsto> ''skipped-suspended''), m)
               else let (st, m) = knob_write knob (dgpu_dpm profile) m in (res(dpm_label c \<mapsto> st), m))"

definition gpu_rows :: "power_profile \<Rightarrow> results \<times> machine \<Rightarrow> results \<times> machine" where
  "gpu_rows profile rm =
     (let (res, m) = rm; snap = read_gpu_snapshot (fs_of m) in
      if gs_cards snap = [] then (res(''gpu'' \<mapsto> ''skipped-missing''), m)
      else case classified snap of
          None \<Rightarrow> (res(''gpu'' \<mapsto> ''skipped-ambiguous''), m)
        | Some k \<Rightarrow> fold (gpu_card_row profile k) (enumerate 0 (gs_cards snap)) (res, m))"

definition runtime_pm_row :: "string \<Rightarrow> gpu_card \<Rightarrow> results \<times> machine \<Rightarrow> results \<times> machine" where
  "runtime_pm_row v c rm =
     (let (res, m) = rm; (st, m) = knob_write (path_join (card_dev c) ''power/control'') v m
      in (res((''runtime_pm:'' @ pci_key (gc_path c)) \<mapsto> st), m))"

definition apply_dgpu_runtime_pm :: "bool \<Rightarrow> machine \<Rightarrow> results \<times> machine" where
  "apply_dgpu_runtime_pm awake m =
     (let snap = read_gpu_snapshot (fs_of m) in
      case classified snap of
        None \<Rightarrow> ([''runtime_pm'' \<mapsto> ''skipped-ambiguous''], m)
      | Some k \<Rightarrow>
          fold (\<lambda>(i, c) rm. if i = k then rm else runtime_pm_row (if awake then ''on'' else ''auto'') c rm)
            (enumerate 0 (gs_cards snap)) (Map.empty, m))"

section \<open>ASPM, platform profile, the whole apply\<close>

definition ASPM_POLICY_PATH :: string where
  "ASPM_POLICY_PATH = ''/sys/module/pcie_aspm/parameters/policy''"

definition trim_brackets :: "string \<Rightarrow> string" where
  "trim_brackets s = (let b = (\<lambda>c. c = CHR ''['' \<or> c = CHR '']'') in
     rev (dropWhile b (rev (dropWhile b s))))"

definition aspm_current :: "string \<Rightarrow> string option" where
  "aspm_current opts = map_option trim_brackets (find (starts_with ''['') (split_whitespace opts))"

definition aspm_row :: "bool \<Rightarrow> power_profile \<Rightarrow> results \<times> machine \<Rightarrow> results \<times> machine" where
  "aspm_row writable profile rm =
     (let (res, m) = rm in
      if \<not> m_exists m ASPM_POLICY_PATH then (res(''pcie_aspm'' \<mapsto> ''skipped-missing''), m)
      else if \<not> writable then (res(''pcie_aspm'' \<mapsto> ''skipped-unsupported''), m)
      else let (read, m) = read_to_string ASPM_POLICY_PATH m in
        case read of
          None \<Rightarrow> (res(''pcie_aspm'' \<mapsto> ''error:'' @ or_default [] (m_unreadable m ASPM_POLICY_PATH)), m)
        | Some opts \<Rightarrow>
            let target = aspm profile in
            if target \<notin> set (map trim_brackets (split_whitespace opts))
            then (res(''pcie_aspm'' \<mapsto> ''skipped-unsupported''), m)
            else if aspm_current opts = Some target then (res(''pcie_aspm'' \<mapsto> ''unchanged''), m)
            else let (st, m) = knob_write ASPM_POLICY_PATH target m in (res(''pcie_aspm'' \<mapsto> st), m))"

definition PLATFORM_PATH :: string where
  "PLATFORM_PATH = ''/sys/firmware/acpi/platform_profile''"
definition PLATFORM_PROFILE_CHOICES_PATH :: string where
  "PLATFORM_PROFILE_CHOICES_PATH = ''/sys/firmware/acpi/platform_profile_choices''"

definition platform_row :: "power_profile \<Rightarrow> results \<times> machine \<Rightarrow> results \<times> machine" where
  "platform_row profile rm =
     (let (res, m) = rm in
      if \<not> m_exists m PLATFORM_PATH then (res(''platform_profile'' \<mapsto> ''skipped-missing''), m)
      else
        let (read, m) = read_to_string PLATFORM_PROFILE_CHOICES_PATH m;
            choices = split_whitespace (or_default [] read)
        in case find (\<lambda>v. v \<in> set choices) (platform_profile_chain profile) of
          Some v \<Rightarrow> let (st, m) = knob_write PLATFORM_PATH v m in (res(''platform_profile'' \<mapsto> st), m)
        | None \<Rightarrow> (res(''platform_profile'' \<mapsto> ''skipped-unsupported''), m))"

definition powerd_apply :: "bool \<Rightarrow> power_profile \<Rightarrow> machine \<Rightarrow> results \<times> machine" where
  "powerd_apply aspm_writable profile m =
     aspm_row aspm_writable profile
       (gpu_rows profile (boost_row profile (cpu_rows profile (platform_row profile (Map.empty, m)))))"

definition aspm_writability_probe :: "machine \<Rightarrow> bool \<times> machine" where
  "aspm_writability_probe m =
     (let (read, m) = read_to_string ASPM_POLICY_PATH m in
      case Option.bind read aspm_current of
        None \<Rightarrow> (False, m)
      | Some cur \<Rightarrow> let (r, m) = write_file ASPM_POLICY_PATH cur m in (r = WriteOk, m))"

section \<open>Persistence\<close>

definition POWERD_STATE_FILE :: string where "POWERD_STATE_FILE = ''/var/lib/hyprstate/profile''"
definition POWERD_DGPU_PIN_FILE :: string where
  "POWERD_DGPU_PIN_FILE = ''/var/lib/hyprstate/dgpu-pin''"

definition persisted_profile :: "machine \<Rightarrow> power_profile" where
  "persisted_profile m =
     (case Option.bind (read_file m POWERD_STATE_FILE) (\<lambda>t.
         Option.bind (first_word t) power_profile_from_str) of
        Some p \<Rightarrow> p | None \<Rightarrow> Balanced)"

text \<open>Temporary file and rename: the state file changes in one step or not at all.\<close>

definition persist :: "bool \<Rightarrow> string \<Rightarrow> string \<Rightarrow> machine \<Rightarrow> machine" where
  "persist ok p text m =
     (if ok then m\<lparr>fs_file := (fs_file m)(p \<mapsto> text), m_unreadable := (m_unreadable m)(p := None)\<rparr> else m)"

definition persist_profile :: "bool \<Rightarrow> power_profile \<Rightarrow> machine \<Rightarrow> machine" where
  "persist_profile ok p m = persist ok POWERD_STATE_FILE (power_profile_as_str p @ [newline]) m"

definition persisted_dgpu_pin :: "machine \<Rightarrow> bool" where
  "persisted_dgpu_pin m = (map_option trim (read_file m POWERD_DGPU_PIN_FILE) = Some ''on'')"

definition persist_dgpu_pin :: "bool \<Rightarrow> bool \<Rightarrow> machine \<Rightarrow> machine" where
  "persist_dgpu_pin ok awake m =
     persist ok POWERD_DGPU_PIN_FILE ((if awake then ''on'' else ''auto'') @ [newline]) m"

section \<open>The live snapshot\<close>

definition snapshot_file :: "string \<times> string \<Rightarrow> results \<times> machine \<Rightarrow> results \<times> machine" where
  "snapshot_file lp om =
     (let (out, m) = om; (read, m) = read_to_string (snd lp) m
      in (case read of Some t \<Rightarrow> out(fst lp \<mapsto> trim t) | None \<Rightarrow> out, m))"

definition snapshot_card :: "gpu_card \<Rightarrow> results \<times> machine \<Rightarrow> results \<times> machine" where
  "snapshot_card c om =
     (let (out, m) = om; (status, m) = read_to_string (path_join (card_dev c) ''power/runtime_status'') m;
          om = (case status of
            None \<Rightarrow> (out, m)
          | Some st \<Rightarrow>
              if trim st = ''suspended'' then (out(dpm_label c \<mapsto> ''(runtime-suspended)''), m)
              else snapshot_file (dpm_label c,
                     path_join (card_dev c) ''power_dpm_force_performance_level'') (out, m))
      in snapshot_file (''runtime_pm:'' @ pci_key (gc_path c), path_join (card_dev c) ''power/control'') om)"

definition knob_snapshot :: "machine \<Rightarrow> results \<times> machine" where
  "knob_snapshot m =
     fold snapshot_card (gs_cards (read_gpu_snapshot (fs_of m)))
       (fold snapshot_file
          [(''platform_profile'', PLATFORM_PATH),
           (''scaling_governor'', path_join CPUFREQ_DIR ''policy0/scaling_governor''),
           (''energy_performance_preference'',
              path_join CPUFREQ_DIR ''policy0/energy_performance_preference''),
           (''boost'', path_join CPUFREQ_DIR ''boost''),
           (''no_turbo'', INTEL_NO_TURBO_PATH),
           (''pcie_aspm'', ASPM_POLICY_PATH)] (Map.empty, m))"

section \<open>One knob\<close>

text \<open>The interface of an idempotent writer: what it reports and what it leaves, over any
  medium. \<open>value_at\<close> is what a reader sees, \<open>faithful\<close> says that the medium keeps the value it is given.\<close>

locale idempotent_writer =
  fixes wr :: "'p \<Rightarrow> 'v \<Rightarrow> 'm \<Rightarrow> 'r \<times> 'm"
    and look :: "'m \<Rightarrow> 'w"
    and value_at :: "'w \<Rightarrow> 'p \<Rightarrow> 'v option"
    and faithful :: "'m \<Rightarrow> 'p \<Rightarrow> 'v \<Rightarrow> bool"
    and written unchanged :: 'r
  assumes distinct_reports: "written \<noteq> unchanged"
    and already: "value_at (look m) p = Some v \<Longrightarrow> fst (wr p v m) = unchanged"
    and unchanged_only: "fst (wr p v m) = unchanged \<Longrightarrow> value_at (look m) p = Some v"
    and not_written: "fst (wr p v m) \<noteq> written \<Longrightarrow> look (snd (wr p v m)) = look m"
    and stored: "fst (wr p v m) = written \<Longrightarrow> faithful m p v \<Longrightarrow> value_at (look (snd (wr p v m))) p = Some v"
    and others: "q \<noteq> p \<Longrightarrow> value_at (look (snd (wr p v m))) q = value_at (look m) q"
begin

lemma report_tells_value:
  "fst (wr p v m) \<in> {written, unchanged} \<Longrightarrow> faithful m p v \<Longrightarrow> value_at (look (snd (wr p v m))) p = Some v"
  using stored [of p v m] unchanged_only [of p v m] not_written [of p v m] distinct_reports by fastforce

lemma second_write_unchanged:
  assumes "fst (wr p v m) \<in> {written, unchanged}" "faithful m p v"
  shows "fst (wr p v (snd (wr p v m))) = unchanged"
    and "look (snd (wr p v (snd (wr p v m)))) = look (snd (wr p v m))"
proof -
  show u: "fst (wr p v (snd (wr p v m))) = unchanged" by (rule already [OF report_tells_value [OF assms]])
  show "look (snd (wr p v (snd (wr p v m)))) = look (snd (wr p v m))"
    by (rule not_written) (use u distinct_reports in simp)
qed

end

text \<open>The machine without its record of accesses.\<close>

definition device :: "machine \<Rightarrow> machine" where
  "device m = m\<lparr>m_opened := []\<rparr>"

definition knob_value :: "machine \<Rightarrow> string \<Rightarrow> string option" where
  "knob_value m p = map_option trim (read_file m p)"

definition plain_knob :: "machine \<Rightarrow> string \<Rightarrow> string \<Rightarrow> bool" where
  "plain_knob m p v = (\<forall>old. trim (m_shows m p old v) = v)"

lemma knob_write_report:
  "fst (knob_write p v m) \<in> {''unchanged'', ''written'', ''skipped-missing'', ''skipped-unsupported''}
     \<or> starts_with ''error:'' (fst (knob_write p v m))"
  by (auto simp: knob_write_def write_file_def starts_with_def Let_def split_beta split: option.split write_result.split)

lemma report_not_error:
  "''error:'' @ e \<noteq> ''unchanged''" "''error:'' @ e \<noteq> ''written''"
  by simp_all

lemma opened_fields [simp]:
  "fs_dir (open_file p m) = fs_dir m" "fs_file (open_file p m) = fs_file m"
  "fs_canonical (open_file p m) = fs_canonical m" "m_unreadable (open_file p m) = m_unreadable m"
  "m_write (open_file p m) = m_write m" "m_shows (open_file p m) = m_shows m"
  "fs_of (open_file p m) = fs_of m" "read_file (open_file p m) = read_file m"
  "m_opened (open_file p m) = m_opened m @ [p]" "device (open_file p m) = device m"
  by (simp_all add: open_file_def fs_of_def read_file_def fun_eq_iff device_def)

lemma device_fields [simp]: "read_file (device m) = read_file m" "fs_of (device m) = fs_of m"
  by (simp_all add: device_def fs_of_def read_file_def fun_eq_iff)

lemma read_to_string_simps [simp]:
  "fst (read_to_string p m) = read_file m p" "snd (read_to_string p m) = open_file p m"
  by (simp_all add: read_to_string_def)

lemma knob_write_unfold:
  "knob_write p v m = (let n = open_file p m in
     case m_unreadable m p of Some e \<Rightarrow> (''error:'' @ e, n)
     | None \<Rightarrow> (case fs_file m p of None \<Rightarrow> (''skipped-missing'', n)
       | Some cur \<Rightarrow> if trim cur = v then (''unchanged'', n)
           else (case write_file p v n of
               (WriteOk, m') \<Rightarrow> (''written'', m')
             | (EBusy, m') \<Rightarrow> (''skipped-unsupported'', m')
             | (EPerm, m') \<Rightarrow> (''skipped-unsupported'', m')
             | (EAcces, m') \<Rightarrow> (''skipped-unsupported'', m')
             | (WriteErr e, m') \<Rightarrow> (''error:'' @ e, m'))))"
  by (simp add: knob_write_def Let_def split_beta read_file_def fs_of_def split: option.split)

text \<open>What a write of a knob opens and changes.\<close>

lemma write_file_fields:
  "fs_dir (snd (write_file p v m)) = fs_dir m" "fs_canonical (snd (write_file p v m)) = fs_canonical m"
  "m_unreadable (snd (write_file p v m)) = m_unreadable m" "m_opened (snd (write_file p v m)) = m_opened m @ [p]"
  "q \<noteq> p \<Longrightarrow> fs_file (snd (write_file p v m)) q = fs_file m q"
  by (simp_all add: write_file_def Let_def split: write_result.split)

lemma knob_write_cases:
  "snd (knob_write p v m) = open_file p m \<or> snd (knob_write p v m) = snd (write_file p v (open_file p m))"
  by (auto simp: knob_write_unfold Let_def split: option.split prod.split write_result.split)

interpretation knob: idempotent_writer knob_write device knob_value plain_knob "''written''" "''unchanged''"
proof unfold_locales
  fix m p v assume "knob_value (device m) p = Some v"
  then show "fst (knob_write p v m) = ''unchanged''"
    by (auto simp: knob_value_def read_file_def fs_of_def knob_write_unfold Let_def device_def split: if_splits)
next
  fix p v m assume "fst (knob_write p v m) = ''unchanged''"
  then show "knob_value (device m) p = Some v"
    by (auto simp: knob_value_def read_file_def fs_of_def knob_write_unfold write_file_def Let_def device_def
        split: option.splits if_splits write_result.splits)
next
  fix p v m assume "fst (knob_write p v m) \<noteq> ''written''"
  then show "device (snd (knob_write p v m)) = device m"
    by (auto simp: knob_write_unfold write_file_def Let_def split: option.splits if_splits write_result.splits)
next
  fix p v m assume "fst (knob_write p v m) = ''written''" "plain_knob m p v"
  then show "knob_value (device (snd (knob_write p v m))) p = Some v"
    by (auto simp: knob_value_def read_file_def fs_of_def knob_write_unfold write_file_def plain_knob_def Let_def
        split: option.splits if_splits write_result.splits)
next
  fix q p :: string and v m assume "q \<noteq> p"
  then show "knob_value (device (snd (knob_write p v m))) q = knob_value (device m) q"
    by (auto simp: knob_value_def read_file_def fs_of_def knob_write_unfold write_file_def Let_def
        split: option.splits if_splits write_result.splits)
qed simp

section \<open>What is stored comes back\<close>

lemma persisted_profile_roundtrip: "persisted_profile (persist_profile True p m) = p"
  using profile_word.stored_roundtrip [of p]
  by (simp add: persisted_profile_def persist_profile_def persist_def read_file_def fs_of_def)

lemma persisted_pin_roundtrip: "persisted_dgpu_pin (persist_dgpu_pin True awake m) = awake"
  by (simp add: persisted_dgpu_pin_def persist_dgpu_pin_def persist_def read_file_def fs_of_def
      trim_def trim_start_def trim_end_def is_whitespace_def newline_def Let_def)

lemma merge_row_cases:
  assumes "ss \<noteq> []" "\<forall>s \<in> set ss. \<not> starts_with ''error'' s"
  shows "merge_row ss = (if ''written'' \<in> set ss then ''written''
     else if \<forall>s \<in> set ss. s = ''unchanged'' then ''unchanged'' else hd ss)"
proof -
  have "find (starts_with ''error'') ss = None" using assms(2) by (simp add: find_None_iff)
  then show ?thesis using assms(1) by (simp add: merge_row_def)
qed

section \<open>Properties\<close>

text \<open>A knob that reports \<open>written\<close> or \<open>unchanged\<close> holds the requested value, and applying it
  again changes nothing and says so; any other report means the machine was left alone. It holds
  for every attribute that shows the value that was written to it.\<close>
lemma knob_report_is_true:
  assumes "plain_knob m p v"
  shows "(fst (knob_write p v m) \<in> {''written'', ''unchanged''} \<longrightarrow>
            knob_value (snd (knob_write p v m)) p = Some v
            \<and> fst (knob_write p v (snd (knob_write p v m))) = ''unchanged''
            \<and> device (snd (knob_write p v (snd (knob_write p v m)))) = device (snd (knob_write p v m)))
     \<and> (fst (knob_write p v m) \<noteq> ''written'' \<longrightarrow> device (snd (knob_write p v m)) = device m)
     \<and> (q \<noteq> p \<longrightarrow> knob_value (snd (knob_write p v m)) q = knob_value m q)"
  using knob.report_tells_value [OF _ assms] knob.second_write_unchanged [OF _ assms]
    knob.not_written [of p v m] knob.others [of q p v m]
  by (simp add: knob_value_def)

definition demo_machine :: machine where
  "demo_machine = \<lparr>fs_dir = (\<lambda>d. None),
     fs_file = (\<lambda>p. if p = ''/sys/boost'' then Some (''1'' @ [newline]) else None),
     fs_canonical = (\<lambda>p. None), m_unreadable = (\<lambda>p. None), m_write = (\<lambda>p v. WriteOk),
     m_shows = (\<lambda>p old v. v @ [newline]), m_opened = []\<rparr>"

lemma knob_report_is_true_witness:
  "fst (knob_write ''/sys/boost'' ''0'' demo_machine) = ''written''
   \<and> knob_value (snd (knob_write ''/sys/boost'' ''0'' demo_machine)) ''/sys/boost'' = Some ''0''"
proof -
  have w: "fst (knob_write ''/sys/boost'' ''0'' demo_machine) = ''written''"
    by (simp add: knob_write_unfold write_file_def open_file_def Let_def demo_machine_def trim_def trim_start_def trim_end_def
        is_whitespace_def newline_def)
  have "plain_knob demo_machine ''/sys/boost'' ''0''"
    by (simp add: plain_knob_def demo_machine_def trim_def trim_start_def trim_end_def
        is_whitespace_def newline_def)
  from knob_report_is_true [OF this] w show ?thesis by simp
qed

definition dpm_path :: "gpu_card \<Rightarrow> string" where
  "dpm_path c = path_join (card_dev c) ''power_dpm_force_performance_level''"

definition status_path :: "gpu_card \<Rightarrow> string" where
  "status_path c = path_join (card_dev c) ''power/runtime_status''"

lemma dpm_path_inj: "dpm_path c = dpm_path d \<longleftrightarrow> gc_card c = gc_card d"
  by (simp add: dpm_path_def card_dev_def path_join_def)

lemma dpm_not_status: "dpm_path c \<noteq> status_path d"
proof
  assume "dpm_path c = status_path d"
  then have "last (dpm_path c) = last (status_path d)" by simp
  then show False by (simp add: dpm_path_def status_path_def path_join_def)
qed

section \<open>What is opened\<close>

text \<open>From \<open>m\<close> to \<open>m'\<close> only attributes in \<open>R\<close> were opened and only the contents of those in \<open>W\<close> changed.\<close>

definition touches :: "string set \<Rightarrow> string set \<Rightarrow> machine \<Rightarrow> machine \<Rightarrow> bool" where
  "touches R W m m' \<longleftrightarrow> (\<exists>es. m_opened m' = m_opened m @ es \<and> set es \<subseteq> R)
     \<and> (\<forall>q. q \<notin> W \<longrightarrow> fs_file m' q = fs_file m q)
     \<and> fs_dir m' = fs_dir m \<and> fs_canonical m' = fs_canonical m \<and> m_unreadable m' = m_unreadable m"

named_theorems touch_intros \<open>what the rows open and change\<close>

lemma touches_refl [touch_intros]: "touches R W m m"
  by (simp add: touches_def)

lemma touches_trans [trans]: "touches R W m m' \<Longrightarrow> touches R W m' m'' \<Longrightarrow> touches R W m m''"
  by (auto simp: touches_def)

lemma touches_mono: "touches R W m m' \<Longrightarrow> R \<subseteq> R' \<Longrightarrow> W \<subseteq> W' \<Longrightarrow> touches R' W' m m'"
  by (fastforce simp: touches_def)

lemma touches_file: "touches R W m m' \<Longrightarrow> q \<notin> W \<Longrightarrow> read_file m' q = read_file m q"
  by (simp add: touches_def read_file_def fs_of_def)

lemma touches_open [touch_intros]: "touches R W m n \<Longrightarrow> p \<in> R \<Longrightarrow> touches R W m (open_file p n)"
  by (auto simp: touches_def)

lemma touches_write [touch_intros]:
  "touches R W m n \<Longrightarrow> p \<in> R \<Longrightarrow> p \<in> W \<Longrightarrow> touches R W m (snd (knob_write p v n))"
  using knob_write_cases [of p v n] write_file_fields [where p = p and v = v and m = "open_file p n"]
  by (elim disjE) (auto simp: touches_def, metis)

lemma touches_map:
  "(\<And>p n. p \<in> set ps \<Longrightarrow> touches R W n (snd (f p n))) \<Longrightarrow> touches R W m (snd (map_knobs f ps m))"
proof (induction ps arbitrary: m)
  case (Cons p ps)
  have "touches R W m (snd (f p m))" "touches R W (snd (f p m)) (snd (map_knobs f ps (snd (f p m))))"
    using Cons by simp_all
  from touches_trans [OF this] show ?case by (simp add: Let_def split_beta)
qed (simp add: touches_refl)

lemma touches_fold:
  "(\<And>x rm. x \<in> set xs \<Longrightarrow> touches R W (snd rm) (snd (f x rm))) \<Longrightarrow> touches R W (snd rm) (snd (fold f xs rm))"
proof (induction xs arbitrary: rm)
  case (Cons x xs)
  have "touches R W (snd rm) (snd (f x rm))" "touches R W (snd (f x rm)) (snd (fold f xs (f x rm)))"
    using Cons by simp_all
  from touches_trans [OF this] show ?case by simp
qed (simp add: touches_refl)

text \<open>The rows outside the GPUs stay outside the directory of the cards.\<close>

definition elsewhere :: "string set" where
  "elsewhere = {p. \<not> starts_with DRM_DIR p \<and> \<not> starts_with LID_STATE_GLOB_DIR p}"

lemma cpufreq_elsewhere:
  "path_join CPUFREQ_DIR n \<in> elsewhere" "path_join (path_join CPUFREQ_DIR n) k \<in> elsewhere"
  by (simp_all add: elsewhere_def path_join_def CPUFREQ_DIR_def DRM_DIR_def LID_STATE_GLOB_DIR_def starts_with_def)

lemma paths_elsewhere:
  "INTEL_NO_TURBO_PATH \<in> elsewhere" "ASPM_POLICY_PATH \<in> elsewhere" "PLATFORM_PATH \<in> elsewhere"
  "PLATFORM_PROFILE_CHOICES_PATH \<in> elsewhere"
  by (simp_all add: elsewhere_def INTEL_NO_TURBO_PATH_def ASPM_POLICY_PATH_def PLATFORM_PATH_def
      PLATFORM_PROFILE_CHOICES_PATH_def DRM_DIR_def LID_STATE_GLOB_DIR_def starts_with_def)

lemma touches_platform: "touches elsewhere elsewhere (snd rm) (snd (platform_row p rm))"
  by (auto simp: platform_row_def Let_def split_beta paths_elsewhere intro!: touch_intros split: option.split)

lemma touches_boost: "touches elsewhere elsewhere (snd rm) (snd (boost_row p rm))"
  by (auto simp: boost_row_def Let_def split_beta paths_elsewhere cpufreq_elsewhere intro!: touch_intros)

lemma touches_aspm: "touches elsewhere elsewhere (snd rm) (snd (aspm_row w p rm))"
  by (auto simp: aspm_row_def Let_def split_beta paths_elsewhere intro!: touch_intros split: option.split)

lemma touches_cpu: "touches elsewhere elsewhere (snd rm) (snd (cpu_rows p rm))"
proof (cases "cpufreq_policies (snd rm)")
  case Nil
  then show ?thesis by (simp add: cpu_rows_def Let_def split_beta touches_refl)
next
  case (Cons p0 ps)
  have pol: "\<exists>n. q = path_join CPUFREQ_DIR n" if "q \<in> set (p0 # ps)" for q
    using that unfolding Cons [symmetric] by (auto simp: cpufreq_policies_def)
  let ?m = "snd (epp_capable p0 (snd rm))"
  have e: "touches elsewhere elsewhere (snd rm) ?m"
    using pol [of p0] by (auto simp: epp_capable_def Let_def split_beta cpufreq_elsewhere intro!: touch_intros)
  have g: "touches elsewhere elsewhere n (snd (governor_knob gov q n))" if "q \<in> set (p0 # ps)" for gov q n
    using pol [OF that] by (auto simp: governor_knob_def Let_def split_beta cpufreq_elsewhere intro!: touch_intros)
  have k: "touches elsewhere elsewhere n (snd (knob_write (path_join q a) v n))" if "q \<in> set (p0 # ps)" for a v q n
    using pol [OF that] by (auto simp: cpufreq_elsewhere intro!: touch_intros)
  let ?n = "snd (map_knobs (governor_knob (governor p)) (p0 # ps) ?m)"
  have n: "touches elsewhere elsewhere (snd rm) ?n"
    by (rule touches_trans [OF e touches_map [OF g]])
  have "touches elsewhere elsewhere (snd rm)
      (snd (map_knobs (\<lambda>pol. knob_write (path_join pol ''energy_performance_preference'') v) (p0 # ps) ?n))" for v
    by (rule touches_trans [OF n touches_map [OF k]])
  with e n show ?thesis
    by (simp add: cpu_rows_def Cons Let_def split_beta del: map_knobs.simps split: option.split)
qed

section \<open>The discovery of the cards\<close>

text \<open>The attributes \<open>read_gpu_snapshot\<close> reads.\<close>

definition discovery_path :: "string \<Rightarrow> bool" where
  "discovery_path p \<longleftrightarrow> starts_with LID_STATE_GLOB_DIR p
     \<or> (starts_with DRM_DIR p \<and> (\<exists>d. \<exists>n \<in> {''class'', ''boot_vga'', ''mem_info_vram_total'', ''status''}. p = path_join d n))"

lemma discovery_cong:
  assumes d: "fs_dir fs' = fs_dir fs" and c: "fs_canonical fs' = fs_canonical fs"
    and f: "\<And>p. discovery_path p \<Longrightarrow> fs_file fs' p = fs_file fs p"
  shows "read_gpu_snapshot fs' = read_gpu_snapshot fs"
proof -
  have drm: "fs_file fs' (path_join (path_join DRM_DIR x) ''status'') = fs_file fs (path_join (path_join DRM_DIR x) ''status'')"
    "fs_file fs' (path_join (path_join (path_join DRM_DIR x) y) n) = fs_file fs (path_join (path_join (path_join DRM_DIR x) y) n)"
    if "n \<in> {''class'', ''boot_vga'', ''mem_info_vram_total''}" for x y n
    using that by (auto intro!: f simp: discovery_path_def path_join_def starts_with_def DRM_DIR_def)
  have lid: "fs_file fs' (path_join (path_join LID_STATE_GLOB_DIR x) ''state'')
      = fs_file fs (path_join (path_join LID_STATE_GLOB_DIR x) ''state'')" for x
    by (intro f) (simp add: discovery_path_def path_join_def starts_with_def LID_STATE_GLOB_DIR_def)
  have n: "connector_connected fs' x = connector_connected fs x" for x
    using drm(1) [of "''class''"] by (simp add: connector_connected_def)
  have conn: "card_connectors fs' x = card_connectors fs x" for x
    by (simp add: card_connectors_def connector_of_def n d cong: if_cong option.case_cong)
  have cand: "is_gpu_candidate fs' l x = is_gpu_candidate fs l x" "gpu_card_at fs' l x = gpu_card_at fs l x"
    "card_of_link fs' l = card_of_link fs l" for l x
    using drm(2) by (simp_all add: is_gpu_candidate_def gpu_card_at_def read_int_def conn card_of_link_def c Let_def)
  have "scan_cards fs' ls acc = scan_cards fs ls acc" for ls acc
  proof (induction ls arbitrary: acc)
    case (Cons l ls)
    then show ?case by (cases acc) (simp add: cand conn Let_def split_beta)
  qed simp
  moreover have "first_lid_state fs' xs = first_lid_state fs xs" for xs
    by (induction xs) (simp_all add: lid split: option.split)
  then have "lid_closed_sysfs fs' = lid_closed_sysfs fs" by (simp add: lid_closed_sysfs_def d split: option.split)
  ultimately show ?thesis by (simp add: read_gpu_snapshot_def d)
qed

lemma touches_snapshot:
  assumes "touches R elsewhere m m'"
  shows "read_gpu_snapshot (fs_of m') = read_gpu_snapshot (fs_of m)"
  using assms
  by (intro discovery_cong) (auto simp: touches_def fs_of_def elsewhere_def discovery_path_def)

section \<open>The rows of the cards\<close>

text \<open>A sleeping card, as a row sees it.\<close>

definition asleep :: "machine \<Rightarrow> gpu_card \<Rightarrow> bool" where
  "asleep m c = (map_option trim (read_file m (status_path c)) = Some ''suspended'')"

text \<open>What the rows of the other cards may change, and what they may open.\<close>

definition other_knobs :: "gpu_card \<Rightarrow> string set" where
  "other_knobs c = {p. \<exists>d. gc_card d \<noteq> gc_card c \<and> p = dpm_path d}"

lemma status_kept: "status_path c \<notin> other_knobs d"
  by (auto simp: other_knobs_def dpm_not_status [symmetric])

lemma gpu_card_row_touches:
  assumes "asleep (snd rm) c" and "i \<noteq> k \<or> gc_card d \<noteq> gc_card c"
  shows "touches (- {dpm_path c}) (other_knobs c) (snd rm) (snd (gpu_card_row profile k (i, d) rm))"
proof (cases "gc_card d = gc_card c")
  case True
  then have "status_path d = status_path c" by (simp add: status_path_def card_dev_def)
  then have "asleep (snd rm) d" "status_path d \<noteq> dpm_path c" "i \<noteq> k"
    using assms True dpm_not_status [of c d] by (auto simp: asleep_def)
  then show ?thesis
    by (auto simp: gpu_card_row_def asleep_def status_path_def Let_def split_beta intro!: touch_intros split: option.split)
next
  case False
  then have "dpm_path d \<in> other_knobs c" "dpm_path d \<noteq> dpm_path c" by (auto simp: other_knobs_def dpm_path_inj)
  then show ?thesis
    using dpm_not_status [of c d]
    by (auto simp: gpu_card_row_def dpm_path_def [symmetric] status_path_def [symmetric] Let_def split_beta
        intro!: touch_intros split: option.split)
qed

lemma asleep_kept: "touches R (other_knobs c) m m' \<Longrightarrow> asleep m' c = asleep m c"
  using touches_file [OF _ status_kept] by (simp add: asleep_def)

lemma gpu_card_rows_touch:
  assumes "asleep (snd rm) c" and "\<And>i d. (i, d) \<in> set ics \<Longrightarrow> i \<noteq> k \<or> gc_card d \<noteq> gc_card c"
  shows "touches (- {dpm_path c}) (other_knobs c) (snd rm) (snd (fold (gpu_card_row profile k) ics rm))"
  using assms
proof (induction ics arbitrary: rm)
  case (Cons ic ics)
  obtain i d where ic: "ic = (i, d)" by fastforce
  have t: "touches (- {dpm_path c}) (other_knobs c) (snd rm) (snd (gpu_card_row profile k ic rm))"
    using Cons.prems unfolding ic by (intro gpu_card_row_touches) auto
  have "asleep (snd (gpu_card_row profile k ic rm)) c" using asleep_kept [OF t] Cons.prems(1) by simp
  then have "touches (- {dpm_path c}) (other_knobs c) (snd (gpu_card_row profile k ic rm))
      (snd (fold (gpu_card_row profile k) ics (gpu_card_row profile k ic rm)))"
    by (rule Cons.IH) (use Cons.prems(2) in auto)
  from touches_trans [OF t this] show ?case by simp
qed (simp add: touches_refl)

lemma gpu_rows_touch:
  assumes c: "c \<in> set (gs_cards (read_gpu_snapshot (fs_of (snd rm))))" and "asleep (snd rm) c"
    and dgpu: "\<And>k. classified (read_gpu_snapshot (fs_of (snd rm))) = Some k
       \<Longrightarrow> gs_cards (read_gpu_snapshot (fs_of (snd rm))) ! k \<noteq> c"
  shows "touches (- {dpm_path c}) (other_knobs c) (snd rm) (snd (gpu_rows profile rm))"
proof (cases "classified (read_gpu_snapshot (fs_of (snd rm)))")
  case None
  then show ?thesis by (simp add: gpu_rows_def Let_def split_beta touches_refl)
next
  case (Some k)
  let ?cards = "gs_cards (read_gpu_snapshot (fs_of (snd rm)))"
  have d: "distinct (map gc_card ?cards)" by (rule read_gpu_snapshot_distinct)
  have "i \<noteq> k \<or> gc_card e \<noteq> gc_card c" if ie: "(i, e) \<in> set (enumerate 0 ?cards)" for i e
  proof -
    have e: "e \<in> set ?cards" "?cards ! i = e" using ie by (auto simp: in_set_enumerate_eq)
    then have "gc_card e = gc_card c \<Longrightarrow> e = c" using d c by (auto simp: distinct_map inj_on_def)
    then show ?thesis using dgpu [OF Some] e by auto
  qed
  then have "touches (- {dpm_path c}) (other_knobs c) (snd rm) (snd (fold (gpu_card_row profile k) (enumerate 0 ?cards) rm))"
    by (rule gpu_card_rows_touch [OF assms(2)])
  then show ?thesis using Some by (simp add: gpu_rows_def Let_def split_beta touches_refl)
qed

lemma card_paths: "dpm_path c \<notin> elsewhere" "status_path c \<notin> elsewhere"
  by (simp_all add: elsewhere_def dpm_path_def status_path_def card_dev_def path_join_def DRM_DIR_def starts_with_def)

lemma discovery_not_dpm: "\<not> discovery_path (dpm_path c)"
proof
  assume "discovery_path (dpm_path c)"
  then have "take 3 (rev (dpm_path c)) \<in> {''ssa'', ''agv'', ''lat'', ''sut''}"
    by (auto simp: discovery_path_def path_join_def dpm_path_def card_dev_def starts_with_def DRM_DIR_def
        LID_STATE_GLOB_DIR_def)
  then show False by (simp add: dpm_path_def path_join_def)
qed

text \<open>The whole apply, and the query for the live values.\<close>

lemma powerd_apply_touches:
  assumes c: "c \<in> set (gs_cards (read_gpu_snapshot (fs_of m)))" and "asleep m c"
    and dgpu: "\<And>k. classified (read_gpu_snapshot (fs_of m)) = Some k \<Longrightarrow> gs_cards (read_gpu_snapshot (fs_of m)) ! k \<noteq> c"
  shows "touches (- {dpm_path c}) (other_knobs c \<union> elsewhere) m (snd (powerd_apply writable profile m))"
proof -
  let ?W = "other_knobs c \<union> elsewhere"
  let ?b = "boost_row profile (cpu_rows profile (platform_row profile (Map.empty, m)))"
  have b: "touches elsewhere elsewhere m (snd ?b)"
    using touches_trans [OF touches_trans [OF touches_platform touches_cpu] touches_boost] by fastforce
  have s: "read_gpu_snapshot (fs_of (snd ?b)) = read_gpu_snapshot (fs_of m)" by (rule touches_snapshot [OF b])
  have "asleep (snd ?b) c" using touches_file [OF b card_paths(2)] assms(2) by (simp add: asleep_def)
  then have g: "touches (- {dpm_path c}) (other_knobs c) (snd ?b) (snd (gpu_rows profile ?b))"
    using c dgpu by (intro gpu_rows_touch) (simp_all add: s)
  have e: "elsewhere \<subseteq> - {dpm_path c}" using card_paths(1) by blast
  have "touches (- {dpm_path c}) ?W m (snd ?b)" "touches (- {dpm_path c}) ?W (snd ?b) (snd (gpu_rows profile ?b))"
    "touches (- {dpm_path c}) ?W (snd (gpu_rows profile ?b)) (snd (aspm_row writable profile (gpu_rows profile ?b)))"
    by (rule touches_mono [OF b e] touches_mono [OF g] touches_mono [OF touches_aspm e]; blast)+
  from touches_trans [OF touches_trans [OF this(1,2)] this(3)] show ?thesis by (simp add: powerd_apply_def)
qed

lemma snapshot_file_touches [touch_intros]:
  "touches R W m (snd om) \<Longrightarrow> p \<in> R \<Longrightarrow> touches R W m (snd (snapshot_file (l, p) om))"
  by (auto simp: snapshot_file_def Let_def split_beta intro!: touch_intros)

lemma snapshot_card_touches:
  assumes "asleep (snd om) c"
  shows "touches (- {dpm_path c}) {} (snd om) (snd (snapshot_card d om))"
proof -
  have p: "status_path d \<noteq> dpm_path c" "path_join (card_dev d) ''power/control'' \<noteq> dpm_path c"
  proof -
    show "status_path d \<noteq> dpm_path c" using dpm_not_status by metis
    have "last (path_join (card_dev d) ''power/control'') = last (dpm_path c) \<and> rev (path_join (card_dev d) ''power/control'') ! 1
        \<noteq> rev (dpm_path c) ! 1" by (simp add: path_join_def dpm_path_def)
    then show "path_join (card_dev d) ''power/control'' \<noteq> dpm_path c" by metis
  qed
  have d: "dpm_path d \<noteq> dpm_path c \<or> asleep (snd om) d"
    using assms by (auto simp: dpm_path_inj asleep_def status_path_def card_dev_def)
  show ?thesis
    using p d
    by (auto simp: snapshot_card_def asleep_def status_path_def [symmetric] dpm_path_def [symmetric] Let_def split_beta
        split: option.split intro!: touch_intros)
qed

lemma knob_snapshot_touches:
  assumes "asleep m c"
  shows "touches (- {dpm_path c}) {} m (snd (knob_snapshot m))"
proof -
  let ?files = "[(''platform_profile'', PLATFORM_PATH), (''scaling_governor'', path_join CPUFREQ_DIR ''policy0/scaling_governor''),
     (''energy_performance_preference'', path_join CPUFREQ_DIR ''policy0/energy_performance_preference''),
     (''boost'', path_join CPUFREQ_DIR ''boost''), (''no_turbo'', INTEL_NO_TURBO_PATH), (''pcie_aspm'', ASPM_POLICY_PATH)]"
  let ?o = "fold snapshot_file ?files (Map.empty, m)"
  have "\<forall>lp \<in> set ?files. snd lp \<noteq> dpm_path c"
    using card_paths(1) paths_elsewhere cpufreq_elsewhere by (auto; metis)
  then have o: "touches (- {dpm_path c}) {} m (snd ?o)"
    using touches_fold [of ?files "- {dpm_path c}" "{}" snapshot_file "(Map.empty, m)"]
    by (fastforce intro!: touch_intros)
  have "touches (- {dpm_path c}) {} (snd ?o) (snd (fold snapshot_card cs om))"
    if "touches (- {dpm_path c}) {} (snd ?o) (snd om)" "asleep (snd om) c" for cs om
    using that
  proof (induction cs arbitrary: om)
    case (Cons d cs)
    have t: "touches (- {dpm_path c}) {} (snd om) (snd (snapshot_card d om))" by (rule snapshot_card_touches [OF Cons.prems(2)])
    have "asleep (snd (snapshot_card d om)) c" using touches_file [OF t] Cons.prems(2) by (simp add: asleep_def)
    then show ?case using Cons.IH [OF touches_trans [OF Cons.prems(1) t]] by simp
  qed simp
  moreover have "asleep (snd ?o) c" using touches_file [OF o] assms by (simp add: asleep_def)
  ultimately show ?thesis using touches_trans [OF o] touches_refl unfolding knob_snapshot_def by blast
qed

text \<open>C22: powerd never wakes a discrete GPU that is asleep: on a machine where a card other than the
  integrated one is runtime-suspended, a whole apply of any profile never opens the card's power level
  attribute, for reading or writing, and leaves it as it was; the query for the live values does
  not open it either; and the discovery of the cards does not depend on it.\<close>
theorem sleeping_gpu_is_left_alone:
  assumes "c \<in> set (gs_cards (read_gpu_snapshot (fs_of m)))" and "asleep m c"
    and "\<And>k. classified (read_gpu_snapshot (fs_of m)) = Some k \<Longrightarrow> gs_cards (read_gpu_snapshot (fs_of m)) ! k \<noteq> c"
  shows "(\<exists>es. m_opened (snd (powerd_apply writable profile m)) = m_opened m @ es \<and> dpm_path c \<notin> set es)
     \<and> fs_file (snd (powerd_apply writable profile m)) (dpm_path c) = fs_file m (dpm_path c)
     \<and> (\<exists>es. m_opened (snd (knob_snapshot m)) = m_opened m @ es \<and> dpm_path c \<notin> set es)
     \<and> read_gpu_snapshot (fs_of (m\<lparr>fs_file := (fs_file m)(dpm_path c := content)\<rparr>)) = read_gpu_snapshot (fs_of m)"
proof -
  have "dpm_path c \<notin> other_knobs c \<union> elsewhere" using card_paths(1) by (auto simp: other_knobs_def dpm_path_inj)
  moreover have "read_gpu_snapshot (fs_of (m\<lparr>fs_file := (fs_file m)(dpm_path c := content)\<rparr>)) = read_gpu_snapshot (fs_of m)"
    using discovery_not_dpm [of c] by (intro discovery_cong) (auto simp: fs_of_def)
  ultimately show ?thesis
    using powerd_apply_touches [OF assms, of writable profile] knob_snapshot_touches [OF assms(2)]
    unfolding touches_def by blast
qed

text \<open>A laptop with a sleeping second card.\<close>

definition hybrid_machine :: machine where
  "hybrid_machine = \<lparr>fs_dir = (\<lambda>d. if d = ''/dev/dri/by-path'' then Some [''pci-a-card'', ''pci-b-card''] else None),
     fs_file = map_of
       [(''/sys/class/drm/card0/device/class'', ''0x030000''), (''/sys/class/drm/card1/device/class'', ''0x030000''),
        (''/sys/class/drm/card0/device/mem_info_vram_total'', ''512''),
        (''/sys/class/drm/card1/device/mem_info_vram_total'', ''8192''),
        (''/sys/class/drm/card1/device/power/runtime_status'', ''suspended''),
        (''/sys/class/drm/card1/device/power_dpm_force_performance_level'', ''auto'')],
     fs_canonical = (\<lambda>p. Some (if p = ''/dev/dri/by-path/pci-a-card'' then ''/dev/dri/card0'' else ''/dev/dri/card1'')),
     m_unreadable = (\<lambda>p. None), m_write = (\<lambda>p v. WriteOk), m_shows = (\<lambda>p old v. v), m_opened = []\<rparr>"

definition hybrid_cards :: "gpu_card list" where
  "hybrid_cards = [\<lparr>gc_path = ''/dev/dri/by-path/pci-a-card'', gc_card = ''card0'', gc_boot_vga = 0, gc_vram = 512,
       gc_external = 0, gc_edp = 0\<rparr>,
     \<lparr>gc_path = ''/dev/dri/by-path/pci-b-card'', gc_card = ''card1'', gc_boot_vga = 0, gc_vram = 8192,
       gc_external = 0, gc_edp = 0\<rparr>]"

lemma hybrid_reads: 
  "read_int (fs_of hybrid_machine) ''/sys/class/drm/card0/device/mem_info_vram_total'' 0 = 512"
  "read_int (fs_of hybrid_machine) ''/sys/class/drm/card1/device/mem_info_vram_total'' 0 = 8192"
  "read_int (fs_of hybrid_machine) ''/sys/class/drm/card1/device/boot_vga'' 0 = 0"
  "read_int (fs_of hybrid_machine) ''/sys/class/drm/card0/device/boot_vga'' 0 = 0"
  "card_connectors (fs_of hybrid_machine) cardn = (0, 0)"
  by (simp_all add: hybrid_machine_def fs_of_def read_int_def card_connectors_def DRM_DIR_def trim_no_ws
      is_whitespace_def strip_prefix_def starts_with_def parse_unsigned_def parse_digits_def
      is_ascii_digit_def or_default_def Let_def)

lemma hybrid_links:
  "sort (filter (ends_with ''-card'') (map (path_join DRI_BY_PATH)
     (or_default [] (fs_dir (fs_of hybrid_machine) DRI_BY_PATH))))
   = [''/dev/dri/by-path/pci-a-card'', ''/dev/dri/by-path/pci-b-card'']"
  "card_of_link (fs_of hybrid_machine) ''/dev/dri/by-path/pci-a-card'' = ''card0''"
  "card_of_link (fs_of hybrid_machine) ''/dev/dri/by-path/pci-b-card'' = ''card1''"
  "is_gpu_candidate (fs_of hybrid_machine) ''/dev/dri/by-path/pci-a-card'' ''card0''"
  "is_gpu_candidate (fs_of hybrid_machine) ''/dev/dri/by-path/pci-b-card'' ''card1''"
  by code_simp+

lemma hybrid_snapshot: "gs_cards (read_gpu_snapshot (fs_of hybrid_machine)) = hybrid_cards"
  by (simp add: read_gpu_snapshot_def hybrid_links gpu_card_at_def hybrid_reads hybrid_cards_def
      path_join_def DRM_DIR_def starts_with_def Let_def)
lemma hybrid_integrated: "integrated_card hybrid_cards = Some 0"
  by code_simp

lemma hybrid_asleep: "asleep hybrid_machine (hybrid_cards ! 1)"
  by (simp add: asleep_def read_file_def fs_of_def hybrid_machine_def hybrid_cards_def status_path_def
      card_dev_def path_join_def DRM_DIR_def trim_no_ws is_whitespace_def)

theorem sleeping_gpu_is_left_alone_witness:
  "dpm_path (hybrid_cards ! 1) \<notin> set (m_opened (snd (powerd_apply True PowerSaver hybrid_machine)))"
proof -
  have "hybrid_cards ! 1 \<in> set (gs_cards (read_gpu_snapshot (fs_of hybrid_machine)))"
    by (simp add: hybrid_snapshot hybrid_cards_def)
  moreover have "gs_cards (read_gpu_snapshot (fs_of hybrid_machine)) ! k \<noteq> hybrid_cards ! 1"
    if "classified (read_gpu_snapshot (fs_of hybrid_machine)) = Some k" for k
    using that by (simp add: classified_def hybrid_snapshot hybrid_integrated split: if_splits)
      (simp add: hybrid_cards_def)
  moreover have "m_opened hybrid_machine = []" by (simp add: hybrid_machine_def)
  ultimately show ?thesis
    using sleeping_gpu_is_left_alone [OF _ hybrid_asleep, of True PowerSaver] by auto
qed

end
