(* ===== verification/Powerd.thy ===== *)
theory Powerd
  imports Knobs
begin

text \<open>
  The root effector's D-Bus object, \<open>src/powerd/mod.rs\<close>, under concurrency. The runtime has
  one thread (\<open>src/main.rs\<close>), so a task runs without interruption from one \<open>await\<close> to the
  next. A call stores the latest request and waits for the first-in first-out apply lock
  (\<open>call_apply\<close>); with the lock it is answered as superseded, or applies, records and persists
  the profile (\<open>acquire\<close>); the lock is held while the two signals are sent, and then the call
  is answered (\<open>finish\<close>). The resume handler reads the active profile and applies it in one
  step. \<open>run\<close> serves the object before it applies the persisted profile: between the two it waits
  for the bus, and a call that arrives there, such as the one that activated powerd, may be handled
  first (\<open>powerd_serve\<close>, \<open>startup_apply\<close>). The two signals of a call are not recorded.
\<close>

section \<open>State and replies\<close>

datatype reply =
    InvalidProfile string
  | Superseded string
  | Applied results

record powerd =
  pd_active :: power_profile
  pd_latest :: "power_profile option"
  pd_holder :: "(nat \<times> results) option"
  pd_waiting :: "(nat \<times> power_profile) list"
  pd_replies :: "(nat \<times> reply) list"
  pd_machine :: machine
  pd_on_hardware :: "power_profile option"
  pd_aspm_writable :: bool
  pd_starting :: "power_profile option"

definition superseded_by :: "power_profile option \<Rightarrow> string" where
  "superseded_by latest = ''superseded-by:'' @ (case latest of Some p \<Rightarrow> power_profile_as_str p | None \<Rightarrow> ''?'')"

definition hardware_apply :: "power_profile \<Rightarrow> powerd \<Rightarrow> results \<times> powerd" where
  "hardware_apply p s =
     (let (res, m) = powerd_apply (pd_aspm_writable s) p (pd_machine s)
      in (res, s\<lparr>pd_machine := m, pd_on_hardware := Some p\<rparr>))"

text \<open>\<open>run\<close> up to serving: probe and read the persisted profile. What \<open>run\<close> read stays in
  \<open>pd_starting\<close> until it is applied, with the persisted pin.\<close>

definition powerd_serve :: "machine \<Rightarrow> powerd" where
  "powerd_serve m =
     (let (writable, m) = aspm_writability_probe m;
          active = persisted_profile m
      in \<lparr>pd_active = active, pd_latest = None, pd_holder = None, pd_waiting = [],
          pd_replies = [], pd_machine = m, pd_on_hardware = None,
          pd_aspm_writable = writable, pd_starting = Some active\<rparr>)"

definition startup_apply :: "power_profile \<Rightarrow> powerd \<Rightarrow> powerd" where
  "startup_apply active s =
     (let (_, s) = hardware_apply active s;
          (_, m) = apply_dgpu_runtime_pm (persisted_dgpu_pin (pd_machine s)) (pd_machine s)
      in s\<lparr>pd_machine := m, pd_starting := None\<rparr>)"

definition powerd_start :: "machine \<Rightarrow> powerd" where
  "powerd_start m = startup_apply (persisted_profile (snd (aspm_writability_probe m))) (powerd_serve m)"

section \<open>The steps\<close>

definition call_apply :: "nat \<Rightarrow> string \<Rightarrow> powerd \<Rightarrow> powerd" where
  "call_apply i profile s =
     (case power_profile_from_str profile of
        None \<Rightarrow> s\<lparr>pd_replies := pd_replies s @ [(i, InvalidProfile profile)]\<rparr>
      | Some p \<Rightarrow> s\<lparr>pd_latest := Some p, pd_waiting := pd_waiting s @ [(i, p)]\<rparr>)"

definition acquire :: "bool \<Rightarrow> nat \<Rightarrow> power_profile \<Rightarrow> powerd \<Rightarrow> powerd" where
  "acquire persisted i p s =
     (if pd_latest s \<noteq> Some p
      then s\<lparr>pd_replies := pd_replies s @ [(i, Superseded (superseded_by (pd_latest s)))]\<rparr>
      else let (res, s) = hardware_apply p s;
               s = s\<lparr>pd_active := p\<rparr>;
               s = s\<lparr>pd_machine := persist_profile persisted p (pd_machine s)\<rparr>
           in s\<lparr>pd_holder := Some (i, res)\<rparr>)"

definition finish :: "nat \<Rightarrow> results \<Rightarrow> powerd \<Rightarrow> powerd" where
  "finish i res s = s\<lparr>pd_holder := None, pd_replies := pd_replies s @ [(i, Applied res)]\<rparr>"

definition resume_apply :: "powerd \<Rightarrow> powerd" where
  "resume_apply s =
     (let (_, s) = hardware_apply (pd_active s) s;
          (_, m) = apply_dgpu_runtime_pm (persisted_dgpu_pin (pd_machine s)) (pd_machine s)
      in s\<lparr>pd_machine := m\<rparr>)"

definition set_dgpu_awake :: "bool \<Rightarrow> bool \<Rightarrow> powerd \<Rightarrow> results \<times> powerd" where
  "set_dgpu_awake persisted awake s =
     (let (res, m) = apply_dgpu_runtime_pm awake (pd_machine s)
      in (res, s\<lparr>pd_machine := persist_dgpu_pin persisted awake m\<rparr>))"

text \<open>A \<open>PrepareForSleep\<close> signal: its argument, when the message can be read.\<close>

definition sleep_signal :: "bool option \<Rightarrow> powerd \<Rightarrow> powerd" where
  "sleep_signal arg s = (if arg = Some False then resume_apply s else s)"

definition get_profile :: "powerd \<Rightarrow> string" where
  "get_profile s = power_profile_as_str (pd_active s)"

definition get_knobs :: "powerd \<Rightarrow> results \<times> powerd" where
  "get_knobs s = (let (out, m) = knob_snapshot (pd_machine s) in (out, s\<lparr>pd_machine := m\<rparr>))"

inductive pstep :: "powerd \<Rightarrow> powerd \<Rightarrow> bool" where
  call: "pstep s (call_apply i profile s)"
| acquire: "\<lbrakk> pd_holder s = None; pd_waiting s = (i, p) # ws \<rbrakk>
    \<Longrightarrow> pstep s (acquire persisted i p (s\<lparr>pd_waiting := ws\<rparr>))"
| finish: "pd_holder s = Some (i, res) \<Longrightarrow> pstep s (finish i res s)"
| dgpu: "pstep s (snd (set_dgpu_awake persisted awake s))"
| knobs: "pstep s (snd (get_knobs s))"
| startup: "pd_starting s = Some p \<Longrightarrow> pstep s (startup_apply p s)"
| sleep: "pd_starting s = None \<Longrightarrow> pstep s (sleep_signal arg s)"

inductive_cases pstepE: "pstep s t"

inductive preach :: "machine \<Rightarrow> powerd \<Rightarrow> bool" for m where
  serve: "preach m (powerd_serve m)"
| step: "preach m s \<Longrightarrow> pstep s t \<Longrightarrow> preach m t"

text \<open>The runs in which no call came in before the startup apply.\<close>

inductive quiet :: "machine \<Rightarrow> powerd \<Rightarrow> bool" for m where
  start: "quiet m (powerd_start m)"
| step: "quiet m s \<Longrightarrow> pstep s t \<Longrightarrow> quiet m t"

section \<open>The latest request wins\<close>

definition latest_inv :: "powerd \<Rightarrow> bool" where
  "latest_inv s = (case pd_latest s of
      None \<Rightarrow> pd_waiting s = [] \<and> pd_holder s = None
    | Some l \<Rightarrow> (if pd_waiting s = [] then pd_active s = l else snd (last (pd_waiting s)) = l))"

definition hardware_inv :: "powerd \<Rightarrow> bool" where
  "hardware_inv s \<longleftrightarrow> pd_starting s = None \<and> pd_on_hardware s = Some (pd_active s)"

lemma hardware_apply_fields [simp]:
  "pd_active (snd (hardware_apply p s)) = pd_active s"
  "pd_latest (snd (hardware_apply p s)) = pd_latest s"
  "pd_holder (snd (hardware_apply p s)) = pd_holder s"
  "pd_waiting (snd (hardware_apply p s)) = pd_waiting s"
  "pd_replies (snd (hardware_apply p s)) = pd_replies s"
  "pd_on_hardware (snd (hardware_apply p s)) = Some p"
  "pd_starting (snd (hardware_apply p s)) = pd_starting s"
  by (simp_all add: hardware_apply_def Let_def split_beta)

lemma startup_fields [simp]:
  "pd_active (startup_apply p s) = pd_active s" "pd_latest (startup_apply p s) = pd_latest s"
  "pd_holder (startup_apply p s) = pd_holder s" "pd_waiting (startup_apply p s) = pd_waiting s"
  "pd_replies (startup_apply p s) = pd_replies s" "pd_on_hardware (startup_apply p s) = Some p"
  "pd_starting (startup_apply p s) = None"
  by (simp_all add: startup_apply_def Let_def split_beta)

lemma serve_fields [simp]:
  "pd_active (powerd_serve m) = persisted_profile (snd (aspm_writability_probe m))"
  "pd_latest (powerd_serve m) = None" "pd_holder (powerd_serve m) = None" "pd_waiting (powerd_serve m) = []"
  "pd_starting (powerd_serve m) = Some (persisted_profile (snd (aspm_writability_probe m)))"
  by (simp_all add: powerd_serve_def Let_def split_beta)

lemma sleep_fields [simp]:
  "pd_active (sleep_signal a s) = pd_active s" "pd_latest (sleep_signal a s) = pd_latest s"
  "pd_holder (sleep_signal a s) = pd_holder s" "pd_waiting (sleep_signal a s) = pd_waiting s"
  "pd_replies (sleep_signal a s) = pd_replies s" "pd_starting (sleep_signal a s) = pd_starting s"
  "pd_on_hardware (sleep_signal a s) = (if a = Some False then Some (pd_active s) else pd_on_hardware s)"
  by (simp_all add: sleep_signal_def resume_apply_def Let_def split_beta)

lemma dgpu_fields [simp]:
  "pd_active (snd (set_dgpu_awake b a s)) = pd_active s"
  "pd_latest (snd (set_dgpu_awake b a s)) = pd_latest s"
  "pd_holder (snd (set_dgpu_awake b a s)) = pd_holder s"
  "pd_waiting (snd (set_dgpu_awake b a s)) = pd_waiting s"
  "pd_replies (snd (set_dgpu_awake b a s)) = pd_replies s"
  "pd_on_hardware (snd (set_dgpu_awake b a s)) = pd_on_hardware s"
  "pd_starting (snd (set_dgpu_awake b a s)) = pd_starting s"
  by (simp_all add: set_dgpu_awake_def Let_def split_beta)

lemma get_knobs_fields [simp]:
  "pd_active (snd (get_knobs s)) = pd_active s" "pd_latest (snd (get_knobs s)) = pd_latest s"
  "pd_holder (snd (get_knobs s)) = pd_holder s" "pd_waiting (snd (get_knobs s)) = pd_waiting s"
  "pd_replies (snd (get_knobs s)) = pd_replies s" "pd_on_hardware (snd (get_knobs s)) = pd_on_hardware s"
  "pd_starting (snd (get_knobs s)) = pd_starting s"
  by (simp_all add: get_knobs_def Let_def split_beta)

lemma finish_fields [simp]:
  "pd_active (finish i r s) = pd_active s" "pd_latest (finish i r s) = pd_latest s"
  "pd_holder (finish i r s) = None" "pd_waiting (finish i r s) = pd_waiting s"
  "pd_on_hardware (finish i r s) = pd_on_hardware s" "pd_starting (finish i r s) = pd_starting s"
  "pd_replies (finish i r s) = pd_replies s @ [(i, Applied r)]"
  by (simp_all add: finish_def)

text \<open>A call that reaches the lock is either superseded, by another profile and with nothing
  done, or applies the profile that is the latest at that moment.\<close>

lemma acquire_superseded:
  "pd_latest s \<noteq> Some p \<Longrightarrow> acquire b i p s =
     s\<lparr>pd_replies := pd_replies s @ [(i, Superseded (superseded_by (pd_latest s)))]\<rparr>"
  by (simp add: acquire_def)

lemma acquire_latest:
  assumes "pd_latest s = Some p"
  shows "pd_active (acquire b i p s) = p" "pd_on_hardware (acquire b i p s) = Some p"
    "pd_starting (acquire b i p s) = pd_starting s"
    "pd_latest (acquire b i p s) = Some p" "pd_waiting (acquire b i p s) = pd_waiting s"
    "pd_replies (acquire b i p s) = pd_replies s"
    "\<exists>res. pd_holder (acquire b i p s) = Some (i, res)"
  using assms by (simp_all add: acquire_def Let_def split_beta)

lemma latest_inv_acquire:
  assumes "latest_inv s" "pd_holder s = None" "pd_waiting s = (i, p) # ws"
  shows "latest_inv (acquire b i p (s\<lparr>pd_waiting := ws\<rparr>))"
proof -
  from assms obtain l where l: "pd_latest s = Some l" "snd (last ((i, p) # ws)) = l"
    by (auto simp: latest_inv_def split: option.splits)
  show ?thesis
  proof (cases "l = p")
    case True
    then show ?thesis
      using l acquire_latest [of "s\<lparr>pd_waiting := ws\<rparr>" p b i] by (cases ws) (simp_all add: latest_inv_def)
  next
    case False
    then show ?thesis using l by (cases ws) (simp_all add: latest_inv_def acquire_superseded)
  qed
qed

lemma latest_inv_step: "pstep s t \<Longrightarrow> latest_inv s \<Longrightarrow> latest_inv t"
proof (induction rule: pstep.induct)
  case (call s i profile)
  then show ?case by (auto simp: latest_inv_def call_apply_def split: option.splits)
next
  case (acquire s i p ws b)
  then show ?case by (simp add: latest_inv_acquire)
qed (auto simp: latest_inv_def split: option.splits)

lemma hardware_inv_step: "pstep s t \<Longrightarrow> hardware_inv s \<Longrightarrow> hardware_inv t"
proof (induction rule: pstep.induct)
  case (call s i profile)
  then show ?case by (auto simp: hardware_inv_def call_apply_def split: option.split)
next
  case (acquire s i p ws b)
  then show ?case
    using acquire_latest [of "s\<lparr>pd_waiting := ws\<rparr>" p b i]
    by (cases "pd_latest s = Some p") (simp_all add: hardware_inv_def acquire_superseded)
qed (auto simp: hardware_inv_def)

lemma powerd_reach_inv: "preach m s \<Longrightarrow> latest_inv s"
proof (induction rule: preach.induct)
  case serve
  show ?case by (simp add: latest_inv_def)
qed (rule latest_inv_step)

lemma quiet_preach: "quiet m s \<Longrightarrow> preach m s"
proof (induction rule: quiet.induct)
  case start
  show ?case unfolding powerd_start_def
    by (rule preach.step [OF preach.serve]) (rule pstep.startup, simp)
qed (rule preach.step)

lemma quiet_hardware: "quiet m s \<Longrightarrow> hardware_inv s"
proof (induction rule: quiet.induct)
  case start
  show ?case by (simp add: hardware_inv_def powerd_start_def)
qed (rule hardware_inv_step)

lemma quiet_steps: "rtranclp pstep s t \<Longrightarrow> quiet m s \<Longrightarrow> quiet m t"
  by (induction rule: rtranclp_induct) (auto intro: quiet.step)

text \<open>After the startup apply, what is on the hardware changes only in an apply that reaches the lock
  as the latest request and on a resume, and then it is the active profile.\<close>

lemma hardware_step:
  assumes "pstep s t" "pd_starting s = None"
  shows "pd_starting t = None"
    and "pd_on_hardware t = pd_on_hardware s \<and> pd_active t = pd_active s \<or> pd_on_hardware t = Some (pd_active t)"
    and "pd_on_hardware t \<noteq> pd_on_hardware s \<Longrightarrow> t = sleep_signal (Some False) s
       \<or> (\<exists>b i p ws. pd_waiting s = (i, p) # ws \<and> pd_latest s = Some p \<and> t = acquire b i p (s\<lparr>pd_waiting := ws\<rparr>))"
proof -
  have a: "pd_starting (acquire b i p (s\<lparr>pd_waiting := ws\<rparr>)) = pd_starting s"
    "pd_latest s = Some p \<Longrightarrow> pd_on_hardware (acquire b i p (s\<lparr>pd_waiting := ws\<rparr>)) = Some p
       \<and> pd_active (acquire b i p (s\<lparr>pd_waiting := ws\<rparr>)) = p"
    "pd_latest s \<noteq> Some p \<Longrightarrow> pd_on_hardware (acquire b i p (s\<lparr>pd_waiting := ws\<rparr>)) = pd_on_hardware s
       \<and> pd_active (acquire b i p (s\<lparr>pd_waiting := ws\<rparr>)) = pd_active s" for b i p ws
    using acquire_latest [of "s\<lparr>pd_waiting := ws\<rparr>" p b i]
    by (cases "pd_latest s = Some p"; simp add: acquire_superseded)+
  have c: "pd_starting (call_apply i w s) = pd_starting s" "pd_on_hardware (call_apply i w s) = pd_on_hardware s"
    "pd_active (call_apply i w s) = pd_active s" for i w
    by (simp_all add: call_apply_def split: option.split)
  show "pd_starting t = None" using assms(1) by (cases rule: pstep.cases) (simp_all add: a c assms(2))
  show "pd_on_hardware t = pd_on_hardware s \<and> pd_active t = pd_active s \<or> pd_on_hardware t = Some (pd_active t)"
    using assms(1)
  proof (cases rule: pstep.cases)
    case (acquire i p ws b)
    then show ?thesis using a by (cases "pd_latest s = Some p") simp_all
  qed (simp_all add: c assms(2))
  show "t = sleep_signal (Some False) s
       \<or> (\<exists>b i p ws. pd_waiting s = (i, p) # ws \<and> pd_latest s = Some p \<and> t = acquire b i p (s\<lparr>pd_waiting := ws\<rparr>))"
    if n: "pd_on_hardware t \<noteq> pd_on_hardware s"
    using assms(1)
  proof (cases rule: pstep.cases)
    case (acquire i p ws b)
    then show ?thesis using a(3) n by blast
  next
    case (sleep arg)
    then show ?thesis using n by (simp split: if_splits)
  qed (use n assms(2) in \<open>simp_all add: c\<close>)
qed

lemma hardware_steps:
  assumes "rtranclp pstep s t" "pd_starting s = None"
  shows "pd_starting t = None
    \<and> (pd_on_hardware t = pd_on_hardware s \<and> pd_active t = pd_active s \<or> pd_on_hardware t = Some (pd_active t))"
  using assms
proof (induction rule: rtranclp_induct)
  case (step t u)
  then show ?case using hardware_step(1,2) [OF step.hyps(2)] by metis
qed simp

section \<open>Properties\<close>

text \<open>C20: The latest request wins: in every reachable state of powerd, when no call waits for the
  lock, the active profile is the latest request; no step ever makes a profile active that is not
  the latest request at that moment; and in every run in which no call came in before the startup
  apply, the active profile is the one last put on the hardware.\<close>
theorem latest_request_wins:
  assumes "preach m s"
  shows "(\<forall>l. pd_latest s = Some l \<and> pd_waiting s = [] \<longrightarrow> pd_active s = l)
     \<and> (\<forall>t. pstep s t \<and> pd_active t \<noteq> pd_active s \<longrightarrow> pd_latest t = Some (pd_active t))
     \<and> (quiet m s \<longrightarrow> pd_on_hardware s = Some (pd_active s))"
proof -
  have "pd_latest t = Some (pd_active t)" if "pstep s t" "pd_active t \<noteq> pd_active s" for t
    using that
  proof (cases rule: pstep.cases)
    case (acquire i p ws b)
    show ?thesis
    proof (cases "pd_latest s = Some p")
      case True
      then show ?thesis
        using acquire(1) acquire_latest(1,4) [of "s\<lparr>pd_waiting := ws\<rparr>" p b i] by simp
    next
      case False
      then show ?thesis
        using acquire(1) that(2) by (simp add: acquire_superseded)
    qed
  qed (auto simp: call_apply_def split: option.splits)
  moreover have "pd_active s = l" if "pd_latest s = Some l" "pd_waiting s = []" for l
    using powerd_reach_inv [OF assms] that by (simp add: latest_inv_def)
  ultimately show ?thesis using quiet_hardware [of m s] by (auto simp: hardware_inv_def)
qed

theorem latest_request_wins_witness:
  "pd_active (acquire True 1 Performance ((call_apply 1 ''performance'' (powerd_start demo_machine))\<lparr>pd_waiting := []\<rparr>))
     = Performance"
proof -
  let ?c = "call_apply 1 ''performance'' (powerd_start demo_machine)"
  let ?s = "acquire True 1 Performance (?c\<lparr>pd_waiting := []\<rparr>)"
  have p: "power_profile_from_str ''performance'' = Some Performance" by (simp add: power_profile_from_str_def)
  have w: "pd_holder ?c = None" "pd_waiting ?c = [(1, Performance)]" "pd_latest ?c = Some Performance"
    by (simp_all add: call_apply_def p powerd_start_def)
  have "quiet demo_machine ?s"
    by (rule quiet.step [OF quiet.step [OF quiet.start pstep.call] pstep.acquire [OF w(1,2)]])
  moreover have "pd_latest ?s = Some Performance" "pd_waiting ?s = []"
    using acquire_latest(4,5) [of "?c\<lparr>pd_waiting := []\<rparr>" Performance True 1] w by simp_all
  ultimately show ?thesis using latest_request_wins [OF quiet_preach] by blast
qed

lemma finish_or_idle: "\<exists>t. rtranclp pstep s t \<and> pd_holder t = None \<and> pd_waiting t = pd_waiting s
    \<and> pd_latest t = pd_latest s \<and> fst ` set (pd_replies s) \<subseteq> fst ` set (pd_replies t)
    \<and> (\<forall>i r. pd_holder s = Some (i, r) \<longrightarrow> i \<in> fst ` set (pd_replies t))"
proof (cases "pd_holder s")
  case None
  then show ?thesis by (intro exI [of _ s]) auto
next
  case (Some ir)
  obtain i r where ir: "ir = (i, r)" by fastforce
  show ?thesis
    using Some pstep.finish [of s i r] by (intro exI [of _ "finish i r s"]) (auto simp: ir)
qed

lemma acquire_frame:
  "pd_waiting (acquire b i p s) = pd_waiting s" "pd_latest (acquire b i p s) = pd_latest s"
  "fst ` set (pd_replies s) \<subseteq> fst ` set (pd_replies (acquire b i p s))"
  "i \<in> fst ` set (pd_replies (acquire b i p s)) \<or> (\<exists>r. pd_holder (acquire b i p s) = Some (i, r))"
  by (auto simp: acquire_def Let_def split_beta)

lemma drains:
  "\<exists>t. rtranclp pstep s t \<and> pd_holder t = None \<and> pd_waiting t = [] \<and> pd_latest t = pd_latest s
     \<and> fst ` set (pd_waiting s) \<union> fst ` set (pd_replies s) \<subseteq> fst ` set (pd_replies t)"
proof (induction "pd_waiting s" arbitrary: s)
  case Nil
  then show ?case using finish_or_idle [of s] by auto
next
  case (Cons ip ws)
  obtain i p where ip: "ip = (i, p)" by fastforce
  obtain u where u: "rtranclp pstep s u" "pd_holder u = None" "pd_waiting u = pd_waiting s"
    "pd_latest u = pd_latest s" "fst ` set (pd_replies s) \<subseteq> fst ` set (pd_replies u)"
    using finish_or_idle [of s] by blast
  have uw: "pd_waiting u = (i, p) # ws" using u(3) Cons(2) ip by simp
  define v where "v = acquire True i p (u\<lparr>pd_waiting := ws\<rparr>)"
  have v1: "pstep u v" unfolding v_def by (rule pstep.acquire [OF u(2) uw])
  have v: "pd_waiting v = ws" "pd_latest v = pd_latest s"
    "fst ` set (pd_replies u) \<subseteq> fst ` set (pd_replies v)"
    "i \<in> fst ` set (pd_replies v) \<or> (\<exists>r. pd_holder v = Some (i, r))"
    using u(4) acquire_frame [where b = True and i = i and p = p and s = "u\<lparr>pd_waiting := ws\<rparr>"]
    unfolding v_def by simp_all
  obtain w where w: "rtranclp pstep v w" "pd_waiting w = pd_waiting v" "pd_latest w = pd_latest v"
    "fst ` set (pd_replies v) \<subseteq> fst ` set (pd_replies w)"
    "\<forall>i r. pd_holder v = Some (i, r) \<longrightarrow> i \<in> fst ` set (pd_replies w)"
    using finish_or_idle [of v] by blast
  have iw: "i \<in> fst ` set (pd_replies w)" using v(4) w(4,5) by blast
  have ww: "ws = pd_waiting w" using w(2) v(1) by simp
  obtain t where t: "rtranclp pstep w t" "pd_holder t = None" "pd_waiting t = []"
    "pd_latest t = pd_latest w" "fst ` set (pd_waiting w) \<union> fst ` set (pd_replies w) \<subseteq> fst ` set (pd_replies t)"
    using Cons(1) [OF ww] by blast
  have "rtranclp pstep s t"
    by (rule rtranclp_trans [OF u(1) converse_rtranclp_into_rtranclp [OF v1 rtranclp_trans [OF w(1) t(1)]]])
  moreover have "fst ` set (pd_waiting s) = insert i (fst ` set (pd_waiting w))"
    using Cons(2) ip ww by (metis fst_conv image_insert list.simps(15))
  moreover have "pd_latest t = pd_latest s" using t(4) w(3) v(2) by simp
  moreover note tw = t(5) [unfolded Un_subset_iff, THEN conjunct1] t(5) [unfolded Un_subset_iff, THEN conjunct2]
  moreover have "fst ` set (pd_replies s) \<subseteq> fst ` set (pd_replies t)"
    by (rule subset_trans [OF u(5) subset_trans [OF v(3) subset_trans [OF w(4) tw(2)]]])
  moreover have "i \<in> fst ` set (pd_replies t)" by (rule subsetD [OF tw(2) iw])
  ultimately show ?case
    using t(2,3) by (intro exI [of _ t]) (simp only: Un_subset_iff insert_subset simp_thms)
qed

text \<open>No call starves and the storm settles: from every state of a run without early calls the
  lock can be worked off, every waiting call is answered, and then the latest request is the active
  profile and the one on the hardware.\<close>
lemma powerd_drains:
  assumes "quiet m s" "pd_latest s = Some l"
  shows "\<exists>t. rtranclp pstep s t \<and> pd_waiting t = [] \<and> pd_holder t = None
     \<and> pd_active t = l \<and> pd_on_hardware t = Some l
     \<and> (\<forall>i \<in> fst ` set (pd_waiting s). i \<in> fst ` set (pd_replies t))"
proof -
  from drains [of s] obtain t where t: "rtranclp pstep s t" "pd_holder t = None" "pd_waiting t = []"
    "pd_latest t = pd_latest s" "fst ` set (pd_waiting s) \<union> fst ` set (pd_replies s) \<subseteq> fst ` set (pd_replies t)"
    by blast
  moreover note q = quiet_steps [OF t(1) assms(1)]
  moreover have "latest_inv t" "hardware_inv t" using powerd_reach_inv [OF quiet_preach] quiet_hardware q by blast+
  ultimately show ?thesis
    using assms(2) by (intro exI [of _ t]) (auto simp: latest_inv_def hardware_inv_def)
qed

lemma powerd_drains_witness:
  "\<exists>t. rtranclp pstep (call_apply 1 ''performance'' (powerd_start demo_machine)) t
     \<and> pd_waiting t = [] \<and> pd_holder t = None \<and> pd_active t = Performance \<and> pd_on_hardware t = Some Performance
     \<and> 1 \<in> fst ` set (pd_replies t)"
proof -
  let ?s = "call_apply 1 ''performance'' (powerd_start demo_machine)"
  have "quiet demo_machine ?s" by (rule quiet.step [OF quiet.start pstep.call])
  moreover have l: "pd_latest ?s = Some Performance" "1 \<in> fst ` set (pd_waiting ?s)"
    by (simp_all add: call_apply_def power_profile_from_str_def powerd_start_def)
  ultimately show ?thesis using powerd_drains [of demo_machine ?s Performance] by blast
qed

lemma probe_keeps_state_file:
  "persisted_profile (snd (aspm_writability_probe m)) = persisted_profile m"
  by (auto simp: aspm_writability_probe_def write_file_def persisted_profile_def read_file_def fs_of_def
      Let_def split_beta ASPM_POLICY_PATH_def POWERD_STATE_FILE_def split: option.split write_result.split)

text \<open>C21: The call that activates powerd can lose: a profile requested between serving the object and
  the startup apply is answered as applied and stays the reported one, but the startup then puts
  the profile persisted before on the hardware. For as long as this powerd runs, hardware and reported
  profile stay as they are until they agree; what ends it is a resume or another call that is applied, and both do.\<close>
theorem early_call_is_overwritten:
  assumes "power_profile_from_str w = Some p"
  shows "\<exists>s res. preach m s \<and> pd_starting s = None \<and> pd_waiting s = [] \<and> pd_holder s = None
     \<and> pd_replies s = [(i, Applied res)] \<and> pd_active s = p
     \<and> pd_on_hardware s = Some (persisted_profile (snd (aspm_writability_probe m)))
     \<and> (\<forall>t. rtranclp pstep s t \<longrightarrow> pd_on_hardware t = pd_on_hardware s \<and> pd_active t = p
           \<or> pd_on_hardware t = Some (pd_active t))
     \<and> (\<forall>t u. rtranclp pstep s t \<and> pstep t u \<and> pd_on_hardware u \<noteq> pd_on_hardware t \<longrightarrow>
           u = sleep_signal (Some False) t
           \<or> (\<exists>b j q ws. pd_waiting t = (j, q) # ws \<and> pd_latest t = Some q \<and> u = acquire b j q (t\<lparr>pd_waiting := ws\<rparr>)))
     \<and> pd_on_hardware (sleep_signal (Some False) s) = Some p
     \<and> (\<forall>b j q. pd_on_hardware (acquire b j q ((call_apply j (power_profile_as_str q) s)\<lparr>pd_waiting := []\<rparr>)) = Some q)"
proof -
  let ?a = "powerd_serve m"
  let ?b = "call_apply i w ?a"
  let ?c = "acquire True i p (?b\<lparr>pd_waiting := []\<rparr>)"
  have b: "pd_holder ?b = None" "pd_waiting ?b = [(i, p)]" "pd_latest ?b = Some p" "pd_replies ?b = []"
    "pd_starting ?b = pd_starting ?a"
    using assms by (simp_all add: call_apply_def) (simp_all add: powerd_serve_def Let_def split_beta)
  note c = acquire_latest [of "?b\<lparr>pd_waiting := []\<rparr>" p True i, simplified b powerd.select_convs]
  obtain res where h: "pd_holder ?c = Some (i, res)" using c b by auto
  let ?d = "finish i res ?c"
  let ?s = "startup_apply (persisted_profile (snd (aspm_writability_probe m))) ?d"
  have "preach m ?d"
    by (rule preach.step [OF preach.step [OF preach.step [OF preach.serve pstep.call] pstep.acquire [OF b(1,2)]]
          pstep.finish [OF h]])
  moreover have "pd_starting ?d = Some (persisted_profile (snd (aspm_writability_probe m)))"
    using c b by simp
  ultimately have "preach m ?s" by (rule preach.step [OF _ pstep.startup])
  moreover have "pd_starting ?s = None" "pd_active ?s = p" "pd_waiting ?s = []" "pd_holder ?s = None"
    "pd_replies ?s = [(i, Applied res)]"
    "pd_on_hardware ?s = Some (persisted_profile (snd (aspm_writability_probe m)))"
    "pd_on_hardware (sleep_signal (Some False) ?s) = Some p"
    using c b by simp_all
  moreover have "pd_on_hardware (acquire b j q ((call_apply j (power_profile_as_str q) s)\<lparr>pd_waiting := []\<rparr>)) = Some q"
    for b j q s
    using acquire_latest(2) [of "(call_apply j (power_profile_as_str q) s)\<lparr>pd_waiting := []\<rparr>" q b j]
    by (simp add: call_apply_def profile_word.from_as_str)
  ultimately show ?thesis
    using hardware_steps [of ?s] hardware_step(3) by (intro exI [of _ ?s] exI [of _ res]) metis
qed

theorem early_call_is_overwritten_witness:
  "\<exists>s. preach demo_machine s \<and> pd_active s = Performance \<and> pd_on_hardware s \<noteq> Some Performance"
proof -
  have p: "power_profile_from_str ''performance'' = Some Performance" by (simp add: power_profile_from_str_def)
  have "persisted_profile (snd (aspm_writability_probe demo_machine)) \<noteq> Performance"
    by (simp add: probe_keeps_state_file) (simp add: persisted_profile_def read_file_def fs_of_def demo_machine_def
        POWERD_STATE_FILE_def)
  then show ?thesis using early_call_is_overwritten [OF p, of demo_machine 1] by fastforce
qed

text \<open>What powerd persisted it comes back with: a start on a machine whose state file holds the
  profile last persisted makes that profile active and puts it on the hardware, whatever else is
  on the machine.\<close>
lemma powerd_restores:
  "pd_active (powerd_start (persist_profile True p m)) = p
   \<and> pd_on_hardware (powerd_start (persist_profile True p m)) = Some p"
  by (simp add: powerd_start_def probe_keeps_state_file persisted_profile_roundtrip)

end
