(* ===== verification/Profiles.thy ===== *)
theory Profiles
  imports Ctx
begin

text \<open>
  Monitor-profile files, \<open>crates/hyprstate-fsm/src/profiles.rs\<close>: the directive parser with its
  skip rules, the capture layout and its Lua rendering, and the \<open>hyprctl\<close> argument vectors.
  The spelling of the \<open>EdpPolicy\<close> and \<open>GpuPref\<close> words belongs to the \<open>monitor_profiles\<close>
  crate: the renderer takes them as arguments. Text outside Latin-1 (one dash of a comment) is
  written as its UTF-8 bytes.
\<close>

section \<open>Parsing\<close>

datatype profile_format = Conf | Lua

fun profile_ext :: "profile_format \<Rightarrow> string" where
  "profile_ext Conf = ''conf''"
| "profile_ext Lua = ''lua''"

record profile =
  pf_name :: string
  pf_format :: profile_format
  pf_matches :: "string list"
  pf_edp :: edp_policy
  pf_gpu :: gpu_pref
  pf_hooks :: "string list"
  pf_priority :: int

datatype profile_error = BadEdp string | BadGpu string | BadPriority string | NoMatch

datatype profile_warning = Malformed string | Unknown string

record scan_state =
  sc_matches :: "string list"
  sc_hooks :: "string list"
  sc_edp :: edp_policy
  sc_gpu :: gpu_pref
  sc_priority :: "int option"
  sc_warnings :: "profile_warning list"

definition scan_init :: scan_state where
  "scan_init = \<lparr>sc_matches = [], sc_hooks = [], sc_edp = edp_policy.Auto,
     sc_gpu = gpu_pref.Auto, sc_priority = None, sc_warnings = []\<rparr>"

definition edp_from_str :: "string \<Rightarrow> edp_policy option" where
  "edp_from_str v = (if v = ''auto'' then Some edp_policy.Auto
     else if v = ''enable'' then Some edp_policy.Enable
     else if v = ''disable'' then Some edp_policy.Disable else None)"

definition gpu_from_str :: "string \<Rightarrow> gpu_pref option" where
  "gpu_from_str v = (if v = ''auto'' then Some gpu_pref.Auto
     else if v = ''igpu'' then Some gpu_pref.Igpu
     else if v = ''dgpu'' then Some gpu_pref.Dgpu else None)"

definition scan_directive :: "string \<Rightarrow> string \<Rightarrow> scan_state \<Rightarrow> profile_error + scan_state" where
  "scan_directive key val sc =
     (if key = ''match'' then Inr (sc\<lparr>sc_matches := sc_matches sc @ [val]\<rparr>)
      else if key = ''hook'' then Inr (sc\<lparr>sc_hooks := sc_hooks sc @ [val]\<rparr>)
      else if key = ''edp'' then
        (case edp_from_str val of Some p \<Rightarrow> Inr (sc\<lparr>sc_edp := p\<rparr>) | None \<Rightarrow> Inl (BadEdp val))
      else if key = ''gpu'' then
        (case gpu_from_str val of Some g \<Rightarrow> Inr (sc\<lparr>sc_gpu := g\<rparr>) | None \<Rightarrow> Inl (BadGpu val))
      else if key = ''priority'' then
        (case parse_i64 val of Some n \<Rightarrow> Inr (sc\<lparr>sc_priority := Some n\<rparr>) | None \<Rightarrow> Inl (BadPriority val))
      else Inr (sc\<lparr>sc_warnings := sc_warnings sc @ [Unknown key]\<rparr>))"

definition is_directive :: "string \<Rightarrow> bool" where
  "is_directive line = (starts_with ''#@'' line \<or> starts_with ''--@'' line)"

definition is_comment :: "string \<Rightarrow> bool" where
  "is_comment line = (let t = trim_start line in
     starts_with ''#'' t \<or> starts_with ''--'' t \<or> t = [])"

fun scan_lines :: "string list \<Rightarrow> scan_state \<Rightarrow> profile_error + scan_state" where
  "scan_lines [] sc = Inr sc"
| "scan_lines (line # ls) sc =
     (if \<not> is_directive line then (if is_comment line then scan_lines ls sc else Inr sc)
      else case parse_directive line False of
          None \<Rightarrow> scan_lines ls (sc\<lparr>sc_warnings := sc_warnings sc @ [Malformed line]\<rparr>)
        | Some (key, val) \<Rightarrow>
            (case scan_directive key val sc of
               Inl err \<Rightarrow> Inl err
             | Inr sc' \<Rightarrow> scan_lines ls sc'))"

definition parse_profile ::
  "string \<Rightarrow> profile_format \<Rightarrow> string \<Rightarrow> profile_error + (profile \<times> profile_warning list)" where
  "parse_profile name format text =
     (case scan_lines (lines text) scan_init of
        Inl err \<Rightarrow> Inl err
      | Inr sc \<Rightarrow>
          if sc_matches sc = [] then Inl NoMatch
          else Inr (\<lparr>pf_name = name, pf_format = format, pf_matches = sc_matches sc,
              pf_edp = sc_edp sc, pf_gpu = sc_gpu sc, pf_hooks = sc_hooks sc,
              pf_priority = (case sc_priority sc of Some p \<Rightarrow> p | None \<Rightarrow> int (length (sc_matches sc)))\<rparr>,
            sc_warnings sc))"

section \<open>Capturing the live layout\<close>

record monitor_snapshot =
  mn_name :: string
  mn_description :: string
  mn_width :: u32
  mn_height :: u32
  mn_refresh :: rat
  mn_x :: int
  mn_y :: int
  mn_scale :: rat
  mn_transform :: u8
  mn_disabled :: bool

text \<open>\<open>{:.2}\<close> rounds the exact value half to even.\<close>

definition round_even :: "rat \<Rightarrow> int" where
  "round_even r = (let n = \<lfloor>r\<rfloor>; d = r - of_int n in
     if d < 1 / 2 then n else if d > 1 / 2 then n + 1 else if even n then n else n + 1)"

definition fixed2 :: "rat \<Rightarrow> string" where
  "fixed2 r = (let n = nat (round_even (\<bar>r\<bar> * 100)) in
     (if r < 0 then ''-'' else []) @ nat_str (n div 100) @ ''.''
       @ nat_str (n mod 100 div 10) @ nat_str (n mod 10))"

definition trim_end_matches :: "char \<Rightarrow> string \<Rightarrow> string" where
  "trim_end_matches c s = rev (dropWhile (\<lambda>d. d = c) (rev s))"

definition fmt_num :: "rat \<Rightarrow> string" where
  "fmt_num v = trim_end_matches (CHR ''.'') (trim_end_matches (CHR ''0'') (fixed2 v))"

datatype capture_warning = CommaInDescription string string

definition selector :: "monitor_snapshot \<Rightarrow> string \<times> capture_warning list" where
  "selector m =
     (if starts_with ''eDP'' (mn_name m) then (mn_name m, [])
      else if CHR '','' \<in> set (mn_description m)
      then (mn_name m, [CommaInDescription (mn_name m) (mn_description m)])
      else (''desc:'' @ mn_description m, []))"

record capture =
  cl_enabled :: "monitor_snapshot list"
  cl_disabled :: "monitor_snapshot list"
  cl_match_descs :: "string list"

definition capture_layout :: "monitor_snapshot list \<Rightarrow> capture option" where
  "capture_layout monitors =
     (let enabled = filter (\<lambda>m. \<not> mn_disabled m) monitors in
      if enabled = [] then None
      else let enabled = sort_key (\<lambda>m. (mn_x m, mn_y m)) enabled;
               disabled = filter mn_disabled monitors;
               externals = filter (\<lambda>m. \<not> starts_with ''eDP'' (mn_name m)) enabled
           in Some \<lparr>cl_enabled = enabled, cl_disabled = disabled,
                cl_match_descs = map mn_description (if externals = [] then enabled else externals)\<rparr>)"

definition render_line :: "string \<Rightarrow> string \<Rightarrow> string \<Rightarrow> string" where
  "render_line leader key val = leader @ ''@ '' @ key @ '' = '' @ val @ [newline]"

definition render_directives ::
  "(edp_policy \<Rightarrow> string) \<Rightarrow> (gpu_pref \<Rightarrow> string) \<Rightarrow> string \<Rightarrow> string list
     \<Rightarrow> edp_policy \<Rightarrow> gpu_pref \<Rightarrow> int option \<Rightarrow> string" where
  "render_directives edp_str gpu_str leader descs edp gpu priority =
     concat (map (\<lambda>d. render_line leader ''match'' (''desc:'' @ d)) descs)
     @ render_line leader ''edp'' (edp_str edp)
     @ (if gpu \<noteq> gpu_pref.Auto then render_line leader ''gpu'' (gpu_str gpu) else [])
     @ (case priority of Some p \<Rightarrow> render_line leader ''priority'' (int_str p) | None \<Rightarrow> [])"

definition dquote :: char where "dquote = CHR 0x22"

definition quoted :: "string \<Rightarrow> string" where
  "quoted s = dquote # s @ [dquote]"

definition render_enabled :: "monitor_snapshot \<Rightarrow> string" where
  "render_enabled m = ''hl.monitor({ output = '' @ quoted (fst (selector m))
     @ '', mode = '' @ quoted (nat_str (unat (mn_width m)) @ ''x'' @ nat_str (unat (mn_height m))
                              @ ''@'' @ fmt_num (mn_refresh m))
     @ '', position = '' @ quoted (int_str (mn_x m) @ ''x'' @ int_str (mn_y m))
     @ '', scale = '' @ quoted (fmt_num (mn_scale m))
     @ '', transform = '' @ nat_str (unat (mn_transform m)) @ '', disabled = false })'' @ [newline]"

definition render_disabled :: "monitor_snapshot \<Rightarrow> string" where
  "render_disabled m =
     ''hl.monitor({ output = '' @ quoted (fst (selector m)) @ '', disabled = true })'' @ [newline]"

definition render_footer :: string where
  "render_footer = newline # ''-- Add workspace pinning if desired, e.g.:'' @ newline
     # ''-- hl.workspace_rule({ workspace = '' @ quoted ''1'' @ '', monitor = '' @ quoted ''desc:...''
     @ '', default = true })'' @ [newline]"

definition render_profile_lua ::
  "(edp_policy \<Rightarrow> string) \<Rightarrow> (gpu_pref \<Rightarrow> string) \<Rightarrow> string \<Rightarrow> string \<Rightarrow> monitor_snapshot list
     \<Rightarrow> edp_policy \<Rightarrow> gpu_pref \<Rightarrow> int option \<Rightarrow> (string \<times> capture_warning list) option" where
  "render_profile_lua edp_str gpu_str name date monitors edp gpu priority =
     (case capture_layout monitors of
        None \<Rightarrow> None
      | Some layout \<Rightarrow> Some
          (''-- Profile: '' @ name @ '' '' @ em_dash @ '' captured from the live layout ('' @ date @ '').''
             @ [newline] @ ''--'' @ [newline]
             @ render_directives edp_str gpu_str ''--'' (cl_match_descs layout) edp gpu priority
             @ [newline]
             @ concat (map render_enabled (cl_enabled layout))
             @ concat (map render_disabled (cl_disabled layout))
             @ render_footer,
           concat (map (snd \<circ> selector) (cl_enabled layout @ cl_disabled layout))))"

section \<open>Arguments of hyprctl\<close>

definition edp_disable_args :: "string \<Rightarrow> string list" where
  "edp_disable_args monitor =
     [''eval'', ''hl.monitor({ output = '' @ quoted monitor @ '', disabled = true })'']"

fun lua_escape :: "char \<Rightarrow> string" where
  "lua_escape c =
     (if c = CHR 0x5C then [CHR 0x5C, CHR 0x5C]
      else if c = dquote then [CHR 0x5C, dquote]
      else if c = newline then [CHR 0x5C, CHR ''n'']
      else if c = CHR 0x0D then [CHR 0x5C, CHR ''r'']
      else if c = CHR 0x00 then [CHR 0x5C, CHR ''0'']
      else [c])"

definition lua_string_literal :: "string \<Rightarrow> string" where
  "lua_string_literal s = dquote # concat (map lua_escape s) @ [dquote]"

definition apply_profile_args :: "string \<Rightarrow> string list" where
  "apply_profile_args lua_path = [''eval'', ''dofile('' @ lua_string_literal lua_path @ '')'']"

definition dpms_on_args :: "string list" where
  "dpms_on_args = [''dispatch'', ''hl.dsp.dpms({ action = '' @ quoted ''on'' @ '' })'']"

definition move_workspace_to_monitor_args :: "int \<Rightarrow> string \<Rightarrow> string list" where
  "move_workspace_to_monitor_args ws monitor = [''dispatch'',
     ''hl.dsp.workspace.move({ workspace = '' @ int_str ws @ '', monitor = '' @ quoted monitor @ '' })'']"

section \<open>Reading a Lua string literal\<close>

text \<open>Lua's own rule for a double-quoted literal, for the escapes that occur: a decimal escape
  takes up to three digits. The reader returns the text and what follows the closing quote.\<close>

definition digit_of :: "char \<Rightarrow> nat option" where
  "digit_of c = (if is_ascii_digit c then Some (of_char c - 48) else None)"

fun lua_digits :: "nat \<Rightarrow> nat \<Rightarrow> string \<Rightarrow> nat \<times> string" where
  "lua_digits (Suc k) acc (c # s) =
     (case digit_of c of Some d \<Rightarrow> lua_digits k (10 * acc + d) s | None \<Rightarrow> (acc, c # s))"
| "lua_digits _ acc s = (acc, s)"

lemma lua_digits_length: "length (snd (lua_digits k acc s)) \<le> length s"
proof (induction k acc s rule: lua_digits.induct)
  case (1 k acc c s)
  then show ?case by (auto split: option.split intro: le_SucI)
qed simp_all

function lua_body :: "string \<Rightarrow> (string \<times> string) option" where
  "lua_body [] = None"
| "lua_body (c # s) =
     (if c = dquote then Some ([], s)
      else if c = newline \<or> c = CHR 0x0D then None
      else if c = CHR 0x5C then
        (case s of
           [] \<Rightarrow> None
         | d # t \<Rightarrow>
             if d = CHR 0x5C \<or> d = dquote then map_option (apfst (Cons d)) (lua_body t)
             else if d = CHR ''n'' then map_option (apfst (Cons newline)) (lua_body t)
             else if d = CHR ''r'' then map_option (apfst (Cons (CHR 0x0D))) (lua_body t)
             else if is_ascii_digit d then
               (let (v, u) = lua_digits 3 0 (d # t) in
                if v \<le> 255 \<and> length u < length (d # t)
                then map_option (apfst (Cons (char_of v))) (lua_body u) else None)
             else None)
      else map_option (apfst (Cons c)) (lua_body s))"
  by pat_completeness auto
termination
  by (relation "measure length") auto

declare lua_body.simps [simp del]

definition lua_unquote :: "string \<Rightarrow> string option" where
  "lua_unquote l = (case l of
       [] \<Rightarrow> None
     | c # s \<Rightarrow> if c = dquote then
           (case lua_body s of Some (t, []) \<Rightarrow> Some t | _ \<Rightarrow> None) else None)"

definition nul_safe :: "string \<Rightarrow> bool" where
  "nul_safe s = (\<forall>xs d ys. s = xs @ CHR 0x00 # d # ys \<longrightarrow> \<not> is_ascii_digit d)"

lemma nul_safe_tail: "nul_safe (c # s) \<Longrightarrow> nul_safe s"
  unfolding nul_safe_def by (metis append_Cons)

lemma lua_escape_digit: "is_ascii_digit (hd (lua_escape c @ t)) \<longleftrightarrow> is_ascii_digit c"
  by (auto simp: is_ascii_digit_def Let_def dquote_def newline_def)

lemma lua_digits_nul:
  assumes "\<And>d u. t = d # u \<Longrightarrow> \<not> is_ascii_digit d"
  shows "lua_digits 3 0 (CHR ''0'' # t) = (0, t)"
proof -
  have z: "digit_of (CHR ''0'') = Some 0" by (simp add: digit_of_def is_ascii_digit_def Let_def)
  show ?thesis
    using assms by (cases t) (simp_all add: numeral_3_eq_3 z, simp add: digit_of_def)
qed

lemma lua_body_escape:
  assumes "nul_safe (c # s)"
  shows "lua_body (lua_escape c @ concat (map lua_escape s) @ dquote # rest) =
     map_option (apfst (Cons c)) (lua_body (concat (map lua_escape s) @ dquote # rest))"
proof -
  let ?t = "concat (map lua_escape s) @ dquote # rest"
  have nd: "\<not> is_ascii_digit d" if "c = CHR 0x00" "?t = d # u" for d u
  proof (cases s)
    case Nil
    then show ?thesis using that by (auto simp: dquote_def is_ascii_digit_def Let_def)
  next
    case (Cons e s')
    then have "\<not> is_ascii_digit e"
      using assms [unfolded nul_safe_def, rule_format, of "[]" e s'] that(1) by simp
    moreover have "hd (lua_escape e @ concat (map lua_escape s') @ dquote # rest) = d"
      using Cons that(2) by simp
    ultimately show ?thesis
      using lua_escape_digit [of e "concat (map lua_escape s') @ dquote # rest"] by simp
  qed
  consider (bs) "c = CHR 0x5C" | (dq) "c = dquote" | (nl) "c = newline" | (cr) "c = CHR 0x0D"
    | (nul) "c = CHR 0x00"
    | (plain) "c \<noteq> CHR 0x5C" "c \<noteq> dquote" "c \<noteq> newline" "c \<noteq> CHR 0x0D" "c \<noteq> CHR 0x00" by blast
  then show ?thesis
  proof cases
    case nul
    then have "lua_digits 3 0 (CHR ''0'' # ?t) = (0, ?t)" using nd by (intro lua_digits_nul) blast
    moreover have "char_of (0 :: nat) = CHR 0x00" by (simp add: char_of_def)
    ultimately show ?thesis using nul
      by (simp add: lua_body.simps dquote_def newline_def is_ascii_digit_def Let_def)
  qed (simp_all add: lua_body.simps dquote_def newline_def)
qed

lemma lua_body_literal:
  "nul_safe s \<Longrightarrow> lua_body (concat (map lua_escape s) @ dquote # rest) = Some (s, rest)"
proof (induction s)
  case Nil
  then show ?case by (simp add: lua_body.simps dquote_def)
next
  case (Cons c s)
  then show ?case using lua_body_escape [of c s rest] nul_safe_tail [of c s]
    by (simp del: lua_escape.simps)
qed

lemma lua_unquote_literal: "nul_safe s \<Longrightarrow> lua_unquote (lua_string_literal s) = Some s"
  using lua_body_literal [of s "[]"] by (simp add: lua_unquote_def lua_string_literal_def)

section \<open>A captured profile reads back\<close>

text \<open>One directive line at a time: it is one line of the text, and scanning it is its effect.\<close>

definition line_text :: "string \<Rightarrow> bool" where
  "line_text s = (trimmed s \<and> newline \<notin> set s)"

lemma ws_newline: "is_whitespace newline" "is_whitespace (CHR 0x0D)"
  by (simp_all add: is_whitespace_def newline_def Let_def)

lemma strip_cr_trimmed: "trimmed s \<Longrightarrow> strip_cr (t @ s) = t @ s"
  by (auto simp: strip_cr_def trimmed_def ws_newline)

lemma newline_neq: "newline \<noteq> CHR ''-''" "newline \<noteq> CHR ''@''" "newline \<noteq> CHR '' ''" "newline \<noteq> CHR ''=''"
  by (simp_all add: newline_def)

lemma lines_render_line:
  assumes "newline \<notin> set key" "line_text val"
  shows "lines (render_line ''--'' key val @ rest) = directive_line ''--@'' key val # lines rest"
proof -
  have "newline \<notin> set (directive_line ''--@'' key val)"
    using assms by (simp add: directive_line_def line_text_def newline_neq)
  moreover have "strip_cr (directive_line ''--@'' key val) = directive_line ''--@'' key val"
    using assms(2) strip_cr_trimmed [of val "''--@ '' @ key @ '' = ''"]
    by (simp add: directive_line_def line_text_def)
  moreover have "render_line ''--'' key val @ rest = directive_line ''--@'' key val @ newline # rest"
    by (simp add: render_line_def directive_line_def)
  ultimately show ?thesis using lines_line [of "directive_line ''--@'' key val" rest] by simp
qed

lemma scan_directive_line:
  assumes "directive_key_ok False key" "key \<noteq> []" "line_text val"
  shows "scan_lines (directive_line ''--@'' key val # ls) sc =
    (case scan_directive key val sc of Inl err \<Rightarrow> Inl err | Inr sc' \<Rightarrow> scan_lines ls sc')"
proof -
  have "is_directive (directive_line ''--@'' key val)"
    by (simp add: is_directive_def starts_with_def directive_line_def)
  moreover have "parse_directive (directive_line ''--@'' key val) False = Some (key, val)"
    using assms by (intro parse_directive_line) (simp_all add: line_text_def)
  ultimately show ?thesis by simp
qed

lemma profile_keys_ok:
  "directive_key_ok False ''match''" "directive_key_ok False ''edp''"
  "directive_key_ok False ''gpu''" "directive_key_ok False ''priority''"
  "newline \<notin> set ''match''" "newline \<notin> set ''edp''" "newline \<notin> set ''gpu''" "newline \<notin> set ''priority''"
  by (simp_all add: directive_key_ok_def is_ascii_lowercase_def newline_def Let_def)

lemma scan_render_line:
  assumes "directive_key_ok False key" "key \<noteq> []" "newline \<notin> set key" "line_text val"
    and "scan_directive key val sc = Inr sc'"
  shows "scan_lines (lines (render_line ''--'' key val @ rest)) sc = scan_lines (lines rest) sc'"
  using assms by (simp add: lines_render_line scan_directive_line del: scan_lines.simps)

lemma scan_matches:
  "\<forall>d \<in> set ds. line_text (''desc:'' @ d) \<Longrightarrow>
     scan_lines (lines (concat (map (\<lambda>d. render_line ''--'' ''match'' (''desc:'' @ d)) ds) @ rest)) sc
       = scan_lines (lines rest) (sc\<lparr>sc_matches := sc_matches sc @ map ((@) ''desc:'') ds\<rparr>)"
proof (induction ds arbitrary: sc)
  case (Cons d ds)
  have "scan_directive ''match'' (''desc:'' @ d) sc = Inr (sc\<lparr>sc_matches := sc_matches sc @ [''desc:'' @ d]\<rparr>)"
    by (simp add: scan_directive_def)
  then show ?case
    using Cons profile_keys_ok
    by (simp add: scan_render_line del: scan_lines.simps)
qed simp

text \<open>What the crate's spellings have to be for the parser to read them.\<close>

definition words_agree :: "(edp_policy \<Rightarrow> string) \<Rightarrow> (gpu_pref \<Rightarrow> string) \<Rightarrow> bool" where
  "words_agree edp_str gpu_str =
     (edp_str edp_policy.Auto = ''auto'' \<and> edp_str edp_policy.Enable = ''enable''
      \<and> edp_str edp_policy.Disable = ''disable'' \<and> gpu_str gpu_pref.Igpu = ''igpu''
      \<and> gpu_str gpu_pref.Dgpu = ''dgpu'')"

lemma words_line_text:
  assumes "words_agree edp_str gpu_str"
  shows "line_text (edp_str p)" "g \<noteq> gpu_pref.Auto \<Longrightarrow> line_text (gpu_str g)"
    "edp_from_str (edp_str p) = Some p" "g \<noteq> gpu_pref.Auto \<Longrightarrow> gpu_from_str (gpu_str g) = Some g"
  using assms
  by (cases p; cases g;
      simp add: words_agree_def line_text_def trimmed_def is_whitespace_def newline_def
        edp_from_str_def gpu_from_str_def Let_def)+

lemma digit_line_text: "s \<noteq> [] \<Longrightarrow> \<forall>c \<in> set s. is_ascii_digit c \<Longrightarrow> line_text s"
proof -
  assume s: "s \<noteq> []" and d: "\<forall>c \<in> set s. is_ascii_digit c"
  have "is_ascii_digit c \<Longrightarrow> \<not> is_whitespace c \<and> c \<noteq> newline" for c
    by (auto simp: is_ascii_digit_def is_whitespace_def newline_def Let_def)
  then show ?thesis
    using s d hd_in_set [OF s] last_in_set [OF s] unfolding line_text_def trimmed_def by blast
qed

lemma line_text_minus: "line_text s \<Longrightarrow> line_text (CHR ''-'' # s)"
  by (auto simp: line_text_def trimmed_def is_whitespace_def newline_def Let_def)

lemma int_str_line_text: "line_text (int_str n)"
  unfolding int_str_def
  by (auto intro!: line_text_minus digit_line_text nat_str_digits simp: nat_str_nonempty)

lemma parse_i64_int_str: "- (2 ^ 63) \<le> n \<Longrightarrow> n \<le> 2 ^ 63 - 1 \<Longrightarrow> parse_i64 (int_str n) = Some n"
proof (cases "n < 0")
  case True
  assume "- (2 ^ 63) \<le> n"
  with True show ?thesis
    by (simp add: parse_i64_def parse_signed_def int_str_def parse_digits_nat_str)
next
  case False
  assume "n \<le> 2 ^ 63 - 1"
  with False show ?thesis
    by (simp add: parse_i64_def int_str_def parse_signed_nat_str)
qed

lemma scan_rendered_directives:
  assumes w: "words_agree edp_str gpu_str" and d: "\<forall>d \<in> set descs. line_text (''desc:'' @ d)"
    and p: "\<And>n. priority = Some n \<Longrightarrow> - (2 ^ 63) \<le> n \<and> n \<le> 2 ^ 63 - 1"
  shows "scan_lines (lines (render_directives edp_str gpu_str ''--'' descs edp gpu priority @ rest)) scan_init
    = scan_lines (lines rest) (scan_init\<lparr>sc_matches := map ((@) ''desc:'') descs, sc_edp := edp,
        sc_gpu := gpu, sc_priority := priority\<rparr>)"
proof -
  note ws = words_line_text [OF w]
  have e: "scan_directive ''edp'' (edp_str edp) sc = Inr (sc\<lparr>sc_edp := edp\<rparr>)" for sc
    by (simp add: scan_directive_def ws)
  have g: "gpu \<noteq> gpu_pref.Auto \<Longrightarrow> scan_directive ''gpu'' (gpu_str gpu) sc = Inr (sc\<lparr>sc_gpu := gpu\<rparr>)" for sc
    by (simp add: scan_directive_def ws)
  have q: "priority = Some n \<Longrightarrow> scan_directive ''priority'' (int_str n) sc = Inr (sc\<lparr>sc_priority := Some n\<rparr>)"
    for n sc using p by (simp add: scan_directive_def parse_i64_int_str)
  show ?thesis
    unfolding render_directives_def append_assoc scan_matches [OF d]
    using ws profile_keys_ok e g q int_str_line_text
    by (cases "gpu = gpu_pref.Auto"; cases priority)
      (simp_all add: scan_render_line scan_init_def del: scan_lines.simps)
qed

lemma scan_body: "\<not> is_directive l \<Longrightarrow> \<not> is_comment l \<Longrightarrow> scan_lines (l # ls) sc = Inr sc"
  by simp

lemma scan_comment: "\<not> is_directive l \<Longrightarrow> is_comment l \<Longrightarrow> scan_lines (l # ls) sc = scan_lines ls sc"
  by simp

lemma lines_from_head:
  assumes "c \<noteq> CHR 0x0D"
  shows "\<exists>t ls. lines_from (acc @ [c]) s = (c # t) # ls"
proof (induction s arbitrary: acc)
  case Nil
  then show ?case by simp
next
  case (Cons d s)
  show ?case
  proof (cases "d = newline")
    case True
    have "\<exists>t. strip_cr (c # rev acc) = c # t" using assms by (cases acc) (auto simp: strip_cr_def)
    with True show ?thesis by auto
  next
    case False
    then show ?thesis using Cons [of "d # acc"] by simp
  qed
qed

lemma lines_head: "c \<noteq> newline \<Longrightarrow> c \<noteq> CHR 0x0D \<Longrightarrow> \<exists>t ls. lines (c # s) = (c # t) # ls"
  using lines_from_head [of c "[]" s] by (simp add: lines_def)

lemma scan_lua_body:
  assumes "ms \<noteq> []"
  shows "scan_lines (lines (newline # concat (map render_enabled ms) @ rest)) sc = Inr sc"
proof -
  have "lines (newline # t) = [] # lines t" for t
    using lines_line [of "[]" t] by (simp add: strip_cr_def)
  moreover obtain s where "concat (map render_enabled ms) @ rest = CHR ''h'' # s"
    using assms by (cases ms) (auto simp: render_enabled_def)
  moreover obtain t ls where "lines (CHR ''h'' # s) = (CHR ''h'' # t) # ls"
    using lines_head [of "CHR ''h''" s] by (auto simp: newline_def)
  ultimately show ?thesis
    by (simp add: is_directive_def is_comment_def starts_with_def trim_start_def is_whitespace_def Let_def)
qed

lemma scan_lua_header:
  assumes "newline \<notin> set name" "newline \<notin> set date"
  shows "scan_lines (lines (''-- Profile: '' @ name @ '' '' @ em_dash @ '' captured from the live layout (''
      @ date @ '').'' @ [newline] @ ''--'' @ [newline] @ rest)) sc = scan_lines (lines rest) sc"
proof -
  let ?h = "''-- Profile: '' @ name @ '' '' @ em_dash @ '' captured from the live layout ('' @ date @ '').''"
  have "newline \<notin> set ?h" using assms by (simp add: em_dash_def newline_def)
  moreover have "strip_cr ?h = ?h" by (simp add: strip_cr_def)
  moreover have "newline \<notin> set ''--''" "strip_cr ''--'' = ''--''" by (simp_all add: newline_def strip_cr_def)
  ultimately have l: "lines (?h @ newline # ''--'' @ newline # rest) = ?h # ''--'' # lines rest"
    using lines_line [of ?h "''--'' @ newline # rest"] lines_line [of "''--''" rest] by simp
  have "\<not> is_directive ?h" "is_comment ?h" "\<not> is_directive ''--''" "is_comment ''--''"
    by (simp_all add: is_directive_def is_comment_def starts_with_def trim_start_def is_whitespace_def Let_def)
  then have "scan_lines (?h # ''--'' # lines rest) sc = scan_lines (lines rest) sc"
    by (simp only: scan_comment simp_thms)
  with l show ?thesis by simp
qed

lemma capture_layout_nonempty: "capture_layout ms = Some layout \<Longrightarrow> cl_enabled layout \<noteq> []"
  by (auto simp: capture_layout_def Let_def split: if_splits)
    (metis (mono_tags) filter_empty_conv set_empty set_sort)

lemma capture_layout_matches: "capture_layout ms = Some layout \<Longrightarrow> cl_match_descs layout \<noteq> []"
  using capture_layout_nonempty [of ms layout]
  by (auto simp: capture_layout_def Let_def split: if_splits)

section \<open>Properties\<close>

text \<open>C29: A captured layout always renders to a profile file, and that file reads back as the
  capture: one match per described monitor in layout order, the chosen panel and GPU policy, the
  chosen priority (or the number of matches), no hooks and no warning. The conditions, all of
  them: some monitor of the layout is enabled; neither the name nor the date contains a line feed;
  no description contains a line feed or ends in a blank (\<open>line_text\<close>); a chosen priority is an
  \<open>i64\<close>; and the words the external crate prints for the two policies are the ones the parser
  of this repository reads (\<open>words_agree\<close>).\<close>
theorem captured_profile_reads_back:
  assumes cap: "capture_layout monitors = Some layout"
    and words: "words_agree edp_str gpu_str"
    and one_line: "newline \<notin> set name" "newline \<notin> set date"
    and descs: "\<forall>d \<in> set (cl_match_descs layout). line_text (''desc:'' @ d)"
    and prio: "\<And>n. priority = Some n \<Longrightarrow> - (2 ^ 63) \<le> n \<and> n \<le> 2 ^ 63 - 1"
  shows "\<exists>txt. map_option fst (render_profile_lua edp_str gpu_str name date monitors edp gpu priority) = Some txt
     \<and> parse_profile file Lua txt =
         Inr (\<lparr>pf_name = file, pf_format = Lua, pf_matches = map ((@) ''desc:'') (cl_match_descs layout),
               pf_edp = edp, pf_gpu = gpu, pf_hooks = [],
               pf_priority = (case priority of Some p \<Rightarrow> p | None \<Rightarrow> int (length (cl_match_descs layout)))\<rparr>, [])"
proof -
  let ?head = "''-- Profile: '' @ name @ '' '' @ em_dash @ '' captured from the live layout ('' @ date @ '').''
      @ [newline] @ ''--'' @ [newline]"
  let ?dirs = "render_directives edp_str gpu_str ''--'' (cl_match_descs layout) edp gpu priority"
  let ?body = "newline # concat (map render_enabled (cl_enabled layout))
      @ concat (map render_disabled (cl_disabled layout)) @ render_footer"
  have "map_option fst (render_profile_lua edp_str gpu_str name date monitors edp gpu priority)
      = Some (?head @ ?dirs @ ?body)"
    by (simp add: render_profile_lua_def cap)
  moreover have "scan_lines (lines (?head @ ?dirs @ ?body)) scan_init =
      Inr (scan_init\<lparr>sc_matches := map ((@) ''desc:'') (cl_match_descs layout), sc_edp := edp,
        sc_gpu := gpu, sc_priority := priority\<rparr>)"
    using scan_lua_header [OF one_line, of "?dirs @ ?body" scan_init]
      scan_rendered_directives [OF words descs prio, where edp = edp and gpu = gpu and rest = ?body and priority = priority]
      scan_lua_body [OF capture_layout_nonempty [OF cap]]
    by (simp del: scan_lines.simps)
  moreover have "map ((@) ''desc:'') (cl_match_descs layout) \<noteq> []"
    using capture_layout_matches [OF cap] by simp
  ultimately show ?thesis
    by (intro exI [of _ "?head @ ?dirs @ ?body"] conjI) (simp_all add: parse_profile_def scan_init_def split: option.split)
qed

definition demo_monitor :: monitor_snapshot where
  "demo_monitor = \<lparr>mn_name = ''DP-1'', mn_description = ''Dell U2720Q'', mn_width = 3840, mn_height = 2160,
     mn_refresh = 60, mn_x = 0, mn_y = 0, mn_scale = 3 / 2, mn_transform = 0, mn_disabled = False\<rparr>"

definition edp_word :: "edp_policy \<Rightarrow> string" where
  "edp_word p = (case p of edp_policy.Auto \<Rightarrow> ''auto'' | edp_policy.Enable \<Rightarrow> ''enable''
     | edp_policy.Disable \<Rightarrow> ''disable'')"

definition gpu_word :: "gpu_pref \<Rightarrow> string" where
  "gpu_word g = (case g of gpu_pref.Auto \<Rightarrow> ''auto'' | gpu_pref.Igpu \<Rightarrow> ''igpu'' | gpu_pref.Dgpu \<Rightarrow> ''dgpu'')"

theorem captured_profile_reads_back_witness:
  "\<exists>txt. map_option fst (render_profile_lua edp_word gpu_word ''desk'' ''2024-01-01'' [demo_monitor]
       edp_policy.Disable gpu_pref.Dgpu (Some 7)) = Some txt
     \<and> parse_profile ''desk'' Lua txt =
         Inr (\<lparr>pf_name = ''desk'', pf_format = Lua, pf_matches = [''desc:Dell U2720Q''],
               pf_edp = edp_policy.Disable, pf_gpu = gpu_pref.Dgpu, pf_hooks = [], pf_priority = 7\<rparr>, [])"
proof -
  have c: "capture_layout [demo_monitor] = Some \<lparr>cl_enabled = [demo_monitor], cl_disabled = [],
      cl_match_descs = [''Dell U2720Q'']\<rparr>"
    by (simp add: capture_layout_def demo_monitor_def starts_with_def)
  have w: "words_agree edp_word gpu_word" by (simp add: words_agree_def edp_word_def gpu_word_def)
  show ?thesis
    using captured_profile_reads_back [OF c w, of "''desk''" "''2024-01-01''" "Some 7" edp_policy.Disable
        gpu_pref.Dgpu "''desk''"]
    by (simp add: line_text_def trimmed_def is_whitespace_def newline_def)
qed

text \<open>C30: Whatever a profile's path is (a path holds no NUL), the argument built for the compositor
  is \<open>dofile(\<close> a Lua literal \<open>)\<close>, and Lua reads that literal back as exactly the path: quotes,
  backslashes and line ends in it can neither change the path nor end the literal early.\<close>
theorem apply_profile_literal_is_the_path:
  assumes "CHR 0x00 \<notin> set path"
  shows "\<exists>lit. apply_profile_args path = [''eval'', ''dofile('' @ lit @ '')''] \<and> lua_unquote lit = Some path"
proof -
  have "nul_safe path" using assms by (auto simp: nul_safe_def)
  then show ?thesis by (auto simp: apply_profile_args_def lua_unquote_literal)
qed

theorem apply_profile_literal_is_the_path_witness:
  "\<exists>lit. apply_profile_args [dquote, CHR ''a'', CHR 0x5C, newline] = [''eval'', ''dofile('' @ lit @ '')'']
     \<and> lua_unquote lit = Some [dquote, CHR ''a'', CHR 0x5C, newline]"
  by (rule apply_profile_literal_is_the_path) (simp add: dquote_def newline_def)

end
