(* ===== verification/Worker.thy ===== *)
theory Worker
  imports Effectors Profiles
begin

text \<open>
  The serialised effect worker, \<open>effector_worker\<close> of \<open>src/daemon/effectors.rs\<close>: each command
  against the compositor. What \<open>hyprctl\<close> answers is asked per tick; what the worker runs is
  kept as a list of calls. \<open>hyprctl monitors all\<close> lists every output, \<open>hyprctl monitors\<close> the
  enabled ones.
\<close>

datatype call =
    Hyprctl "string list" bool
  | SyncMarker bool bool
  | RunCmd string "string list"
  | SpawnHook string

record worker =
  wk_calls :: "call list"
  wk_marker :: bool
  wk_sent :: "event list"
  wk_tick :: nat

text \<open>A workspace as \<open>hyprctl workspaces\<close> reports it: its monitor and its id, if present.\<close>

record worker_env =
  we_monitors_all :: "nat \<Rightarrow> hypr_monitor list option"
  we_monitor_names :: "nat \<Rightarrow> string option list option"
  we_workspaces :: "nat \<Rightarrow> (string option \<times> int option) list option"
  we_hyprctl_ok :: "nat \<Rightarrow> string list \<Rightarrow> bool"
  we_marker_io :: "nat \<Rightarrow> bool"

text \<open>Summary and body, as \<open>notify_power\<close> and \<open>notify_gpu_drift\<close> compose them.\<close>

fun notify_text :: "notification \<Rightarrow> string \<times> string" where
  "notify_text (OverrideCleared p base) = (''Power profile'',
     ''Power override cleared '' @ em_dash @ '' back to automatic ('' @ power_profile_as_str p
       @ '' on '' @ base_state_as_str base @ '')'')"
| "notify_text (AdoptedOverride p) = (''Power profile'',
     ''Adopted external power change as override: '' @ power_profile_as_str p)"
| "notify_text (GpuDrift primary reason trigger ac) = (''GPU selection drift'',
     trigger @ '': a relog would switch rendering to '' @ primary @ '' ('' @ reason @ '')''
       @ (if ac then [] else '' '' @ em_dash @ '' on battery''))"

definition wask :: "(nat \<Rightarrow> 'a) \<Rightarrow> worker \<Rightarrow> 'a \<times> worker" where
  "wask q w = (q (wk_tick w), w\<lparr>wk_tick := Suc (wk_tick w)\<rparr>)"

definition wcall :: "call \<Rightarrow> worker \<Rightarrow> worker" where
  "wcall c w = w\<lparr>wk_calls := wk_calls w @ [c]\<rparr>"

definition hyprctl_ok :: "worker_env \<Rightarrow> string list \<Rightarrow> worker \<Rightarrow> bool \<times> worker" where
  "hyprctl_ok e args w = (let (answer, w) = wask (we_hyprctl_ok e) w; r = answer args
     in (r, wcall (Hyprctl args r) w))"

definition edp_is_disabled :: "worker_env \<Rightarrow> worker \<Rightarrow> bool option \<times> worker" where
  "edp_is_disabled e w = (let (ms, w) = wask (we_monitors_all e) w in
     (Option.bind ms edp_is_disabled_in, w))"

definition workspaces_on_monitor :: "worker_env \<Rightarrow> string \<Rightarrow> worker \<Rightarrow> int list \<times> worker" where
  "workspaces_on_monitor e monitor w = (let (ws, w) = wask (we_workspaces e) w in
     (case ws of
        None \<Rightarrow> []
      | Some ws \<Rightarrow> filter (\<lambda>i. i > 0)
          (List.map_filter (\<lambda>(m, i). if m = Some monitor then i else None) ws), w))"

fun first_external :: "string option list \<Rightarrow> string option" where
  "first_external [] = None"
| "first_external (n # ns) =
     (case n of
        Some name \<Rightarrow> if starts_with ''eDP'' name then first_external ns else Some name
      | None \<Rightarrow> first_external ns)"

definition first_external_monitor :: "worker_env \<Rightarrow> worker \<Rightarrow> string option \<times> worker" where
  "first_external_monitor e w = (let (ns, w) = wask (we_monitor_names e) w in
     (Option.bind ns first_external, w))"

text \<open>The marker write is best effort: a failure is logged and the flip goes on.\<close>

definition sync_edp_marker :: "worker_env \<Rightarrow> bool \<Rightarrow> worker \<Rightarrow> worker" where
  "sync_edp_marker e on w =
     (let (ok, w) = wask (we_marker_io e) w;
          w = (if ok then w\<lparr>wk_marker := \<not> on\<rparr> else w)
      in wcall (SyncMarker on ok) w)"

definition move_all :: "worker_env \<Rightarrow> string \<Rightarrow> int list \<Rightarrow> worker \<Rightarrow> worker" where
  "move_all e dest ids w =
     fold (\<lambda>i w. snd (hyprctl_ok e (move_workspace_to_monitor_args i dest) w)) ids w"

definition worker_cmd :: "worker_env \<Rightarrow> cmd \<Rightarrow> worker \<Rightarrow> worker" where
  "worker_cmd e c w = (case c of
       SetEdp on \<Rightarrow>
         (let (disabled, w) = edp_is_disabled e w in
          case disabled of
            None \<Rightarrow> w
          | Some d \<Rightarrow>
              let w = sync_edp_marker e on w in
              if on then (if d then snd (hyprctl_ok e [''reload''] w) else w)
              else (if d then w else snd (hyprctl_ok e (edp_disable_args EDP_MONITOR) w)))
     | CmdApplyProfile lua \<Rightarrow>
         (let (ok, w) = hyprctl_ok e (apply_profile_args lua) w;
              w = (if ok then w else snd (hyprctl_ok e [''reload''] w))
          in w\<lparr>wk_sent := wk_sent w @ [ProfileApplied]\<rparr>)
     | DpmsOn \<Rightarrow> snd (hyprctl_ok e dpms_on_args w)
     | RehomeEdpWorkspaces \<Rightarrow>
         (let (stranded, w) = workspaces_on_monitor e EDP_MONITOR w in
          if stranded = [] then w
          else let (dest, w) = first_external_monitor e w in
            (case dest of None \<Rightarrow> w | Some d \<Rightarrow> move_all e d stranded w))
     | PauseMedia \<Rightarrow> wcall (RunCmd ''playerctl'' [''--all-players'', ''pause'']) w
     | Notify n \<Rightarrow>
         (let (summary, body) = notify_text n;
              tag = (case n of GpuDrift _ _ _ _ \<Rightarrow> ''hyprstate-gpu'' | _ \<Rightarrow> ''hyprstate-power'')
          in wcall (RunCmd ''notify-send'' [''-a'', ''hyprstate'', ''-h'',
               ''string:x-canonical-private-synchronous:'' @ tag, summary, body]) w)
     | RunHook h \<Rightarrow> wcall (SpawnHook h) w)"

definition worker_run :: "worker_env \<Rightarrow> cmd list \<Rightarrow> worker \<Rightarrow> worker" where
  "worker_run e cs w = fold (worker_cmd e) cs w"

section \<open>What a panel command does\<close>

lemma wask_simps [simp]:
  "fst (wask q w) = q (wk_tick w)" "snd (wask q w) = w\<lparr>wk_tick := Suc (wk_tick w)\<rparr>"
  by (simp_all add: wask_def)

text \<open>The calls of a panel command, for what the panel query answered.\<close>

lemma set_edp_calls:
  "wk_calls (worker_cmd e (SetEdp on) w) = wk_calls w @
     (case Option.bind (we_monitors_all e (wk_tick w)) edp_is_disabled_in of
        None \<Rightarrow> []
      | Some d \<Rightarrow> SyncMarker on (we_marker_io e (Suc (wk_tick w))) #
          (if on = d then
             (let args = (if on then [''reload''] else edp_disable_args EDP_MONITOR) in
              [Hyprctl args (we_hyprctl_ok e (Suc (Suc (wk_tick w))) args)])
           else []))"
  by (simp add: worker_cmd_def edp_is_disabled_def sync_edp_marker_def hyprctl_ok_def wcall_def
      Let_def split_beta split: option.split)

lemma wk_sent_set_edp: "wk_sent (worker_cmd e (SetEdp on) w) = wk_sent w"
  by (simp add: worker_cmd_def edp_is_disabled_def sync_edp_marker_def hyprctl_ok_def wcall_def
      Let_def split_beta split: option.split)

section \<open>Properties\<close>

lemma hyprctl_ok_fields [simp]:
  "wk_calls (snd (hyprctl_ok e args w)) = wk_calls w @ [Hyprctl args (we_hyprctl_ok e (wk_tick w) args)]"
  "wk_sent (snd (hyprctl_ok e args w)) = wk_sent w"
  by (simp_all add: hyprctl_ok_def wcall_def Let_def split_beta)

lemma move_all_fields:
  "wk_sent (move_all e d ids w) = wk_sent w"
  "\<exists>cs. wk_calls (move_all e d ids w) = wk_calls w @ cs
     \<and> (\<forall>c \<in> set cs. \<exists>i ok. c = Hyprctl (move_workspace_to_monitor_args i d) ok)"
proof -
  show "wk_sent (move_all e d ids w) = wk_sent w"
    by (induction ids arbitrary: w) (simp_all add: move_all_def)
  show "\<exists>cs. wk_calls (move_all e d ids w) = wk_calls w @ cs
     \<and> (\<forall>c \<in> set cs. \<exists>i ok. c = Hyprctl (move_workspace_to_monitor_args i d) ok)"
  proof (induction ids arbitrary: w)
    case Nil
    then show ?case by (simp add: move_all_def)
  next
    case (Cons i ids)
    let ?args = "move_workspace_to_monitor_args i d"
    from Cons [of "snd (hyprctl_ok e ?args w)"] obtain cs
      where "wk_calls (move_all e d (i # ids) w) = wk_calls w @ Hyprctl ?args (we_hyprctl_ok e (wk_tick w) ?args) # cs"
        "\<forall>c \<in> set cs. \<exists>i ok. c = Hyprctl (move_workspace_to_monitor_args i d) ok"
      by (auto simp: move_all_def)
    then show ?case by auto
  qed
qed

lemma worker_cmd_sent:
  "wk_sent (worker_cmd e c w) = wk_sent w @ (case c of CmdApplyProfile _ \<Rightarrow> [ProfileApplied] | _ \<Rightarrow> [])"
proof (cases c)
  case (SetEdp on)
  then show ?thesis by (simp add: wk_sent_set_edp)
next
  case RehomeEdpWorkspaces
  then show ?thesis
    by (simp add: worker_cmd_def workspaces_on_monitor_def first_external_monitor_def Let_def split_beta
        move_all_fields split: option.split)
qed (simp_all add: worker_cmd_def Let_def split_beta wcall_def hyprctl_ok_def split: prod.split)

definition disables_panel :: "call \<Rightarrow> bool" where
  "disables_panel c = (\<exists>ok. c = Hyprctl (edp_disable_args EDP_MONITOR) ok)"

lemma other_args_not_disable:
  "[''reload''] \<noteq> edp_disable_args m" "apply_profile_args p \<noteq> edp_disable_args m"
  "dpms_on_args \<noteq> edp_disable_args m" "move_workspace_to_monitor_args i d \<noteq> edp_disable_args m"
  by (simp_all add: edp_disable_args_def apply_profile_args_def dpms_on_args_def
      move_workspace_to_monitor_args_def)

lemma worker_cmd_calls:
  "\<exists>cs. wk_calls (worker_cmd e c w) = wk_calls w @ cs
     \<and> ((\<exists>x \<in> set cs. disables_panel x) \<longrightarrow> c = SetEdp False)"
proof (cases c)
  case (SetEdp on)
  then show ?thesis using set_edp_calls [of e on w] other_args_not_disable(1) [of EDP_MONITOR, symmetric]
    by (auto simp: disables_panel_def Let_def split: option.splits)
next
  case RehomeEdpWorkspaces
  have m: "wk_calls u = l \<Longrightarrow>
      \<exists>cs. wk_calls (move_all e d ids u) = l @ cs \<and> (\<forall>x \<in> set cs. \<not> disables_panel x)" for d ids u l
    using move_all_fields(2) [of e d ids u] other_args_not_disable(4) by (fastforce simp: disables_panel_def)
  show ?thesis
    using RehomeEdpWorkspaces
    by (auto simp: worker_cmd_def workspaces_on_monitor_def first_external_monitor_def Let_def split_beta
        wask_def intro: m split: option.split)
qed (auto simp: worker_cmd_def Let_def split_beta wcall_def hyprctl_ok_def wask_def disables_panel_def
      other_args_not_disable split: prod.split)

text \<open>C24: Whatever the compositor answers, the worker reports every profile apply as done exactly
  once, in order, and disables the internal panel only when a command said so.\<close>
theorem worker_answers_and_obeys:
  "wk_sent (worker_run e cs w)
     = wk_sent w @ replicate (length (filter (\<lambda>c. \<exists>l. c = CmdApplyProfile l) cs)) ProfileApplied
   \<and> (\<exists>new. wk_calls (worker_run e cs w) = wk_calls w @ new
        \<and> ((\<exists>x \<in> set new. disables_panel x) \<longrightarrow> SetEdp False \<in> set cs))"
proof (induction cs arbitrary: w)
  case Nil
  then show ?case by (simp add: worker_run_def)
next
  case (Cons c cs)
  let ?v = "worker_cmd e c w"
  have r: "worker_run e (c # cs) w = worker_run e cs ?v" by (simp add: worker_run_def)
  obtain n1 where n1: "wk_calls ?v = wk_calls w @ n1" "(\<exists>x \<in> set n1. disables_panel x) \<longrightarrow> c = SetEdp False"
    using worker_cmd_calls [of e c w] by blast
  obtain n2 where n2: "wk_calls (worker_run e cs ?v) = wk_calls ?v @ n2"
    "(\<exists>x \<in> set n2. disables_panel x) \<longrightarrow> SetEdp False \<in> set cs"
    using Cons [of ?v] by blast
  have "wk_sent (worker_run e (c # cs) w)
      = wk_sent w @ replicate (length (filter (\<lambda>c. \<exists>l. c = CmdApplyProfile l) (c # cs))) ProfileApplied"
    using Cons [of ?v] r by (cases c) (simp_all add: worker_cmd_sent)
  moreover have "wk_calls (worker_run e (c # cs) w) = wk_calls w @ n1 @ n2"
    by (simp add: r n1(1) n2(1))
  ultimately show ?case using n1(2) n2(2) by (metis Un_iff list.set_intros(1,2) set_append)
qed

definition no_compositor :: worker_env where
  "no_compositor = \<lparr>we_monitors_all = (\<lambda>_. None), we_monitor_names = (\<lambda>_. None),
     we_workspaces = (\<lambda>_. None), we_hyprctl_ok = (\<lambda>_ _. False), we_marker_io = (\<lambda>_. True)\<rparr>"

theorem worker_answers_and_obeys_witness:
  "wk_sent (worker_run no_compositor [DpmsOn, CmdApplyProfile ''a'', SetEdp True, CmdApplyProfile ''b'']
      \<lparr>wk_calls = [], wk_marker = False, wk_sent = [], wk_tick = 0\<rparr>) = [ProfileApplied, ProfileApplied]"
  using worker_answers_and_obeys [of no_compositor "[DpmsOn, CmdApplyProfile ''a'', SetEdp True, CmdApplyProfile ''b'']"
      "\<lparr>wk_calls = [], wk_marker = False, wk_sent = [], wk_tick = 0\<rparr>"]
  by (simp add: numeral_2_eq_2)

end
