(* ===== verification/Sources.thy ===== *)
theory Sources
  imports Effectors
begin

text \<open>
  The event sources of \<open>src/daemon/sources/\<close>: what each of them makes of one message, line or
  reading. The subscription loops around them (reconnect after \<open>SOURCE_RETRY\<close>) only repeat
  these steps. Bytes of a uevent are characters here, as its fields are ASCII.
\<close>

section \<open>Hyprland socket2 lines\<close>

definition socket_event :: "string \<Rightarrow> event option" where
  "socket_event line =
     (case strip_prefix ''monitoraddedv2>>'' line of
        Some rest \<Rightarrow>
          (let ps = split_char (CHR '','') rest in
           Some (MonitorHotplug True (if 1 < length ps then ps ! 1 else [])))
      | None \<Rightarrow>
          (case strip_prefix ''monitorremoved>>'' line of
             Some rest \<Rightarrow> Some (MonitorHotplug False rest)
           | None \<Rightarrow> if starts_with ''configreloaded'' line then Some ConfigReloaded else None))"

section \<open>logind inhibitors\<close>

definition INHIBIT_BASELINE_WHO :: "string list" where
  "INHIBIT_BASELINE_WHO = [''ModemManager'', ''NetworkManager'', ''UPower'', ''hypridle'',
     ''hyprstate'', ''hypr-power'', ''hypr-fsm'']"

record inhibitor_row =
  ir_what :: string
  ir_who :: string
  ir_why :: string
  ir_mode :: string
  ir_uid :: u32
  ir_pid :: u32

definition real_idle_block :: "inhibitor_row \<Rightarrow> bool" where
  "real_idle_block r =
     (if ir_mode r \<noteq> ''block'' then False
      else if \<not> list_ex (\<lambda>c. c = ''idle'' \<or> c = ''sleep'') (split_char (CHR '':'') (ir_what r)) then False
      else if ir_who r \<in> set INHIBIT_BASELINE_WHO then False
      else True)"

fun logind_has_real_idle_block :: "inhibitor_row list \<Rightarrow> bool" where
  "logind_has_real_idle_block [] = False"
| "logind_has_real_idle_block (r # rs) = (if real_idle_block r then True else logind_has_real_idle_block rs)"

definition logind_real_inhibitor_active :: "inhibitor_row list option \<Rightarrow> bool option" where
  "logind_real_inhibitor_active rows = map_option logind_has_real_idle_block rows"

text \<open>One \<open>PropertiesChanged\<close> signal of the watcher: whether it concerns the inhibitors, and
  what the fresh list says.\<close>

definition inhibitor_signal ::
  "string \<Rightarrow> string list \<Rightarrow> inhibitor_row list option \<Rightarrow> bool \<Rightarrow> event list \<times> bool" where
  "inhibitor_signal interface props rows prev =
     (if interface \<noteq> ''org.freedesktop.login1.Manager'' then ([], prev)
      else if \<not> list_ex (\<lambda>p. p \<in> set props) [''BlockInhibited'', ''DelayInhibited''] then ([], prev)
      else case logind_real_inhibitor_active rows of
          None \<Rightarrow> ([], prev)
        | Some cur \<Rightarrow> if cur = prev then ([], prev) else ([Inhibitor False cur], cur))"

text \<open>One poll of the claim watch: the events it sends and whether the task ends.\<close>

definition claim_watch_poll :: "bool option \<Rightarrow> event list \<times> bool" where
  "claim_watch_poll held =
     (if held = Some False then ([Inhibitor True False], True) else ([], False))"

fun claim_watch_run :: "bool option list \<Rightarrow> event list \<times> bool" where
  "claim_watch_run [] = ([], False)"
| "claim_watch_run (h # hs) =
     (let (evs, over) = claim_watch_poll h in
      if over then (evs, True) else (let (evs', over') = claim_watch_run hs in (evs @ evs', over')))"

section \<open>Property watchers\<close>

definition lid_event :: "bool option \<Rightarrow> event list" where
  "lid_event v = (case v of Some b \<Rightarrow> [Lid b] | None \<Rightarrow> [])"

definition sleep_event :: "bool option \<Rightarrow> event list" where
  "sleep_event start = (case start of Some b \<Rightarrow> [if b then Sleeping else Resumed] | None \<Rightarrow> [])"

definition lock_event :: "bool option \<Rightarrow> event list" where
  "lock_event v = (case v of Some b \<Rightarrow> [LockChanged b] | None \<Rightarrow> [])"

definition ac_event :: "bool option \<Rightarrow> event list" where
  "ac_event on_battery = (case on_battery of Some b \<Rightarrow> [AcChanged (\<not> b)] | None \<Rightarrow> [])"

definition battery_event :: "f64 option \<Rightarrow> event list" where
  "battery_event pct = (case pct of Some p \<Rightarrow> [BatteryPercent p] | None \<Rightarrow> [])"

definition POWERD_BUS :: string where "POWERD_BUS = ''org.hyprstate.Power1''"

definition powerd_name_event :: "(string \<times> string option) option \<Rightarrow> event list" where
  "powerd_name_event sig = (case sig of
      Some (name, new_owner) \<Rightarrow> if name = POWERD_BUS \<and> new_owner \<noteq> None then [PowerdAppeared] else []
    | None \<Rightarrow> [])"

definition battery_initial :: "bool option \<Rightarrow> u32 option \<Rightarrow> f64 option \<Rightarrow> f64 option" where
  "battery_initial present dtype pct =
     Option.bind present (\<lambda>p. Option.bind dtype (\<lambda>d.
       if \<not> p \<or> d \<notin> {2, 3} then None else pct))"

section \<open>Kernel uevents\<close>

record uevent =
  ue_action :: string
  ue_devpath :: string
  ue_subsystem :: string

definition NUL :: char where "NUL = CHR 0x00"

fun last_subsystem :: "string list \<Rightarrow> string option \<Rightarrow> string option" where
  "last_subsystem [] acc = acc"
| "last_subsystem (kv # kvs) acc =
     last_subsystem kvs (case strip_prefix ''SUBSYSTEM='' kv of Some v \<Rightarrow> Some v | None \<Rightarrow> acc)"

definition parse_uevent :: "string \<Rightarrow> uevent option" where
  "parse_uevent buf =
     (case filter (\<lambda>p. p \<noteq> []) (split_char NUL buf) of
        [] \<Rightarrow> None
      | header # parts \<Rightarrow>
          (case split_once (CHR ''@'') header of
             None \<Rightarrow> None
           | Some (action, devpath) \<Rightarrow>
               if action = [] \<or> \<not> starts_with ''/'' devpath then None
               else map_option (\<lambda>sub. \<lparr>ue_action = action, ue_devpath = devpath, ue_subsystem = sub\<rparr>)
                      (last_subsystem parts None)))"

definition handle_uevent :: "filesystem \<Rightarrow> uevent \<Rightarrow> bool option \<Rightarrow> event list \<times> bool option" where
  "handle_uevent fs ev last_ac =
     (if ue_subsystem ev = ''power_supply'' then
        (let cur = on_ac_sysfs fs in
         if cur = last_ac then ([], last_ac)
         else case cur of None \<Rightarrow> ([], cur) | Some ac \<Rightarrow> ([AcChanged ac], cur))
      else if ue_subsystem ev = ''backlight'' \<and> ue_action ev \<in> {''add'', ''remove''}
      then ([BacklightHotplug], last_ac)
      else if ue_subsystem ev = ''leds'' \<and> ue_action ev \<in> {''add'', ''remove''}
           \<and> str_contains ''kbd_backlight'' (ue_devpath ev)
      then ([KbdLedHotplug], last_ac)
      else ([], last_ac))"

text \<open>One result of \<open>recv\<close> on the socket.\<close>

datatype recv_result = Datagram string | WouldBlock | NoBufs | RecvErr

definition uevent_recv ::
  "filesystem \<Rightarrow> recv_result \<Rightarrow> bool option
     \<Rightarrow> event list \<times> reconcile_trigger list \<times> bool option" where
  "uevent_recv fs r last_ac = (case r of
       Datagram buf \<Rightarrow>
         (case parse_uevent buf of
            None \<Rightarrow> ([], [], last_ac)
          | Some ev \<Rightarrow> let (evs, ac) = handle_uevent fs ev last_ac in (evs, [], ac))
     | NoBufs \<Rightarrow> ([], [UeventsLost], last_ac)
     | _ \<Rightarrow> ([], [], last_ac))"

section \<open>The reconciler\<close>

text \<open>What a pass reads: logind, the enabled outputs, the clients, the file system, the cursor.\<close>

record gather_reads =
  gr_lid :: "bool option"
  gr_monitors :: "hypr_monitor list option"
  gr_inhibitors :: "inhibitor_row list option"
  gr_clients :: "bool option list option"
  gr_session :: "bool option option"
  gr_fs :: filesystem
  gr_cursor :: "(int \<times> int) option"

definition gather :: "gather_reads \<Rightarrow> u32 \<Rightarrow> bool \<Rightarrow> (reconcile_snapshot \<times> u32) option" where
  "gather r ext_prev has_lid =
     (case (if has_lid then gr_lid r else Some False) of
        None \<Rightarrow> None
      | Some lid \<Rightarrow>
          let ext = ext_monitor_count_in (gr_monitors r) ext_prev;
              dpms_off = map_option any_enabled_monitor_dpms_off_in (gr_monitors r)
          in Some (\<lparr>rs_reasons = [], rs_lid_closed = lid, rs_ext_mon_count = ext,
               rs_logind_inhibitor = or_default False (logind_real_inhibitor_active (gr_inhibitors r)),
               rs_wayland_inhibitor = map_option any_client_inhibiting_idle_in (gr_clients r),
               rs_locked = (case gr_session r of Some hint \<Rightarrow> hint | None \<Rightarrow> None),
               rs_on_ac = on_ac_sysfs (gr_fs r),
               rs_edp_disabled = Option.bind (gr_monitors r) edp_is_disabled_in,
               rs_dpms_off = dpms_off,
               rs_cursor_pos = (if dpms_off = Some True then gr_cursor r else None)\<rparr>, ext))"

text \<open>One round of \<open>reconcile_task\<close>: the trigger that woke it (none: the safety tick), those
  that arrived while the burst settled, and whether the tick is passed on to the state-file
  task.\<close>

definition reconcile_round ::
  "reconcile_trigger option \<Rightarrow> reconcile_trigger list \<Rightarrow> gather_reads \<Rightarrow> bool \<Rightarrow> u32
     \<Rightarrow> event list \<times> bool \<times> u32" where
  "reconcile_round trig burst r has_lid ext_prev =
     (let first = (case trig of Some t \<Rightarrow> t | None \<Rightarrow> SafetyTick);
          reasons = first # burst
      in case gather r ext_prev has_lid of
          None \<Rightarrow> ([], first = SafetyTick, ext_prev)
        | Some (snap, ext) \<Rightarrow>
            ([ReconcileTick (snap\<lparr>rs_reasons := describe reasons\<rparr>)], first = SafetyTick, ext))"

section \<open>Facts\<close>

lemma logind_block_iff: "logind_has_real_idle_block rs \<longleftrightarrow> (\<exists>r \<in> set rs. real_idle_block r)"
  by (induction rs) auto

lemma claim_watch_run_released:
  "claim_watch_run hs = (if Some False \<in> set hs then ([Inhibitor True False], True) else ([], False))"
  by (induction hs) (auto simp: claim_watch_poll_def)

lemma handle_uevent_ac_edge:
  "AcChanged ac \<in> set (fst (handle_uevent fs ev l)) \<Longrightarrow> on_ac_sysfs fs = Some ac \<and> l \<noteq> Some ac"
  by (auto simp: handle_uevent_def Let_def split: if_splits option.splits)

lemma edp_disabled_in_enabled: "\<forall>m \<in> set ms. \<not> hm_disabled m \<Longrightarrow> edp_is_disabled_in ms \<noteq> Some True"
  by (auto simp: edp_is_disabled_in_def find_Some_iff)

text \<open>Over a run of readings, the inhibitor watcher reports exactly the edges.\<close>

fun inhibitor_run :: "inhibitor_row list option list \<Rightarrow> bool \<Rightarrow> event list" where
  "inhibitor_run [] prev = []"
| "inhibitor_run (rows # later) prev =
     (let (evs, cur) = inhibitor_signal ''org.freedesktop.login1.Manager'' [''BlockInhibited''] rows prev
      in evs @ inhibitor_run later cur)"

fun edges :: "'a \<Rightarrow> 'a list \<Rightarrow> 'a list" where
  "edges prev [] = []"
| "edges prev (b # bs) = (if b = prev then edges b bs else b # edges b bs)"

lemma last_edges: "last (b # edges b bs) = last (b # bs)"
proof (induction bs arbitrary: b)
  case (Cons a bs)
  then show ?case by (cases "a = b") (simp_all del: last.simps add: last_ConsR)
qed simp

lemma inhibitor_run_edges:
  "inhibitor_run rows prev
     = map (Inhibitor False) (edges prev (List.map_filter logind_real_inhibitor_active rows))"
  by (induction rows arbitrary: prev)
    (auto simp: inhibitor_signal_def List.map_filter_simps split: option.splits)

lemma socket_event_hotplug:
  "socket_event line = Some (MonitorHotplug up name) \<Longrightarrow>
     starts_with (if up then ''monitoraddedv2>>'' else ''monitorremoved>>'') line"
  by (auto simp: socket_event_def Let_def strip_prefix_def split: option.splits if_splits)

section \<open>Properties\<close>

text \<open>A logind list that cannot be read is a release: whenever \<open>ListInhibitors\<close> fails under a
  reconcile pass, the snapshot says that nothing holds a claim, while the watcher that reads the
  same list keeps its previous value and sends nothing.\<close>
lemma failed_listing_is_a_release:
  assumes "gather r ext_prev has_lid = Some (snap, ext)" and "gr_inhibitors r = None"
  shows "\<not> rs_logind_inhibitor snap
     \<and> inhibitor_signal ''org.freedesktop.login1.Manager'' [''BlockInhibited''] (gr_inhibitors r) True = ([], True)"
  using assms
  by (auto simp: gather_def Let_def logind_real_inhibitor_active_def or_default_def inhibitor_signal_def
      split: option.splits)

definition no_reads :: gather_reads where
  "no_reads = \<lparr>gr_lid = Some True, gr_monitors = None, gr_inhibitors = None, gr_clients = None,
     gr_session = None, gr_fs = \<lparr>fs_dir = (\<lambda>_. None), fs_file = (\<lambda>_. None), fs_canonical = (\<lambda>_. None)\<rparr>,
     gr_cursor = None\<rparr>"

lemma failed_listing_is_a_release_witness:
  "\<exists>snap. gather no_reads 0 True = Some (snap, 0) \<and> \<not> rs_logind_inhibitor snap"
proof -
  obtain snap where "gather no_reads 0 True = Some (snap, 0)"
    by (simp add: gather_def no_reads_def Let_def ext_monitor_count_in_def)
  then show ?thesis using failed_listing_is_a_release [of no_reads 0 True snap 0]
    by (simp add: no_reads_def)
qed

text \<open>The inhibitor watcher reports exactly the edges: over any sequence of readings, failed ones
  included, the events it sends are the values that differ from the one before, in order, so that
  the daemon's claim after them is the last one read.\<close>
lemma inhibitor_events_are_the_edges:
  "inhibitor_run rows prev
     = map (Inhibitor False) (edges prev (List.map_filter logind_real_inhibitor_active rows))
   \<and> last (prev # edges prev (List.map_filter logind_real_inhibitor_active rows))
     = last (prev # List.map_filter logind_real_inhibitor_active rows)"
  by (simp only: inhibitor_run_edges last_edges simp_thms)

end
