(* ===== verification/FileState.thy ===== *)
theory FileState
  imports Effectors
begin

text \<open>
  The state-file task, \<open>src/daemon/sources/files.rs\<close>: the routing of one inotify event, the
  directory watches, and one pass of the loop over the inputs a trigger names. What the inputs
  read as is a value of the same record the task keeps its last report in.
\<close>

section \<open>Routing\<close>

datatype watch_dir = HyprConfig | Runtime | UserProfiles | SystemProfiles

datatype mask_bit = QOverflow | Ignored | Create | Delete | CloseWrite | MovedTo | MovedFrom

record check =
  ck_gpu :: bool
  ck_power :: bool
  ck_suspend :: bool
  ck_profiles :: bool
  ck_platform :: bool
  ck_kbd_level :: bool
  ck_kbd_override :: bool
  ck_rewatch :: bool

definition check_none :: check where
  "check_none = \<lparr>ck_gpu = False, ck_power = False, ck_suspend = False, ck_profiles = False,
     ck_platform = False, ck_kbd_level = False, ck_kbd_override = False, ck_rewatch = False\<rparr>"

definition check_all :: check where
  "check_all = \<lparr>ck_gpu = True, ck_power = True, ck_suspend = True, ck_profiles = True,
     ck_platform = True, ck_kbd_level = True, ck_kbd_override = True, ck_rewatch = True\<rparr>"

definition GPU_OVERRIDE_NAME :: string where "GPU_OVERRIDE_NAME = ''gpu-select''"
definition POWER_OVERRIDE_NAME :: string where "POWER_OVERRIDE_NAME = ''power-override''"
definition SUSPEND_REQUEST_NAME :: string where "SUSPEND_REQUEST_NAME = ''hyprstate-suspend-request''"
definition KBD_LEVEL_NAME :: string where "KBD_LEVEL_NAME = ''kbd-level''"
definition KBD_OVERRIDE_NAME :: string where "KBD_OVERRIDE_NAME = ''hyprstate-kbd-override''"
definition PROFILES_DIR_NAME :: string where "PROFILES_DIR_NAME = ''profiles''"

text \<open>\<open>Path::extension\<close> of a file name: what follows its last dot, unless nothing precedes it.\<close>

definition extension :: "string \<Rightarrow> string option" where
  "extension n = (let ps = split_char (CHR ''.'') n in
     if length ps < 2 \<or> (length ps = 2 \<and> hd ps = []) \<or> n = ''..'' then None else Some (last ps))"

definition route :: "watch_dir \<Rightarrow> mask_bit list \<Rightarrow> string option \<Rightarrow> check" where
  "route dir bits name =
     (if QOverflow \<in> set bits then check_all
      else if Ignored \<in> set bits then
        check_none\<lparr>ck_profiles := dir = UserProfiles \<or> dir = SystemProfiles, ck_rewatch := True\<rparr>
      else case name of
          None \<Rightarrow> check_none
        | Some n \<Rightarrow>
            (case dir of
               HyprConfig \<Rightarrow>
                 (if n = GPU_OVERRIDE_NAME then check_none\<lparr>ck_gpu := True\<rparr>
                  else if n = POWER_OVERRIDE_NAME then check_none\<lparr>ck_power := True\<rparr>
                  else if n = KBD_LEVEL_NAME then check_none\<lparr>ck_kbd_level := True\<rparr>
                  else if n = PROFILES_DIR_NAME \<and> (Create \<in> set bits \<or> MovedTo \<in> set bits)
                  then check_none\<lparr>ck_profiles := True, ck_rewatch := True\<rparr>
                  else check_none)
             | Runtime \<Rightarrow>
                 (if n = SUSPEND_REQUEST_NAME then check_none\<lparr>ck_suspend := True\<rparr>
                  else if n = KBD_OVERRIDE_NAME then check_none\<lparr>ck_kbd_override := True\<rparr>
                  else check_none)
             | _ \<Rightarrow>
                 (if extension n = Some ''toml'' then check_none\<lparr>ck_profiles := True\<rparr>
                  else check_none)))"

section \<open>Directory watches\<close>

datatype watch_result = Watched nat | WatchAbsent | WatchError

definition targets :: "string option \<Rightarrow> string option \<Rightarrow> string \<Rightarrow> string \<Rightarrow> (watch_dir \<times> string) list" where
  "targets config_dir rt_dir profiles_dir system_dir =
     (case config_dir of Some d \<Rightarrow> [(HyprConfig, d)] | None \<Rightarrow> [])
     @ (case rt_dir of Some d \<Rightarrow> [(Runtime, d)] | None \<Rightarrow> [])
     @ [(UserProfiles, profiles_dir), (SystemProfiles, system_dir)]"

fun ensure_watches ::
  "(string \<Rightarrow> watch_result) \<Rightarrow> (watch_dir \<times> string) list \<Rightarrow> (nat \<times> watch_dir) list \<Rightarrow> (nat \<times> watch_dir) list" where
  "ensure_watches add [] wds = wds"
| "ensure_watches add ((dir, path) # ts) wds =
     (if dir \<in> snd ` set wds then ensure_watches add ts wds
      else case add path of
          Watched wd \<Rightarrow> ensure_watches add ts ((wd, dir) # filter (\<lambda>(w, _). w \<noteq> wd) wds)
        | _ \<Rightarrow> ensure_watches add ts wds)"

text \<open>One inotify event: the check it asks for and the watches left.\<close>

definition inotify_event ::
  "nat \<Rightarrow> mask_bit list \<Rightarrow> string option \<Rightarrow> (nat \<times> watch_dir) list \<Rightarrow> check \<times> (nat \<times> watch_dir) list" where
  "inotify_event wd bits name wds =
     (let dir = map_of wds wd;
          wds' = (if Ignored \<in> set bits then filter (\<lambda>(w, _). w \<noteq> wd) wds else wds)
      in (case dir of Some d \<Rightarrow> route d bits name | None \<Rightarrow> check_none, wds'))"

section \<open>Reading and reporting\<close>

record inputs =
  in_platform :: "string option"
  in_gpu :: "string option"
  in_power :: "string option"
  in_suspend :: bool
  in_profiles :: nat
  in_kbd_level :: "u8 option"
  in_kbd_override :: bool

definition read_kbd_level :: "filesystem \<Rightarrow> string \<Rightarrow> u8 option" where
  "read_kbd_level fs p = map_option clamp_level (Option.bind (read_first_word fs p) parse_i64)"

text \<open>\<open>send_platform\<close>: the values read while the kernel says the attribute moved again.\<close>

fun send_platform :: "string option list \<Rightarrow> string option \<Rightarrow> event list \<times> string option" where
  "send_platform [] prev = ([], prev)"
| "send_platform (cur # later) prev =
     (let (evs, prev') = send_platform later cur
      in (if cur \<noteq> prev then PlatformProfileChanged cur # evs else evs, prev'))"

definition report :: "bool \<Rightarrow> 'a \<Rightarrow> 'a \<Rightarrow> ('a \<Rightarrow> event) \<Rightarrow> event list" where
  "report asked cur prev ev = (if asked \<and> cur \<noteq> prev then [ev cur] else [])"

text \<open>One pass: the events in the order they are sent, and the new last report. \<open>platform\<close> is
  the sequence of platform values read.\<close>

definition file_pass :: "check \<Rightarrow> string option list \<Rightarrow> inputs \<Rightarrow> inputs \<Rightarrow> event list \<times> inputs" where
  "file_pass c platform cur prev =
     (let (p_evs, p_last) = (if ck_platform c then send_platform platform (in_platform prev)
                             else ([], in_platform prev))
      in (p_evs
          @ report (ck_gpu c) (in_gpu cur) (in_gpu prev) GpuOverrideChanged
          @ report (ck_power c) (in_power cur) (in_power prev) PowerOverrideChanged
          @ report (ck_suspend c) (in_suspend cur) (in_suspend prev)
              (\<lambda>b. SuspendRequestChanged (if b then Some ''idle'' else None))
          @ report (ck_profiles c) (in_profiles cur) (in_profiles prev) (\<lambda>_. ProfilesChanged)
          @ report (ck_kbd_level c) (in_kbd_level cur) (in_kbd_level prev) KbdLevelChanged
          @ report (ck_kbd_override c) (in_kbd_override cur) (in_kbd_override prev) KbdOverrideChanged,
          \<lparr>in_platform = p_last,
           in_gpu = (if ck_gpu c then in_gpu cur else in_gpu prev),
           in_power = (if ck_power c then in_power cur else in_power prev),
           in_suspend = (if ck_suspend c then in_suspend cur else in_suspend prev),
           in_profiles = (if ck_profiles c then in_profiles cur else in_profiles prev),
           in_kbd_level = (if ck_kbd_level c then in_kbd_level cur else in_kbd_level prev),
           in_kbd_override = (if ck_kbd_override c then in_kbd_override cur else in_kbd_override prev)\<rparr>))"

section \<open>The loop\<close>

text \<open>What wakes the task, and the part of its state that is not the last report: the watches,
  and whether the inotify stream and the platform watch still stand.\<close>

datatype wakeup =
    InotifyEv nat "mask_bit list" "string option"
  | StreamEnded
  | PlatformReady bool
  | Tick

record watching =
  wt_wds :: "(nat \<times> watch_dir) list"
  wt_stream :: bool
  wt_watches :: bool
  wt_platform :: bool

definition wake :: "wakeup \<Rightarrow> watching \<Rightarrow> check \<times> watching" where
  "wake w st = (case w of
       InotifyEv wd bits name \<Rightarrow>
         (let (c, wds) = inotify_event wd bits name (wt_wds st) in (c, st\<lparr>wt_wds := wds\<rparr>))
     | StreamEnded \<Rightarrow> (check_none, st\<lparr>wt_stream := False\<rparr>)
     | PlatformReady ok \<Rightarrow>
         (check_none\<lparr>ck_platform := True\<rparr>, if ok then st else st\<lparr>wt_platform := False\<rparr>)
     | Tick \<Rightarrow> (check_all, st))"

definition rewatch :: "(string \<Rightarrow> watch_result) \<Rightarrow> (watch_dir \<times> string) list \<Rightarrow> check \<Rightarrow> watching \<Rightarrow> watching" where
  "rewatch add ts c st =
     (if ck_rewatch c \<and> wt_watches st then st\<lparr>wt_wds := ensure_watches add ts (wt_wds st)\<rparr> else st)"

definition file_step ::
  "(string \<Rightarrow> watch_result) \<Rightarrow> (watch_dir \<times> string) list \<Rightarrow> wakeup \<Rightarrow> string option list \<Rightarrow> inputs
     \<Rightarrow> watching \<times> inputs \<Rightarrow> event list \<times> watching \<times> inputs" where
  "file_step add ts w platform cur s =
     (let (c, st) = wake w (fst s);
          (evs, prev) = file_pass c platform cur (snd s)
      in (evs, rewatch add ts c st, prev))"

section \<open>Facts\<close>

lemma report_same [simp]: "report asked x x ev = []"
  by (simp add: report_def)

text \<open>The platform reports are the values read with consecutive repetitions removed.\<close>

fun changes :: "'a \<Rightarrow> 'a list \<Rightarrow> 'a list" where
  "changes prev [] = []"
| "changes prev (x # xs) = (if x \<noteq> prev then x # changes x xs else changes x xs)"

lemma send_platform_changes:
  "send_platform ps prev = (map PlatformProfileChanged (changes prev ps), last (prev # ps))"
  by (induction ps arbitrary: prev) (simp_all add: Let_def)

text \<open>A second pass over the same readings reports nothing, whatever prompted it.\<close>

lemma file_pass_again:
  assumes "file_pass c [in_platform cur] cur prev = (evs, prev')"
    and "\<And>f. f \<in> {ck_gpu, ck_power, ck_suspend, ck_profiles, ck_platform, ck_kbd_level, ck_kbd_override}
           \<Longrightarrow> f c' \<Longrightarrow> f c"
  shows "fst (file_pass c' [in_platform cur] cur prev') = []"
proof -
  have p: "prev' = snd (file_pass c [in_platform cur] cur prev)" using assms(1) by simp
  show ?thesis
    using assms(2) [of ck_gpu] assms(2) [of ck_power] assms(2) [of ck_suspend]
      assms(2) [of ck_profiles] assms(2) [of ck_platform] assms(2) [of ck_kbd_level]
      assms(2) [of ck_kbd_override]
    unfolding p by (simp add: file_pass_def Let_def split_beta report_def)
qed

text \<open>After a tick the last report is what was read.\<close>

lemma tick_converges:
  "platform \<noteq> [] \<Longrightarrow> last platform = in_platform cur \<Longrightarrow>
     snd (snd (file_step add ts Tick platform cur s)) = cur"
  by (simp add: file_step_def wake_def file_pass_def check_all_def Let_def split_beta
      send_platform_changes)

text \<open>An overflow is routed to everything, but only under a descriptor that is held.\<close>

lemma overflow_routes_all: "QOverflow \<in> set bits \<Longrightarrow> route d bits name = check_all"
  by (simp add: route_def)

lemma overflow_unheld:
  "wd \<notin> fst ` set wds \<Longrightarrow> Ignored \<notin> set bits \<Longrightarrow> inotify_event wd bits name wds = (check_none, wds)"
  by (simp add: inotify_event_def map_of_eq_None_iff [THEN iffD2])

text \<open>What the daemon itself writes is routed to nothing.\<close>

lemma route_ignores:
  assumes "QOverflow \<notin> set bits" "Ignored \<notin> set bits"
    and "d = UserProfiles \<or> d = SystemProfiles \<Longrightarrow> extension n \<noteq> Some ''toml''"
    and "d = HyprConfig \<Longrightarrow> n \<notin> {GPU_OVERRIDE_NAME, POWER_OVERRIDE_NAME, KBD_LEVEL_NAME, PROFILES_DIR_NAME}"
    and "d = Runtime \<Longrightarrow> n \<notin> {SUSPEND_REQUEST_NAME, KBD_OVERRIDE_NAME}"
  shows "route d bits (Some n) = check_none"
  using assms by (cases d) (auto simp: route_def)

text \<open>A directory that is watched stays watched, and the table keeps one entry per descriptor.
  The kernel gives a descriptor of its own to every directory.\<close>

lemma ensure_watches_keeps:
  assumes "\<And>d p w. (d, p) \<in> set ts \<Longrightarrow> add p = Watched w \<Longrightarrow> (w, e) \<in> set wds \<Longrightarrow> False"
    and "e \<in> snd ` set wds"
  shows "e \<in> snd ` set (ensure_watches add ts wds)"
  using assms
proof (induction add ts wds rule: ensure_watches.induct)
  case (1 add wds)
  then show ?case by simp
next
  case (2 add dir path ts wds)
  from "2.prems"(2) obtain v where v: "(v, e) \<in> set wds" by auto
  show ?case
  proof (cases "dir \<in> snd ` set wds")
    case True
    have "e \<in> snd ` set (ensure_watches add ts wds)"
      by (rule "2.IH"(1) [OF True]) (use "2.prems" in auto)
    with True show ?thesis by simp
  next
    case False
    show ?thesis
    proof (cases "add path")
      case (Watched w)
      let ?wds = "(w, dir) # filter (\<lambda>(v, _). v \<noteq> w) wds"
      have "v \<noteq> w" using "2.prems"(1) [of dir path w] Watched v by auto
      then have e: "e \<in> snd ` set ?wds" using v by force
      have ne: "e \<noteq> dir" using False "2.prems"(2) by auto
      have "e \<in> snd ` set (ensure_watches add ts ?wds)"
      proof (rule "2.IH"(2) [OF False Watched _ e])
        fix d p u
        assume "(d, p) \<in> set ts" "add p = Watched u" "(u, e) \<in> set ?wds"
        then show False using "2.prems"(1) [of d p u] ne by auto
      qed
      with False Watched show ?thesis by simp
    next
      case WatchAbsent
      have "e \<in> snd ` set (ensure_watches add ts wds)"
        by (rule "2.IH"(3) [OF False]) (use WatchAbsent "2.prems" in auto)
      with False WatchAbsent show ?thesis by simp
    next
      case WatchError
      have "e \<in> snd ` set (ensure_watches add ts wds)"
        by (rule "2.IH"(4) [OF False]) (use WatchError "2.prems" in auto)
      with False WatchError show ?thesis by simp
    qed
  qed
qed

lemma filter_drops_key [simp]: "w \<notin> fst ` {x \<in> set wds. case x of (v, _) \<Rightarrow> v \<noteq> w}"
  by auto

lemma ensure_watches_distinct:
  "distinct (map fst wds) \<Longrightarrow> distinct (map fst (ensure_watches add ts wds))"
  by (induction add ts wds rule: ensure_watches.induct)
    (auto simp: distinct_map_filter split: watch_result.split)

section \<open>Properties\<close>

text \<open>The safety tick repairs everything: after it the task's last report is what the files held,
  and no wake-up of any kind that finds the files unchanged reports anything, so every change is
  reported exactly once.\<close>
lemma tick_repairs_and_is_quiet:
  "snd (snd (file_step add ts Tick [in_platform cur] cur s)) = cur
   \<and> fst (file_step add ts w [in_platform cur] cur (st, cur)) = []"
  using tick_converges [of "[in_platform cur]" cur add ts s]
  by (simp add: file_step_def file_pass_def Let_def split_beta report_def)

text \<open>A queue overflow is lost: the kernel reports it under a descriptor that is no watch, so
  although routing an overflow would re-read everything, the task reads nothing, reports nothing
  and forgets nothing, and the missed changes wait for the safety tick.\<close>
lemma overflow_is_lost:
  assumes "QOverflow \<in> set bits" "Ignored \<notin> set bits" and "wd \<notin> fst ` set (wt_wds st)"
  shows "file_step add ts (InotifyEv wd bits name) platform cur (st, prev) = ([], st, prev)
     \<and> (\<forall>d. route d bits name = check_all)"
  using assms overflow_unheld [OF assms(3,2), of name]
  by (simp add: file_step_def wake_def rewatch_def file_pass_def check_none_def report_def Let_def
      overflow_routes_all)

lemma overflow_is_lost_witness:
  "file_step (\<lambda>_. WatchAbsent) [] (InotifyEv 99 [QOverflow] None) [None]
     \<lparr>in_platform = None, in_gpu = Some ''dgpu'', in_power = None, in_suspend = True, in_profiles = 0,
       in_kbd_level = None, in_kbd_override = False\<rparr>
     (\<lparr>wt_wds = [(1, HyprConfig)], wt_stream = True, wt_watches = True, wt_platform = False\<rparr>,
      \<lparr>in_platform = None, in_gpu = None, in_power = None, in_suspend = False, in_profiles = 0,
       in_kbd_level = None, in_kbd_override = False\<rparr>)
   = ([], \<lparr>wt_wds = [(1, HyprConfig)], wt_stream = True, wt_watches = True, wt_platform = False\<rparr>,
      \<lparr>in_platform = None, in_gpu = None, in_power = None, in_suspend = False, in_profiles = 0,
       in_kbd_level = None, in_kbd_override = False\<rparr>)"
  by (rule overflow_is_lost [THEN conjunct1]) simp_all

end
