(* ===== verification/ProfileStore.thy ===== *)
theory ProfileStore
  imports FileState
begin

text \<open>
  The profile directory: \<open>src/sysio/profiles.rs\<close> (loading, merging, the atomic writer and the
  active link) and the \<open>profile\<close> commands of \<open>src/cli/profile.rs\<close>. The crate
  \<open>monitor_profiles\<close> parses, renders, serialises and resolves; what it returns is an argument.
  A directory is a map from file names to contents.
\<close>

section \<open>File names\<close>

type_synonym directory = "string \<Rightarrow> string option"

definition file_stem :: "string \<Rightarrow> string" where
  "file_stem n = (case extension n of
      None \<Rightarrow> n
    | Some e \<Rightarrow> take (length n - length e - 1) n)"

definition with_extension :: "string \<Rightarrow> string \<Rightarrow> string" where
  "with_extension n e = file_stem n @ ''.'' @ e"

definition is_legacy_render :: "string \<Rightarrow> bool" where
  "is_legacy_render n = (extension n = Some ''conf'' \<or> extension n = Some ''lua'')"

section \<open>Loading\<close>

text \<open>A directory's profiles, and the names whose Lua render is (re)written.\<close>

definition load_profiles_from :: "'p monitor_profile list \<Rightarrow> 'p monitor_profile list \<times> string list" where
  "load_profiles_from toml_profiles =
     (if toml_profiles = [] then ([], []) else (toml_profiles, map mp_name toml_profiles))"

fun merge_system ::
  "'p monitor_profile list \<Rightarrow> 'p monitor_profile list \<times> string list \<Rightarrow> 'p monitor_profile list \<times> string list" where
  "merge_system [] acc = acc"
| "merge_system (p # ps) (profiles, rendered) =
     (if mp_name p \<in> mp_name ` set profiles then merge_system ps (profiles, rendered)
      else merge_system ps (profiles @ [p], rendered @ [mp_name p]))"

definition load_profiles_merged ::
  "'p monitor_profile list \<Rightarrow> 'p monitor_profile list \<Rightarrow> 'p monitor_profile list \<times> string list" where
  "load_profiles_merged user system = merge_system system (load_profiles_from user)"

definition dir_has_legacy :: "(string \<times> string) list \<Rightarrow> bool" where
  "dir_has_legacy entries = (\<exists>(n, text) \<in> set entries.
     is_legacy_render n \<and> \<not> starts_with ''.'' n \<and> \<not> str_contains ''Do not edit'' text)"

section \<open>Writing\<close>

text \<open>\<open>write_if_changed_atomic\<close>: whether it succeeded, whether a file was written.\<close>

definition write_if_changed_atomic ::
  "bool \<Rightarrow> string \<Rightarrow> string \<Rightarrow> directory \<Rightarrow> bool \<times> bool \<times> directory" where
  "write_if_changed_atomic io name content d =
     (if d name = Some content then (True, False, d)
      else if io then (True, True, d(name \<mapsto> content))
      else (False, False, d))"

definition repoint_active_profile :: "bool \<Rightarrow> string \<Rightarrow> string option \<Rightarrow> bool \<times> string option" where
  "repoint_active_profile io target link =
     (if extension target \<noteq> Some ''lua'' then (False, link)
      else if io then (True, Some target) else (False, link))"

section \<open>Legacy files\<close>

definition legacy_candidate :: "string option \<Rightarrow> string \<Rightarrow> bool" where
  "legacy_candidate only n =
     (is_legacy_render n \<and> \<not> starts_with ''.'' n
      \<and> (case only of None \<Rightarrow> True | Some wanted \<Rightarrow> file_stem n = wanted))"

text \<open>\<open>Vec::dedup_by\<close>: each element is compared with the last one kept, which the closure may
  replace.\<close>

fun dedup_stems :: "string list \<Rightarrow> string list" where
  "dedup_stems [] = []"
| "dedup_stems [b] = [b]"
| "dedup_stems (b # a # fs) =
     (if file_stem a = file_stem b
      then dedup_stems ((if extension a = Some ''lua'' then a else b) # fs)
      else b # dedup_stems (a # fs))"

definition legacy_files :: "string option \<Rightarrow> string list \<Rightarrow> string list" where
  "legacy_files only entries = dedup_stems (sort (filter (legacy_candidate only) entries))"

section \<open>Comparing\<close>

record output_layout =
  ol_selector :: string
  ol_mode :: string
  ol_position :: "int \<times> int"
  ol_scale :: f64
  ol_transform :: nat
  ol_enabled :: bool

record full_profile =
  fp_name :: string
  fp_matches :: "string list"
  fp_edp :: edp_policy
  fp_gpu :: gpu_pref
  fp_priority :: int
  fp_hooks :: "string list"
  fp_workspaces :: "string list"

text \<open>A difference is the label and the field. \<open>PartialEq\<close> of \<open>f64\<close> is not reflexive: a scale that is
  not a number differs from itself.\<close>

definition difference :: "string \<Rightarrow> string \<Rightarrow> bool \<Rightarrow> (string \<times> string) list" where
  "difference label field same = (if \<not> same then [(label, field)] else [])"

definition f64_eq :: "f64 \<Rightarrow> f64 \<Rightarrow> bool" where
  "f64_eq a b = (f64_le a b \<and> f64_le b a)"

definition compare_output :: "string \<Rightarrow> output_layout \<times> output_layout \<Rightarrow> (string \<times> string) list" where
  "compare_output profile_name ab = (case ab of (a, b) \<Rightarrow>
     let label = profile_name @ ''.'' @ ol_selector a in
     difference label ''selector'' (ol_selector a = ol_selector b)
     @ difference label ''mode'' (ol_mode a = ol_mode b)
     @ difference label ''position'' (ol_position a = ol_position b)
     @ difference label ''scale'' (f64_eq (ol_scale a) (ol_scale b))
     @ difference label ''transform'' (ol_transform a = ol_transform b)
     @ difference label ''enabled'' (ol_enabled a = ol_enabled b))"

definition compare_layouts ::
  "string \<Rightarrow> output_layout list \<Rightarrow> output_layout list \<Rightarrow> (string \<times> string) list" where
  "compare_layouts profile_name legacy toml =
     difference profile_name ''output-count'' (length legacy = length toml)
     @ concat (map (compare_output profile_name) (zip legacy toml))"

text \<open>\<open>all\<close> is the layout with every output, \<open>live\<close> the one for what is connected, if asked.\<close>

definition verify_profiles ::
  "full_profile \<Rightarrow> full_profile \<Rightarrow> output_layout list \<times> output_layout list
     \<Rightarrow> (output_layout list \<times> output_layout list) option \<Rightarrow> (string \<times> string) list" where
  "verify_profiles legacy toml all live =
     (let label = fp_name legacy in
      difference label ''matches'' (fp_matches legacy = fp_matches toml)
      @ difference label ''edp'' (fp_edp legacy = fp_edp toml)
      @ difference label ''gpu'' (fp_gpu legacy = fp_gpu toml)
      @ difference label ''priority'' (fp_priority legacy = fp_priority toml)
      @ difference label ''hooks'' (fp_hooks legacy = fp_hooks toml)
      @ difference label ''workspaces'' (fp_workspaces legacy = fp_workspaces toml)
      @ compare_layouts label (fst all) (snd all)
      @ (case live of None \<Rightarrow> [] | Some (a, b) \<Rightarrow> compare_layouts label a b))"

section \<open>Commands\<close>

definition valid_profile_name :: "string \<Rightarrow> bool" where
  "valid_profile_name n =
     (n \<noteq> [] \<and> \<not> starts_with ''.'' n
      \<and> list_all (\<lambda>c. is_ascii_digit c \<or> is_ascii_lowercase c
           \<or> (CHR ''A'' \<le> c \<and> c \<le> CHR ''Z'') \<or> c \<in> {CHR ''-'', CHR ''_'', CHR ''.''}) n)"

text \<open>\<open>migrate\<close>, up to its verification: the exit code, how many were converted, what was
  written. \<open>parse\<close> is \<open>legacy::to_profile\<close>: the number of monitors and the serialised TOML.\<close>

fun migrate_files ::
  "(string \<Rightarrow> string \<Rightarrow> (nat \<times> string) option) \<Rightarrow> (string \<Rightarrow> bool) \<Rightarrow> bool \<Rightarrow> bool
     \<Rightarrow> string list \<Rightarrow> nat \<Rightarrow> directory \<Rightarrow> int \<times> nat \<times> directory" where
  "migrate_files parse io force dry_run [] converted d = (0, converted, d)"
| "migrate_files parse io force dry_run (f # fs) converted d =
     (let target = with_extension f ''toml'' in
      if d target \<noteq> None \<and> \<not> force then migrate_files parse io force dry_run fs converted d
      else case d f of
          None \<Rightarrow> (1, converted, d)
        | Some text \<Rightarrow>
            (case parse (file_stem f) text of
               None \<Rightarrow> (1, converted, d)
             | Some (monitors, toml) \<Rightarrow>
                 if monitors = 0 then (1, converted, d)
                 else if dry_run then migrate_files parse io force dry_run fs (Suc converted) d
                 else let (done', _, d') = write_if_changed_atomic (io target) target toml d in
                   if done' then migrate_files parse io force dry_run fs (Suc converted) d'
                   else (1, converted, d')))"

definition migrate ::
  "(string \<Rightarrow> string \<Rightarrow> (nat \<times> string) option) \<Rightarrow> (string \<Rightarrow> bool) \<Rightarrow> bool \<Rightarrow> bool
     \<Rightarrow> string option \<Rightarrow> string list \<Rightarrow> directory \<Rightarrow> int \<times> nat \<times> directory" where
  "migrate parse io force dry_run only entries d =
     migrate_files parse io force dry_run (legacy_files only entries) 0 d"

section \<open>Facts\<close>

lemma merge_system_names:
  "mp_name ` set (fst (merge_system ps (profiles, rendered))) = mp_name ` set profiles \<union> mp_name ` set ps"
  by (induction ps "(profiles, rendered)" arbitrary: profiles rendered rule: merge_system.induct) auto

lemma merge_system_distinct:
  "distinct (map mp_name profiles) \<Longrightarrow> distinct (map mp_name (fst (merge_system ps (profiles, rendered))))"
  by (induction ps "(profiles, rendered)" arbitrary: profiles rendered rule: merge_system.induct) auto

lemma merge_system_extends:
  "\<exists>qs. fst (merge_system ps (profiles, rendered)) = profiles @ qs \<and> set qs \<subseteq> set ps
     \<and> snd (merge_system ps (profiles, rendered)) = rendered @ map mp_name qs
     \<and> (\<forall>q \<in> set qs. mp_name q \<notin> mp_name ` set profiles)"
proof (induction ps "(profiles, rendered)" arbitrary: profiles rendered rule: merge_system.induct)
  case (1 profiles rendered)
  then show ?case by simp
next
  case (2 p ps profiles rendered)
  show ?case
  proof (cases "mp_name p \<in> mp_name ` set profiles")
    case True
    with 2(1) show ?thesis by fastforce
  next
    case False
    from 2(2) [OF False] obtain qs where "fst (merge_system ps (profiles @ [p], rendered @ [mp_name p])) = (profiles @ [p]) @ qs"
      "set qs \<subseteq> set ps" "snd (merge_system ps (profiles @ [p], rendered @ [mp_name p])) = (rendered @ [mp_name p]) @ map mp_name qs"
      "\<forall>q \<in> set qs. mp_name q \<notin> mp_name ` set (profiles @ [p])" by blast
    with False show ?thesis by (intro exI [of _ "p # qs"]) auto
  qed
qed

lemma difference_nil [simp]: "difference l f same = [] \<longleftrightarrow> same"
  by (simp add: difference_def)

lemma f64_eq_iff: "f64_eq a b \<longleftrightarrow> a = b \<and> a \<noteq> NaN"
  by (cases a; cases b) (auto simp: f64_eq_def)

lemma compare_output_nil: "compare_output n (a, b) = [] \<longleftrightarrow> a = b \<and> ol_scale a \<noteq> NaN"
  by (auto simp: compare_output_def Let_def f64_eq_iff intro: output_layout.equality)

lemma compare_layouts_nil:
  "compare_layouts n as bs = [] \<longleftrightarrow> as = bs \<and> (\<forall>a \<in> set as. ol_scale a \<noteq> NaN)"
proof -
  have "length as = length bs \<Longrightarrow> concat (map (compare_output n) (zip as bs)) = []
      \<longleftrightarrow> as = bs \<and> (\<forall>a \<in> set as. ol_scale a \<noteq> NaN)"
    by (induction as bs rule: list_induct2) (auto simp: compare_output_nil)
  then show ?thesis by (auto simp: compare_layouts_def)
qed

text \<open>Legacy files: a stem survives, and where the duplicates of a stem stand together the Lua file
  is the one that survives.\<close>

lemma dedup_stems_subset: "set (dedup_stems fs) \<subseteq> set fs"
  by (induction fs rule: dedup_stems.induct) (simp, simp, fastforce split: if_splits)

lemma dedup_stems_stems: "file_stem ` set (dedup_stems fs) = file_stem ` set fs"
  by (induction fs rule: dedup_stems.induct) auto

section \<open>Properties\<close>

text \<open>Loading merges the two directories so that no name is lost, none is doubled and the user's
  profile wins: the result is the user's profiles followed by those of the system whose names the
  user does not have, and every profile in it has its Lua render written.\<close>
lemma merged_profiles_user_first:
  assumes "distinct (map mp_name user)"
  shows "distinct (map mp_name (fst (load_profiles_merged user system)))
     \<and> mp_name ` set (fst (load_profiles_merged user system)) = mp_name ` set user \<union> mp_name ` set system
     \<and> (\<exists>added. fst (load_profiles_merged user system) = user @ added \<and> set added \<subseteq> set system
          \<and> (\<forall>q \<in> set added. mp_name q \<notin> mp_name ` set user))
     \<and> snd (load_profiles_merged user system) = map mp_name (fst (load_profiles_merged user system))"
proof -
  have u: "load_profiles_from user = (user, map mp_name user)" by (simp add: load_profiles_from_def)
  show ?thesis
    using merge_system_distinct [OF assms, of system "map mp_name user"]
      merge_system_names [of system user "map mp_name user"]
      merge_system_extends [of system user "map mp_name user"]
    by (auto simp: load_profiles_merged_def u)
qed

lemma merged_profiles_user_first_witness:
  "let mk = (\<lambda>n g. \<lparr>mp_name = n, mp_edp = edp_policy.Auto, mp_gpu = g, mp_hooks = [], mp_rest = ()\<rparr>) in
   fst (load_profiles_merged [mk ''desk'' gpu_pref.Dgpu] [mk ''desk'' gpu_pref.Auto, mk ''hall'' gpu_pref.Auto])
     = [mk ''desk'' gpu_pref.Dgpu, mk ''hall'' gpu_pref.Auto]"
proof -
  let ?mk = "\<lambda>n g. \<lparr>mp_name = n, mp_edp = edp_policy.Auto, mp_gpu = g, mp_hooks = [], mp_rest = ()\<rparr>"
  show ?thesis
    using merged_profiles_user_first [of "[?mk ''desk'' gpu_pref.Dgpu]" "[?mk ''desk'' gpu_pref.Auto, ?mk ''hall'' gpu_pref.Auto]"]
    by (simp add: load_profiles_merged_def load_profiles_from_def)
qed

text \<open>The verifier accepts exactly when the two profiles agree in every field and both layouts are
  the same without a scale that is not a number: an empty list of differences is a proof of
  equality, and nothing else passes.\<close>
lemma verify_is_equality:
  "verify_profiles legacy toml (a, b) live = [] \<longleftrightarrow>
     fp_matches legacy = fp_matches toml \<and> fp_edp legacy = fp_edp toml \<and> fp_gpu legacy = fp_gpu toml
     \<and> fp_priority legacy = fp_priority toml \<and> fp_hooks legacy = fp_hooks toml
     \<and> fp_workspaces legacy = fp_workspaces toml
     \<and> a = b \<and> (\<forall>o' \<in> set a. ol_scale o' \<noteq> NaN)
     \<and> (case live of None \<Rightarrow> True | Some (c, d) \<Rightarrow> c = d \<and> (\<forall>o' \<in> set c. ol_scale o' \<noteq> NaN))"
  by (auto simp: verify_profiles_def Let_def compare_layouts_nil split: option.split prod.split)

definition demo_layout :: "output_layout list" where
  "demo_layout = [\<lparr>ol_selector = ''DP-1'', ol_mode = ''1920x1080'', ol_position = (0, 0), ol_scale = Finite 1,
     ol_transform = 0, ol_enabled = True\<rparr>]"

definition demo_profile :: full_profile where
  "demo_profile = \<lparr>fp_name = ''desk'', fp_matches = [''desc:Dell''], fp_edp = edp_policy.Auto,
     fp_gpu = gpu_pref.Auto, fp_priority = 0, fp_hooks = [], fp_workspaces = []\<rparr>"

lemma verify_is_equality_witness:
  "verify_profiles demo_profile demo_profile (demo_layout, demo_layout) None = []
   \<and> verify_profiles demo_profile (demo_profile\<lparr>fp_gpu := gpu_pref.Dgpu\<rparr>) (demo_layout, demo_layout) None \<noteq> []"
  using verify_is_equality [of demo_profile demo_profile demo_layout demo_layout None]
    verify_is_equality [of demo_profile "demo_profile\<lparr>fp_gpu := gpu_pref.Dgpu\<rparr>" demo_layout demo_layout None]
  by (simp add: demo_layout_def demo_profile_def)

text \<open>Choosing the legacy files keeps a file for every stem, but not one file per stem: with a
  file between the two of one stem in the sorted list both survive, the \<open>.conf\<close> before the \<open>.lua\<close>.\<close>
lemma legacy_files_keep_stems_not_unique:
  "file_stem ` set (legacy_files only entries) = file_stem ` {n \<in> set entries. legacy_candidate only n}
   \<and> legacy_files None [''desk.lua'', ''desk.conf'', ''desk.d.lua''] = [''desk.conf'', ''desk.d.lua'', ''desk.lua'']"
proof
  show "file_stem ` set (legacy_files only entries) = file_stem ` {n \<in> set entries. legacy_candidate only n}"
    by (simp add: legacy_files_def dedup_stems_stems)
  show "legacy_files None [''desk.lua'', ''desk.conf'', ''desk.d.lua''] = [''desk.conf'', ''desk.d.lua'', ''desk.lua'']"
    by code_simp
qed

end
