(* ===== verification/SleepHook.thy ===== *)
theory SleepHook
  imports Prelude
begin

text \<open>
  The system-sleep hook, \<open>src/sleep_hook.rs\<close>: the wakeup attributes it enables on the USB
  devices it tracks, and the bounded rebind of the touchpad after a resume. The log is a value;
  what the kernel makes of each write is an argument.
\<close>

section \<open>Devices\<close>

record usb_device =
  ud_name :: string
  ud_product :: "string option"
  ud_id_vendor :: "string option"
  ud_id_product :: "string option"
  ud_wakeup :: "string option"
  ud_writable :: bool

definition WAKE_USB_VENDORS :: "((string \<times> string) \<times> string) list" where
  "WAKE_USB_VENDORS =
     [((''3297'', ''1977''), ''ZSA Voyager (keyboard)''),
      ((''046d'', ''c539''), ''Logitech Lightspeed (mouse receiver)'')]"

datatype hook_line =
    Banner string
  | WriteFailed string
  | Controller bool
  | RootHubs nat nat
  | IntermediateHubs nat
  | InputDevice string bool
  | TouchpadAbsent
  | UnbindFailed
  | RebindOk nat
  | AttemptFailed nat bool
  | StillBound
  | LeftUnbound
  | Complete string

definition write_enabled :: "usb_device \<Rightarrow> bool \<times> hook_line list \<times> usb_device" where
  "write_enabled d =
     (if ud_writable d then (True, [], d\<lparr>ud_wakeup := Some ''enabled''\<rparr>)
      else (False, [WriteFailed (ud_name d)], d))"

section \<open>The passes over the bus\<close>

text \<open>One pass writes the devices it selects that have a wakeup attribute, and says for each
  whether that worked.\<close>

fun wake_pass :: "(usb_device \<Rightarrow> bool) \<Rightarrow> usb_device list \<Rightarrow> (string \<times> bool) list \<times> hook_line list \<times> usb_device list" where
  "wake_pass sel [] = ([], [], [])"
| "wake_pass sel (d # ds) =
     (let (oks, ls, ds') = wake_pass sel ds in
      if sel d \<and> ud_wakeup d \<noteq> None
      then (let (ok, l, d') = write_enabled d in ((ud_name d, ok) # oks, l @ ls, d' # ds'))
      else (oks, ls, d # ds'))"

definition is_root_hub :: "usb_device \<Rightarrow> bool" where
  "is_root_hub d = starts_with ''usb'' (ud_name d)"

definition is_hub :: "usb_device \<Rightarrow> bool" where
  "is_hub d = (case ud_product d of None \<Rightarrow> False | Some p \<Rightarrow> str_contains ''Hub'' p)"

definition input_name :: "usb_device \<Rightarrow> string option" where
  "input_name d = (case (ud_id_vendor d, ud_id_product d) of
       (Some v, Some p) \<Rightarrow> map_of WAKE_USB_VENDORS (trim v, trim p)
     | _ \<Rightarrow> None)"

fun input_pass :: "usb_device list \<Rightarrow> hook_line list \<times> usb_device list" where
  "input_pass [] = ([], [])"
| "input_pass (d # ds) =
     (let (ls, ds') = input_pass ds in
      case input_name d of
        None \<Rightarrow> (ls, d # ds')
      | Some name \<Rightarrow>
          if ud_wakeup d = None then (ls, d # ds')
          else (let (ok, l, d') = write_enabled d in (l @ InputDevice name ok # ls, d' # ds')))"

definition count_ok :: "(string \<times> bool) list \<Rightarrow> nat" where
  "count_ok oks = length (filter snd oks)"

section \<open>The touchpad\<close>

definition REBIND_ATTEMPTS :: nat where "REBIND_ATTEMPTS = 4"

text \<open>What the kernel does with one attempt: whether each write succeeds, and whether the bound
  link stands after it.\<close>

record kernel_attempt =
  ka_unbind :: bool
  ka_bound_after_unbind :: bool
  ka_bind :: bool
  ka_bound_after_bind :: bool

text \<open>The attempts from number \<open>k\<close> on, \<open>n\<close> of them left: the log and whether the device is bound
  at the end.\<close>

fun rebind_from :: "(nat \<Rightarrow> kernel_attempt) \<Rightarrow> nat \<Rightarrow> nat \<Rightarrow> bool \<Rightarrow> hook_line list \<times> bool" where
  "rebind_from kern k 0 bound = ([if bound then StillBound else LeftUnbound], bound)"
| "rebind_from kern k (Suc n) bound =
     (let a = kern k;
          unbind_lines = (if bound \<and> \<not> ka_unbind a then [UnbindFailed] else []);
          bound' = ka_bound_after_bind a
      in if ka_bind a \<and> bound' then (unbind_lines @ [RebindOk k], bound')
         else (let (ls, final) = rebind_from kern (Suc k) n bound'
               in (unbind_lines @ AttemptFailed k (ka_bind a) # ls, final)))"

definition rebind_touchpad :: "(nat \<Rightarrow> kernel_attempt) \<Rightarrow> bool \<Rightarrow> bool \<Rightarrow> hook_line list \<times> bool" where
  "rebind_touchpad kern present bound =
     (if \<not> present then ([TouchpadAbsent], bound) else rebind_from kern 1 REBIND_ATTEMPTS bound)"

section \<open>The hook\<close>

record bus =
  bus_controller :: "usb_device option"
  bus_devices :: "usb_device list"
  bus_touchpad :: bool
  bus_bound :: bool

definition run_hook :: "string \<Rightarrow> (nat \<Rightarrow> kernel_attempt) \<Rightarrow> bus \<Rightarrow> hook_line list \<times> bus" where
  "run_hook action kern b =
     (if action \<noteq> ''pre'' \<and> action \<noteq> ''post'' then ([], b)
      else
        let label = (if action = ''pre'' then ''PRE-SUSPEND'' else ''POST-RESUME'');
            (c_lines, ctrl) = (case bus_controller b of
                None \<Rightarrow> ([], None)
              | Some c \<Rightarrow> let (ok, l, c') = write_enabled c in (l @ [Controller ok], Some c'));
            (hubs, h_lines, ds) = wake_pass is_root_hub (bus_devices b);
            (inter, i_lines, ds) = wake_pass is_hub ds;
            (d_lines, ds) = input_pass ds;
            (t_lines, bound) = (if action = ''post'' then rebind_touchpad kern (bus_touchpad b) (bus_bound b)
                                else ([], bus_bound b))
        in (Banner label # c_lines @ h_lines @ RootHubs (count_ok hubs) (length hubs)
              # i_lines @ IntermediateHubs (count_ok inter) # d_lines @ t_lines @ [Complete label],
            b\<lparr>bus_controller := ctrl, bus_devices := ds, bus_bound := bound\<rparr>))"

section \<open>Facts\<close>

text \<open>What the three passes together do to a device.\<close>

definition tracked :: "usb_device \<Rightarrow> bool" where
  "tracked d \<longleftrightarrow> is_root_hub d \<or> is_hub d \<or> input_name d \<noteq> None"

definition woken :: "(usb_device \<Rightarrow> bool) \<Rightarrow> usb_device \<Rightarrow> usb_device" where
  "woken sel d = (if sel d \<and> ud_wakeup d \<noteq> None \<and> ud_writable d
     then d\<lparr>ud_wakeup := Some ''enabled''\<rparr> else d)"

lemma wake_pass_woken: "snd (snd (wake_pass sel ds)) = map (woken sel) ds"
  by (induction ds) (auto simp: Let_def split_beta woken_def write_enabled_def)

lemma input_pass_woken: "snd (input_pass ds) = map (woken (\<lambda>d. input_name d \<noteq> None)) ds"
  by (induction ds) (auto simp: Let_def split_beta woken_def write_enabled_def split: option.split)

lemma wake_pass_counts:
  "map fst (fst (wake_pass sel ds)) = map ud_name (filter (\<lambda>d. sel d \<and> ud_wakeup d \<noteq> None) ds)"
  "count_ok (fst (wake_pass sel ds)) = length (filter (\<lambda>d. sel d \<and> ud_wakeup d \<noteq> None \<and> ud_writable d) ds)"
  by (induction ds) (auto simp: Let_def split_beta write_enabled_def count_ok_def)

lemma selectors_woken [simp]:
  "is_root_hub (woken sel d) = is_root_hub d" "is_hub (woken sel d) = is_hub d"
  "input_name (woken sel d) = input_name d" "ud_writable (woken sel d) = ud_writable d"
  "ud_wakeup (woken sel d) = None \<longleftrightarrow> ud_wakeup d = None"
  by (simp_all add: woken_def is_root_hub_def is_hub_def input_name_def split: option.split)

lemma woken_passes:
  "woken (\<lambda>d. input_name d \<noteq> None) (woken is_hub (woken is_root_hub d)) = woken tracked d"
  by (auto simp: woken_def tracked_def is_root_hub_def is_hub_def input_name_def)

lemma run_hook_devices:
  "action = ''pre'' \<or> action = ''post'' \<Longrightarrow>
     bus_devices (snd (run_hook action kern b)) = map (woken tracked) (bus_devices b)"
  by (auto simp: run_hook_def Let_def split_beta wake_pass_woken input_pass_woken
      woken_passes [simplified])

text \<open>The rebind: it stops at the first attempt that binds, tries every attempt up to there, and
  its last line tells the truth.\<close>

definition binds :: "kernel_attempt \<Rightarrow> bool" where
  "binds a \<longleftrightarrow> ka_bind a \<and> ka_bound_after_bind a"

lemma rebind_succeeds:
  "i < n \<Longrightarrow> binds (kern (k + i)) \<Longrightarrow> (\<forall>j < i. \<not> binds (kern (k + j)))
     \<Longrightarrow> snd (rebind_from kern k n bound) \<and> last (fst (rebind_from kern k n bound)) = RebindOk (k + i)"
proof (induction n arbitrary: k i bound)
  case 0
  then show ?case by simp
next
  case (Suc n)
  show ?case
  proof (cases i)
    case 0
    with Suc.prems show ?thesis by (auto simp: Let_def binds_def)
  next
    case (Suc m)
    have f: "\<not> binds (kern k)" using Suc.prems(3) Suc by force
    have "snd (rebind_from kern (Suc k) n b) \<and> last (fst (rebind_from kern (Suc k) n b)) = RebindOk (Suc k + m)" for b
      using Suc.prems Suc by (intro Suc.IH) auto
    moreover have "fst (rebind_from kern (Suc k) n b) \<noteq> []" for b
      by (cases n) (auto simp: Let_def split_beta)
    ultimately show ?thesis
      using f Suc by (auto simp: Let_def split_beta binds_def)
  qed
qed

lemma rebind_fails:
  "(\<forall>j < n. \<not> binds (kern (k + j))) \<Longrightarrow>
     last (fst (rebind_from kern k n bound)) = (if snd (rebind_from kern k n bound) then StillBound else LeftUnbound)"
proof (induction n arbitrary: k bound)
  case 0
  then show ?case by simp
next
  case (Suc n)
  have f: "\<not> binds (kern k)" using Suc.prems by force
  have "last (fst (rebind_from kern (Suc k) n b)) = (if snd (rebind_from kern (Suc k) n b) then StillBound else LeftUnbound)" for b
    using Suc.prems by (intro Suc.IH) (metis Suc_less_eq add_Suc_shift)
  moreover have "fst (rebind_from kern (Suc k) n b) \<noteq> []" for b
    by (cases n) (auto simp: Let_def split_beta)
  ultimately show ?case using f by (auto simp: Let_def split_beta binds_def)
qed

section \<open>Properties\<close>

text \<open>C31: The hook enables wake-up on exactly the devices it tracks (root hubs, hubs, the known input
  devices) that have a writable attribute, and leaves every other device alone; before a suspend
  it leaves the touchpad bound as it was, and after a resume the touchpad is bound again as soon
  as any of the four attempts binds it.\<close>
theorem hook_wakes_and_rebinds:
  assumes "action = ''pre'' \<or> action = ''post''"
  shows "bus_devices (snd (run_hook action kern b)) = map (woken tracked) (bus_devices b)
     \<and> (action = ''pre'' \<longrightarrow> bus_bound (snd (run_hook action kern b)) = bus_bound b)
     \<and> (action = ''post'' \<and> bus_touchpad b \<and> (\<exists>i < REBIND_ATTEMPTS. binds (kern (1 + i)))
          \<longrightarrow> bus_bound (snd (run_hook action kern b)))"
proof -
  have "snd (rebind_from kern 1 REBIND_ATTEMPTS bound)"
    if ex: "\<exists>i < REBIND_ATTEMPTS. binds (kern (1 + i))" for bound
  proof -
    define i where "i = (LEAST i. i < REBIND_ATTEMPTS \<and> binds (kern (1 + i)))"
    have "i < REBIND_ATTEMPTS \<and> binds (kern (1 + i))" unfolding i_def using ex by (rule LeastI_ex)
    moreover have "\<forall>j < i. \<not> binds (kern (1 + j))"
      using calculation not_less_Least [of _ "\<lambda>i. i < REBIND_ATTEMPTS \<and> binds (kern (1 + i))"]
      unfolding i_def by (meson order.strict_trans)
    ultimately show ?thesis using rebind_succeeds [of i REBIND_ATTEMPTS kern 1 bound] by blast
  qed
  then show ?thesis
    using assms run_hook_devices [OF assms]
    by (auto simp: run_hook_def rebind_touchpad_def Let_def split_beta)
qed

definition demo_bus :: bus where
  "demo_bus = \<lparr>bus_controller = None,
     bus_devices = [\<lparr>ud_name = ''usb1'', ud_product = None, ud_id_vendor = None, ud_id_product = None,
       ud_wakeup = Some ''disabled'', ud_writable = True\<rparr>],
     bus_touchpad = True, bus_bound = True\<rparr>"

theorem hook_wakes_and_rebinds_witness:
  "bus_bound (snd (run_hook ''post'' (\<lambda>k. \<lparr>ka_unbind = True, ka_bound_after_unbind = False,
     ka_bind = (k = 3), ka_bound_after_bind = (k = 3)\<rparr>) demo_bus))"
  using hook_wakes_and_rebinds [of "''post''" "\<lambda>k. \<lparr>ka_unbind = True, ka_bound_after_unbind = False,
     ka_bind = (k = 3), ka_bound_after_bind = (k = 3)\<rparr>" demo_bus]
  by (auto simp: binds_def demo_bus_def REBIND_ATTEMPTS_def)

end
