(* ===== verification/Cli.thy ===== *)
theory Cli
  imports KbdPolicy Profiles FileState
begin

text \<open>
  The user's commands that feed the daemon: \<open>src/cli/suspend.rs\<close>, \<open>src/cli/power.rs\<close>,
  \<open>src/cli/kbd.rs\<close>, \<open>src/cli/gpu.rs\<close> and the state file of \<open>src/sysio/gpu_state.rs\<close>. A command
  is a function from the files it touches to its exit code, the lines of its standard output and
  the files it leaves; what goes to standard error is left out. Whether a write or a removal
  succeeds is an argument, and one that fails leaves the file as it was.
\<close>

section \<open>The files\<close>

record user_files =
  uf_runtime_dir :: "string option"
  uf_request :: "string option"
  uf_override :: "string option"
  uf_kbd_level :: "string option"
  uf_kbd_marker :: "string option"

type_synonym command_result = "int \<times> string list \<times> user_files"

definition text_line :: "string \<Rightarrow> string" where
  "text_line w = w @ [newline]"

definition word_of_file :: "string option \<Rightarrow> string option" where
  "word_of_file f = Option.bind f first_word"

section \<open>suspend\<close>

definition suspend_run :: "bool \<Rightarrow> string \<Rightarrow> user_files \<Rightarrow> command_result" where
  "suspend_run io action fs = (case uf_runtime_dir fs of
       None \<Rightarrow>
         if action = ''request'' then (1, [], fs)
         else if action = ''status'' then (0, [''idle-suspend request: none (no runtime dir)''], fs)
         else (0, [], fs)
     | Some dir \<Rightarrow>
         if action = ''request''
         then (if io then (0, [], fs\<lparr>uf_request := Some (text_line ''idle'')\<rparr>) else (1, [], fs))
         else if action = ''cancel''
         then (case uf_request fs of
                 None \<Rightarrow> (0, [], fs)
               | Some _ \<Rightarrow> if io then (0, [], fs\<lparr>uf_request := None\<rparr>) else (1, [], fs))
         else if action = ''status''
         then (0, [if uf_request fs \<noteq> None
                   then ''idle-suspend request: standing ('' @ dir @ ''/hyprstate-suspend-request)''
                   else ''idle-suspend request: none''], fs)
         else (2, [], fs))"

section \<open>power\<close>

definition override_profile :: "user_files \<Rightarrow> string option" where
  "override_profile fs = (case word_of_file (uf_override fs) of
      None \<Rightarrow> None
    | Some w \<Rightarrow> if power_profile_from_str w = None then None else Some w)"

definition power_set :: "bool \<Rightarrow> string option \<Rightarrow> user_files \<Rightarrow> command_result" where
  "power_set io value fs = (case value of
       None \<Rightarrow> (2, [], fs)
     | Some v \<Rightarrow>
         if v = ''auto''
         then (0, [''override cleared '' @ em_dash @ '' automatic policy''], if io then fs\<lparr>uf_override := None\<rparr> else fs)
         else if power_profile_from_str v = None then (2, [], fs)
         else if io
         then (0, [''override: '' @ v @ '' (clears when AC state changes; `hyprstate power set auto` to clear now)''],
               fs\<lparr>uf_override := Some (text_line v)\<rparr>)
         else (1, [], fs))"

definition next_override :: "string option \<Rightarrow> string" where
  "next_override current =
     (if current = None then ''power-saver''
      else if current = Some ''power-saver'' then ''balanced''
      else if current = Some ''balanced'' then ''performance''
      else ''auto'')"

definition py_quoted :: "string \<Rightarrow> string" where
  "py_quoted w = [CHR 0x27] @ w @ [CHR 0x27]"

definition pydict_entry :: "string \<Rightarrow> power_profile \<Rightarrow> string" where
  "pydict_entry k p = py_quoted k @ '': '' @ py_quoted (power_profile_as_str p)"

definition policy_pydict :: "power_policy \<Rightarrow> string" where
  "policy_pydict p =
     ''{'' @ pydict_entry ''docked-ac'' (pp_docked_ac p) @ '', '' @ pydict_entry ''ac'' (pp_ac p)
       @ '', '' @ pydict_entry ''battery'' (pp_battery p)
       @ '', '' @ pydict_entry ''battery-low'' (pp_battery_low p) @ ''}''"

definition waybar_icon :: "string \<Rightarrow> string" where
  "waybar_icon p =
     (if p = ''power-saver'' then ''f0fb6'' else if p = ''balanced'' then ''f0fb5''
      else if p = ''performance'' then ''f04c5'' else p)"

text \<open>The status view: the lines for a terminal, or the JSON object of the status bar as its text,
  tooltip and class. The icons are written by their code points. \<open>reply\<close> is what powerd answered:
  an error and its text, or the applied profile and its knobs (a map, so distinct keys).\<close>

definition waybar_status ::
  "string option \<Rightarrow> string + string \<times> (string \<times> string) list \<Rightarrow> string \<times> string \<times> string" where
  "waybar_status current reply = (case reply of
       Inl _ \<Rightarrow> (''26a1?'', ''powerd unavailable'', ''unavailable'')
     | Inr (applied, _) \<Rightarrow>
         let mode = (if current \<noteq> None then ''override'' else ''auto'') in
         (waybar_icon applied, ''power: '' @ applied @ '' ('' @ mode @ '')'', mode @ '' '' @ applied))"

definition pad_right :: "nat \<Rightarrow> string \<Rightarrow> string" where
  "pad_right n w = w @ replicate (n - length w) (CHR 0x20)"

definition power_status ::
  "string option \<Rightarrow> string + string \<times> (string \<times> string) list \<Rightarrow> string list" where
  "power_status current reply = (case reply of
       Inl e \<Rightarrow> (''powerd : unavailable ('' @ e @ '')'')
                # (case current of Some p \<Rightarrow> [''override: '' @ p] | None \<Rightarrow> [])
     | Inr (applied, knobs) \<Rightarrow>
         (''applied : '' @ applied @ (if current \<noteq> None then '' (override)'' else '' (auto)''))
         # map (\<lambda>(k, v). ''  '' @ pad_right 34 k @ '' '' @ v) (sort_key id knobs))"

definition power_run ::
  "bool \<Rightarrow> power_policy \<Rightarrow> string + string \<times> (string \<times> string) list
     \<Rightarrow> string \<Rightarrow> string option \<Rightarrow> user_files \<Rightarrow> command_result" where
  "power_run io policy reply action value fs =
     (if action = ''set'' then power_set io value fs
      else if action = ''cycle'' then power_set io (Some (next_override (override_profile fs))) fs
      else if action = ''get''
      then (0, [case override_profile fs of
                  Some p \<Rightarrow> ''override: '' @ p
                | None \<Rightarrow> ''auto (policy: '' @ policy_pydict policy @ '')''], fs)
      else if action = ''status'' then (0, power_status (override_profile fs) reply, fs)
      else (2, [], fs))"

section \<open>kbd\<close>

definition stored_level :: "user_files \<Rightarrow> u8" where
  "stored_level fs = or_default DEFAULT_KBD_LEVEL_PCT
     (map_option clamp_level (Option.bind (word_of_file (uf_kbd_level fs)) parse_i64))"

text \<open>\<open>apply\<close>: the level first, then the marker. \<open>io1\<close> and \<open>io2\<close> say whether each write works.\<close>

definition kbd_apply :: "bool \<Rightarrow> bool \<Rightarrow> u8 \<Rightarrow> user_files \<Rightarrow> command_result" where
  "kbd_apply io1 io2 level fs =
     (if \<not> io1 then (1, [], fs)
      else let fs = fs\<lparr>uf_kbd_level := Some (text_line (nat_str (unat level)))\<rparr> in
        if uf_runtime_dir fs = None then (0, [nat_str (unat level)], fs)
        else if io2 then (0, [nat_str (unat level)], fs\<lparr>uf_kbd_marker := Some (text_line ''manual'')\<rparr>)
        else (1, [], fs))"

definition trim_percent :: "string \<Rightarrow> string" where
  "trim_percent v = rev (dropWhile (\<lambda>c. c = CHR 0x25) (rev v))"

text \<open>\<open>kbd status\<close>. \<open>snapshot\<close> is the status file the daemon wrote, when there is one that parses.\<close>

definition kbd_policy_line :: "kbd_mode \<Rightarrow> (string \<times> u32) option \<Rightarrow> string option \<Rightarrow> string" where
  "kbd_policy_line mode led als =
     (if mode = kbd_mode.Off then ''off (power.conf kbd = off)''
      else case led of
          None \<Rightarrow> ''inert: no kbd_backlight LED under /sys/class/leds''
        | Some (name, mx) \<Rightarrow>
            (case als of
               None \<Rightarrow> ''inert: no illuminance sensor under /sys/bus/iio''
             | Some attr \<Rightarrow> ''auto (LED '' @ name @ '', max '' @ nat_str (unat mx) @ ''; sensor '' @ attr @ '')''))"

definition bool_str :: "bool \<Rightarrow> string" where
  "bool_str b = (if b then ''true'' else ''false'')"

definition fixed1 :: "f64 \<Rightarrow> string" where
  "fixed1 x = (case x of
       NaN \<Rightarrow> ''NaN'' | PosInf \<Rightarrow> ''inf'' | NegInf \<Rightarrow> ''-inf''
     | Finite r \<Rightarrow> let n = nat (round_even (\<bar>r\<bar> * 10)) in
         (if r < 0 then ''-'' else []) @ nat_str (n div 10) @ ''.'' @ nat_str (n mod 10))"

definition kbd_daemon_line :: "kbd_status option \<Rightarrow> string" where
  "kbd_daemon_line snapshot = (case snapshot of
       None \<Rightarrow> ''daemon  : unknown (no status snapshot; daemon not running or policy inert)''
     | Some s \<Rightarrow> ''daemon  : keys '' @ (if ks_lit s then ''lit'' else ''off'') @ '', typing '' @ bool_str (ks_typing s)
         @ '', dark '' @ bool_str (ks_dark s) @ '' (last lux ''
         @ (case ks_lux s of Some l \<Rightarrow> fixed1 l | None \<Rightarrow> ''unknown'') @ '')'')"

definition kbd_status_lines ::
  "power_conf \<Rightarrow> (string \<times> u32) option \<Rightarrow> string option \<Rightarrow> kbd_status option \<Rightarrow> user_files \<Rightarrow> string list" where
  "kbd_status_lines conf led als snapshot fs =
     [''level   : '' @ nat_str (unat (stored_level fs)) @ ''% (stored)'',
      ''override: '' @ (if uf_runtime_dir fs \<noteq> None \<and> uf_kbd_marker fs \<noteq> None then ''armed'' else ''no''),
      ''policy  : '' @ kbd_policy_line (pc_kbd conf) led als,
      ''config  : kbd-idle '' @ nat_str (unat (pc_kbd_idle_secs conf)) @ '' s, kbd-dark-lux ''
        @ nat_str (unat (pc_kbd_dark_lux conf)),
      kbd_daemon_line snapshot]"

definition kbd_run ::
  "bool \<Rightarrow> bool \<Rightarrow> string list \<Rightarrow> string \<Rightarrow> string option \<Rightarrow> user_files \<Rightarrow> command_result" where
  "kbd_run io1 io2 status action value fs =
     (if action = ''set''
      then (case value of
              None \<Rightarrow> (2, [], fs)
            | Some v \<Rightarrow>
                (case parse_i64 (trim_percent v) of
                   None \<Rightarrow> (2, [], fs)
                 | Some pct \<Rightarrow> kbd_apply io1 io2 (clamp_level pct) fs))
      else if action = ''up'' then kbd_apply io1 io2 (step_level (stored_level fs) True) fs
      else if action = ''down'' then kbd_apply io1 io2 (step_level (stored_level fs) False) fs
      else if action = ''auto''
      then (if uf_runtime_dir fs \<noteq> None \<and> uf_kbd_marker fs \<noteq> None
            then (if io1 then (0, [''override cleared; automatic policy''], fs\<lparr>uf_kbd_marker := None\<rparr>)
                  else (1, [], fs))
            else (0, [''override cleared; automatic policy''], fs))
      else if action = ''status'' then (0, status, fs)
      else (2, [], fs))"

section \<open>gpu\<close>

record card_record =
  cr_kind :: string
  cr_boot_vga :: u32
  cr_vram :: u64
  cr_external :: u32
  cr_edp :: u32

record gpu_state_file =
  st_version :: u32
  st_mode :: string
  st_reason :: string
  st_primary :: "string option"
  st_devices :: "string list"
  st_omitted :: "string list"
  st_snapshot :: "string \<Rightarrow> card_record option"

definition card_record_of :: "nat option \<Rightarrow> nat \<times> gpu_card \<Rightarrow> card_record" where
  "card_record_of integrated ic = (case ic of (i, c) \<Rightarrow>
     \<lparr>cr_kind = (if Some i = integrated then ''integrated'' else ''discrete''),
      cr_boot_vga = gc_boot_vga c, cr_vram = gc_vram c, cr_external = gc_external c,
      cr_edp = gc_edp c\<rparr>)"

definition write_gpu_state :: "string \<Rightarrow> string \<Rightarrow> string list option \<Rightarrow> gpu_snapshot \<Rightarrow> gpu_state_file" where
  "write_gpu_state mode reason devices snap =
     (let integrated = (if length (gs_cards snap) \<ge> 2 then integrated_card (gs_cards snap) else None);
          device_list = or_default [] devices
      in \<lparr>st_version = 1, st_mode = mode, st_reason = reason,
          st_primary = (case device_list of [] \<Rightarrow> None | d # _ \<Rightarrow> Some d),
          st_devices = device_list,
          st_omitted = filter (\<lambda>d. devices = None \<or> d \<notin> set device_list) (map devnode (gs_cards snap)),
          st_snapshot = fold (\<lambda>ic m. m(pci_key (gc_path (snd ic)) \<mapsto> card_record_of integrated ic))
            (zip [0..<length (gs_cards snap)] (gs_cards snap)) Map.empty\<rparr>)"

text \<open>\<open>gpu select\<close> and \<open>gpu check\<close>: the state file written, if any, and the one line of standard
  output. \<open>settled\<close> is what a second read of the hardware gives; no result is a panic.\<close>

definition gpu_run ::
  "string \<Rightarrow> gpu_mode \<Rightarrow> gpu_mode_source \<Rightarrow> gpu_snapshot \<Rightarrow> gpu_snapshot \<Rightarrow> (string \<Rightarrow> bool)
     \<Rightarrow> (gpu_state_file option \<times> string list option) option" where
  "gpu_run action mode source snap settled exists =
     (case gpu_desired snap mode source of
        None \<Rightarrow> None
      | Some first \<Rightarrow>
          let retry = (fst first = None \<and> snd first = ''bailed-transient'' \<and> action = ''select'') in
          (case (if retry then gpu_desired settled mode source else Some first) of
             None \<Rightarrow> None
           | Some (devices, reason) \<Rightarrow>
               let snap = (if retry then settled else snap);
                   (devices, reason) =
                     (case devices of
                        None \<Rightarrow> (devices, reason)
                      | Some ds \<Rightarrow> if list_all exists ds then (devices, reason)
                                  else (None, ''validation-failed''))
               in Some (if action = ''select''
                        then Some (write_gpu_state (gpu_mode_as_str mode) reason devices snap) else None,
                        devices)))"

datatype sync_state = SyncUnknown | InSync | Mismatch

definition gpu_sync :: "string list option \<Rightarrow> string list option \<Rightarrow> sync_state" where
  "gpu_sync actual desired = (case (actual, desired) of
       (Some a, Some d) \<Rightarrow> if d = a then InSync else Mismatch
     | _ \<Rightarrow> SyncUnknown)"

datatype route_tag = RenderLocal | CopyPath string string | RenderUnknown

definition primary_card :: "string list option \<Rightarrow> string option" where
  "primary_card actual = (case actual of
       Some (d # _) \<Rightarrow> Some (last (split_char (CHR ''/'') d))
     | _ \<Rightarrow> None)"

definition output_route :: "string option \<Rightarrow> string \<Rightarrow> route_tag" where
  "output_route primary cardn = (case primary of
       None \<Rightarrow> RenderUnknown
     | Some p \<Rightarrow> if p = cardn then RenderLocal else CopyPath cardn p)"

section \<open>Facts\<close>

lemma word_of_text_line:
  "w \<noteq> [] \<Longrightarrow> (\<forall>c \<in> set w. \<not> is_whitespace c) \<Longrightarrow> word_of_file (Some (text_line w)) = Some w"
  by (simp add: word_of_file_def text_line_def first_word_line)

lemma digit_not_whitespace: "is_ascii_digit c \<Longrightarrow> \<not> is_whitespace c"
  by (auto simp: is_ascii_digit_def is_whitespace_def Let_def)

lemma word_of_stored_profile:
  "word_of_file (Some (text_line (power_profile_as_str p))) = Some (power_profile_as_str p)"
  using profile_word.as_str_word by (simp add: word_of_text_line)

lemma clamp_level_uint:
  assumes "unat l \<le> 100" shows "clamp_level (uint l) = l"
proof -
  have "uint l \<le> 100" using assms unfolding uint_nat by linarith
  then have "nat (clamp 0 100 (uint l)) = unat l" by (simp add: clamp_def)
  then show ?thesis by (simp add: word_unat_eq_iff unat_clamp_level)
qed

text \<open>What \<open>kbd\<close> stores is what the daemon and the next \<open>kbd up\<close> read.\<close>

lemma level_line_parses:
  assumes "unat l \<le> 100" "f = Some (text_line (nat_str (unat l)))"
  shows "Option.bind (word_of_file f) parse_i64 = Some (int (unat l))"
proof -
  have "word_of_file f = Some (nat_str (unat l))"
    using assms(2) nat_str_digits digit_not_whitespace nat_str_nonempty
    by (simp add: word_of_text_line)
  moreover have "parse_i64 (nat_str (unat l)) = Some (int (unat l))"
  proof -
    have b: "0 \<le> int (unat l)" "int (unat l) \<le> 100" using assms(1) by linarith+
    show ?thesis unfolding parse_i64_def
      by (rule parse_signed_nat_str; rule order.trans [OF _ b(1)] order.trans [OF b(2)]; simp)
  qed
  ultimately show ?thesis by simp
qed

lemma stored_level_line:
  assumes "unat l \<le> 100" "uf_kbd_level fs = Some (text_line (nat_str (unat l)))"
  shows "stored_level fs = l"
  using level_line_parses [OF assms] assms(1) by (simp add: stored_level_def clamp_level_uint or_default_def)

lemma gpu_run_not_panics: "gpu_run action mode source snap settled exists \<noteq> None"
proof -
  have "gpu_desired sn mode source \<noteq> None" for sn
    by (rule gpu_desired_cases [of sn mode source]) auto
  then obtain a b where "gpu_desired snap mode source = Some a" "gpu_desired settled mode source = Some b"
    by (meson not_None_eq)
  then show ?thesis by (cases a; cases b) (auto simp: gpu_run_def Let_def split: option.split)
qed

text \<open>What \<open>select\<close> prints is a list every entry of which exists, and the state file records it.\<close>

lemma gpu_run_printed:
  assumes "gpu_run action mode source snap settled exists = Some (st, Some ds)"
  shows "list_all exists ds
     \<and> (\<exists>sn reason. sn \<in> {snap, settled} \<and> gpu_desired sn mode source = Some (Some ds, reason))
     \<and> (\<forall>f. st = Some f \<longrightarrow> action = ''select'' \<and> st_devices f = ds)"
  using assms
  by (auto simp: gpu_run_def Let_def write_gpu_state_def or_default_def
      split: option.splits prod.splits if_splits)

section \<open>Properties\<close>

primrec press_up :: "nat \<Rightarrow> user_files \<Rightarrow> user_files" where
  "press_up 0 fs = fs"
| "press_up (Suc n) fs = snd (snd (kbd_run True True [] ''up'' None (press_up n fs)))"

definition daemon_view :: "user_files \<Rightarrow> filesystem" where
  "daemon_view fs = \<lparr>fs_dir = (\<lambda>_. None), fs_file = (\<lambda>_. uf_kbd_level fs), fs_canonical = (\<lambda>_. None)\<rparr>"

lemma stored_level_bound: "unat (stored_level fs) \<le> 100"
proof (cases "Option.bind (word_of_file (uf_kbd_level fs)) parse_i64")
  case None
  then show ?thesis by (simp add: stored_level_def or_default_def DEFAULT_KBD_LEVEL_PCT_def)
next
  case (Some i)
  then show ?thesis using clamp_bounds [of 0 100 i]
    by (simp add: stored_level_def or_default_def unat_clamp_level nat_le_iff)
qed

lemma stored_level_press:
  "stored_level (press_up (Suc n) fs) = step_level (stored_level (press_up n fs)) True"
proof (rule stored_level_line)
  show "unat (step_level (stored_level (press_up n fs)) True) \<le> 100" by (simp add: unat_step_level)
  show "uf_kbd_level (press_up (Suc n) fs)
      = Some (text_line (nat_str (unat (step_level (stored_level (press_up n fs)) True))))"
    by (simp add: kbd_run_def kbd_apply_def Let_def)
qed

lemma daemon_reads_stored:
  assumes "Option.bind (word_of_file (uf_kbd_level fs)) parse_i64 \<noteq> None"
  shows "read_kbd_level (daemon_view fs) p = Some (stored_level fs)"
  using assms
  by (auto simp: read_kbd_level_def read_first_word_def daemon_view_def stored_level_def word_of_file_def
      or_default_def split: option.splits)

text \<open>C32: Pressing the brighter key steps the stored level by ten percent and stops at a hundred: after
  n commands that could write their files the level is the smaller of 100 and ten n more, and what
  the daemon reads from the file is that level, not a rounding or a default.\<close>
theorem kbd_keys_and_daemon_agree:
  "unat (stored_level (press_up n fs)) = min 100 (unat (stored_level fs) + 10 * n)
   \<and> (n > 0 \<longrightarrow> read_kbd_level (daemon_view (press_up n fs)) p = Some (stored_level (press_up n fs)))"
proof
  show "unat (stored_level (press_up n fs)) = min 100 (unat (stored_level fs) + 10 * n)"
    using stored_level_bound [of fs]
    by (induction n) (simp_all del: press_up.simps(2) add: stored_level_press unat_step_level min_def)
  show "n > 0 \<longrightarrow> read_kbd_level (daemon_view (press_up n fs)) p = Some (stored_level (press_up n fs))"
  proof
    assume "n > 0"
    then obtain m where n: "n = Suc m" by (cases n) auto
    let ?l = "step_level (stored_level (press_up m fs)) True"
    have "unat ?l \<le> 100" by (simp add: unat_step_level)
    moreover have "uf_kbd_level (press_up n fs) = Some (text_line (nat_str (unat ?l)))"
      by (simp add: n kbd_run_def kbd_apply_def Let_def)
    ultimately have "Option.bind (word_of_file (uf_kbd_level (press_up n fs))) parse_i64 = Some (int (unat ?l))"
      by (rule level_line_parses)
    then show "read_kbd_level (daemon_view (press_up n fs)) p = Some (stored_level (press_up n fs))"
      by (intro daemon_reads_stored) simp
  qed
qed

theorem kbd_keys_and_daemon_agree_witness:
  "unat (stored_level (press_up 3 \<lparr>uf_runtime_dir = None, uf_request = None, uf_override = None,
       uf_kbd_level = None, uf_kbd_marker = None\<rparr>)) = 80"
  using kbd_keys_and_daemon_agree [of 3 "\<lparr>uf_runtime_dir = None, uf_request = None, uf_override = None,
       uf_kbd_level = None, uf_kbd_marker = None\<rparr>" "''kbd-level''"]
  by (simp add: stored_level_def word_of_file_def or_default_def DEFAULT_KBD_LEVEL_PCT_def)

end
