(* ===== verification/Boot.thy ===== *)
theory Boot
  imports Machine Sources SleepHook
begin

text \<open>
  How the daemon comes up: \<open>run\<close> of \<open>src/daemon/mod.rs\<close> from the configuration file to the
  dispatcher, with the loaders of \<open>src/sysio/power_conf.rs\<close> and the tasks it spawns. The answers of
  the buses at that time are a record of their own; the compositor, the file system and the files
  are those of \<open>env\<close> and \<open>sys\<close>, so that a run of the daemon can go on from what \<open>boot\<close> leaves.
\<close>

section \<open>Configuration\<close>

definition load_power_conf :: "string option \<Rightarrow> power_conf" where
  "load_power_conf file = (case file of
       Some txt \<Rightarrow> fst (parse_power_conf txt)
     | None \<Rightarrow> default_power_conf)"

definition load_power_policy :: "string option \<Rightarrow> power_policy \<times> u8" where
  "load_power_policy file = (case file of
       Some txt \<Rightarrow> (let (policy, pct, _) = parse_power_policy txt in (policy, pct))
     | None \<Rightarrow> (default_power_policy, DEFAULT_BATTERY_LOW_PCT))"

definition boot_conf :: "power_conf \<Rightarrow> 'p sys \<Rightarrow> 'p sys" where
  "boot_conf conf s = s\<lparr>
     power_policy := pc_policy conf,
     battery_low_pct := pc_battery_low_pct conf,
     lid_present := (pc_lid conf = lid_mode.Present),
     lid_grace := secs (unat (pc_lid_grace_secs conf)),
     lid_ac := pc_lid_ac conf\<rparr>"

section \<open>Answers at startup\<close>

text \<open>\<open>ba_bus\<close> and \<open>ba_powerd_proxy\<close> stand for the connections whose failure ends \<open>run\<close> early;
  \<open>ba_upower\<close> is nothing without the interface and then the answer to \<open>OnBattery\<close>.\<close>

record boot_answers =
  ba_conf :: "string option"
  ba_bus :: bool
  ba_lid_inhibitor :: bool
  ba_session :: bool
  ba_upower :: "bool option option"
  ba_battery_present :: "bool option"
  ba_battery_type :: "u32 option"
  ba_battery_pct :: "f64 option"
  ba_kbd_level :: "string option"
  ba_powerd_proxy :: bool
  ba_lid_closed :: "bool option"
  ba_inhibitors :: "inhibitor_row list option"
  ba_locked_hint :: "bool option"
  ba_session_signals :: bool

section \<open>The steps of run\<close>

definition clear_stale_request :: "'p env \<Rightarrow> 'p sys \<Rightarrow> 'p sys" where
  "clear_stale_request e s =
     (if \<not> runtime_dir s then s
      else let (removed, s) = ask (q_io e) s in
        if removed \<and> request_file s \<noteq> None then emit RemoveRequest (s\<lparr>request_file := None\<rparr>) else s)"

definition wants_lid_inhibitor :: "'p sys \<Rightarrow> bool" where
  "wants_lid_inhibitor s \<longleftrightarrow> \<not> shadow s \<and> lid_present s"

definition boot_ac :: "boot_answers \<Rightarrow> 'p sys \<Rightarrow> 'p sys" where
  "boot_ac a s = (case ba_upower a of
       Some (Some on_battery) \<Rightarrow> s\<lparr>on_ac := \<not> on_battery, on_ac_settled := \<not> on_battery\<rparr>
     | _ \<Rightarrow> s)"

definition boot_battery_pct :: "boot_answers \<Rightarrow> f64 option" where
  "boot_battery_pct a =
     (if ba_upower a = None then None
      else battery_initial (ba_battery_present a) (ba_battery_type a) (ba_battery_pct a))"

definition boot_battery :: "boot_answers \<Rightarrow> 'p sys \<Rightarrow> 'p sys" where
  "boot_battery a s = (case boot_battery_pct a of
       Some pct \<Rightarrow> s\<lparr>battery_percent := Some pct,
                     low_battery := f64_le pct (f64_of_nat (unat (battery_low_pct s)))\<rparr>
     | None \<Rightarrow> s\<lparr>battery_percent := None, low_battery := False\<rparr>)"

definition boot_kbd :: "power_conf \<Rightarrow> boot_answers \<Rightarrow> 'p sys \<Rightarrow> 'p sys" where
  "boot_kbd conf a s = s\<lparr>
     kbd_mode := pc_kbd conf,
     kbd_idle := secs (unat (pc_kbd_idle_secs conf)),
     kbd_dark_lux := pc_kbd_dark_lux conf,
     kbd_level := or_default DEFAULT_KBD_LEVEL_PCT
       (map_option clamp_level (Option.bind (Option.bind (ba_kbd_level a) first_word) parse_i64)),
     kbd_override := runtime_dir s \<and> kbd_marker s\<rparr>"

definition boot_world :: "'p env \<Rightarrow> boot_answers \<Rightarrow> 'p sys \<Rightarrow> 'p sys" where
  "boot_world e a s =
     (let s = s\<lparr>lid_closed := (if lid_present s then or_default False (ba_lid_closed a) else False),
                logind_inhibitor := or_default False (logind_real_inhibitor_active (ba_inhibitors a))\<rparr>;
          (wayland, s) = wayland_idle_inhibited e s;
          s = s\<lparr>wayland_inhibitor := or_default False wayland\<rparr>;
          (ext, s) = ext_monitor_count e 0 s
      in s\<lparr>ext_mon_count := ext\<rparr>)"

definition boot_profile :: "'p env \<Rightarrow> 'p sys \<Rightarrow> 'p sys" where
  "boot_profile e s =
     (let (name, s) = active_profile_name e s in
      case name of
        None \<Rightarrow> s
      | Some n \<Rightarrow>
          let (profiles, s) = load_profiles e s;
              s = (case find (\<lambda>p. mp_name p = n) profiles of
                     Some p \<Rightarrow> s\<lparr>edp_policy := mp_edp p, active_profile_rev := Some p\<rparr>
                   | None \<Rightarrow> s)
          in s\<lparr>current_profile := Some n\<rparr>)"

definition boot_locked :: "boot_answers \<Rightarrow> 'p sys \<Rightarrow> 'p sys" where
  "boot_locked a s =
     (let l = (if has_session s then or_default False (ba_locked_hint a) else False)
      in emit (LockMirror l) (s\<lparr>locked := l\<rparr>))"

definition boot_queue :: "'p sys \<Rightarrow> event list" where
  "boot_queue s = [event.MonitorsChanged, event.PowerOverrideChanged (Option.bind (override_file s) first_word)]"

text \<open>The context \<open>run\<close> hands to the dispatcher with the events already queued, or nothing when it
  returns an error. \<open>s0\<close> carries the mode, the files and the clock; its context is not used.\<close>

definition fresh_sys :: "'p sys \<Rightarrow> 'p sys" where
  "fresh_sys s0 = daemon_ctx.extend default_context
     \<lparr>shadow = shadow s0, has_session = False, runtime_dir = runtime_dir s0,
      request_file = request_file s0, override_file = override_file s0, active_link = active_link s0,
      kbd_marker = kbd_marker s0, log = [], tick = tick s0\<rparr>"

definition boot :: "'p env \<Rightarrow> boot_answers \<Rightarrow> 'p sys \<Rightarrow> ('p sys \<times> event list) option" where
  "boot e a s0 =
     (if \<not> ba_bus a then None
      else let conf = load_power_conf (ba_conf a);
               s = clear_stale_request e (boot_conf conf (fresh_sys s0))
        in if wants_lid_inhibitor s \<and> \<not> ba_lid_inhibitor a then None
           else let s = s\<lparr>has_session := ba_session a\<rparr>;
                    s = boot_battery a (boot_ac a s);
                    s = discover_backlight e s;
                    s = discover_kbd e (boot_kbd conf a s)
             in if \<not> ba_powerd_proxy a then None
                else let s = snd (battery_low_request_check e s);
                         s = boot_profile e (boot_world e a s)
                  in Some (boot_locked a s, boot_queue s))"

section \<open>The tasks it spawns\<close>

datatype daemon_task =
    EffectorWorker | HyprSocketReader | InhibitorWatcher bool | FileStateTask | UeventTask
  | IdleNotifyTask duration | ReconcileTask u32 bool | LidWatcher | SleepWatcher
  | SessionSignalWatcher | LockWatcher | AcWatcher | BatteryWatcher | PowerdNameWatcher

definition spawned :: "boot_answers \<Rightarrow> 'p sys \<Rightarrow> daemon_task list" where
  "spawned a s =
     [EffectorWorker, HyprSocketReader, InhibitorWatcher (logind_inhibitor s), FileStateTask, UeventTask]
     @ (if kbd_active s then [IdleNotifyTask (kbd_idle s)] else [])
     @ [ReconcileTask (ext_mon_count s) (lid_present s)]
     @ (if lid_present s then [LidWatcher] else [])
     @ [SleepWatcher]
     @ (if has_session s then (if ba_session_signals a then [SessionSignalWatcher] else []) @ [LockWatcher] else [])
     @ (if ba_upower a \<noteq> None then [AcWatcher] else [])
     @ (if boot_battery_pct a \<noteq> None then [BatteryWatcher] else [])
     @ [PowerdNameWatcher]"

section \<open>Startup diagnostics\<close>

text \<open>\<open>log_wake_state\<close>: the entries it prints and the labels it warns about.\<close>

definition wake_record :: "string \<Rightarrow> string option \<Rightarrow> string list \<times> string list \<Rightarrow> string list \<times> string list" where
  "wake_record label contents acc =
     (case contents of
        None \<Rightarrow> acc
      | Some txt \<Rightarrow>
          (fst acc @ [label @ ''='' @ trim txt], snd acc @ (if trim txt \<noteq> ''enabled'' then [label] else [])))"

definition wake_device :: "usb_device \<Rightarrow> string list \<times> string list \<Rightarrow> string list \<times> string list" where
  "wake_device d acc =
     (if starts_with ''usb'' (ud_name d) then wake_record (ud_name d) (ud_wakeup d) acc
      else case (ud_id_vendor d, ud_id_product d) of
          (Some v, Some p) \<Rightarrow>
            fold (\<lambda>(ids, label) acc. if (trim v, trim p) = ids then wake_record label (ud_wakeup d) acc else acc)
              WAKE_USB_VENDORS acc
        | _ \<Rightarrow> acc)"

definition log_wake_state :: "bus \<Rightarrow> string list \<times> string list" where
  "log_wake_state b =
     fold wake_device (bus_devices b)
       (wake_record ''controller'' (Option.bind (bus_controller b) ud_wakeup) ([], []))"

section \<open>Facts\<close>

lemma conf_ok_loaded: "conf_ok (load_power_conf file)"
  using conf_ok_lines [of "(default_power_conf, [])"] conf_ok_default
  by (simp add: load_power_conf_def parse_power_conf_def split: option.split)

text \<open>What the steps leave alone. But for the renders of the profiles, the trace and the request change
  only in \<open>clear_stale_request\<close> and \<open>battery_low_request_check\<close>.\<close>

definition request_view :: "'p sys \<Rightarrow> bool \<times> bool \<times> bool \<times> string option \<times> effect list" where
  "request_view s = (shadow s, runtime_dir s, suspend_requested s, request_file s, filter (\<lambda>x. x \<noteq> RenderProfiles) (log s))"

lemma request_view_steps:
  "request_view (discover_backlight e s) = request_view s"
  "request_view (discover_kbd e s) = request_view s"
  "request_view (boot_conf conf s) = request_view s"
  "request_view (boot_kbd conf a s) = request_view s"
  "request_view (boot_ac a s) = request_view s"
  "request_view (boot_battery a s) = request_view s"
  "request_view (boot_world e a s) = request_view s"
  "request_view (boot_profile e s) = request_view s"
  "request_view (s\<lparr>has_session := h\<rparr>) = request_view s"
  by (auto simp: request_view_def discover_backlight_def discover_kbd_def boot_conf_def boot_kbd_def boot_ac_def
      boot_battery_def boot_world_def boot_profile_def wayland_idle_inhibited_def ext_monitor_count_def
      active_profile_name_def load_profiles_def ask_def emit_def Let_def split_beta split: option.split)

definition boot_before_check :: "'p env \<Rightarrow> boot_answers \<Rightarrow> 'p sys \<Rightarrow> 'p sys" where
  "boot_before_check e a s0 =
     (let conf = load_power_conf (ba_conf a);
          s = clear_stale_request e (boot_conf conf (fresh_sys s0))
      in discover_kbd e (boot_kbd conf a (discover_backlight e
           (boot_battery a (boot_ac a (s\<lparr>has_session := ba_session a\<rparr>))))))"

lemma boot_unfold:
  assumes "boot e a s0 = Some (s, q)"
  shows "s = boot_locked a (boot_profile e (boot_world e a (snd (battery_low_request_check e (boot_before_check e a s0)))))"
    and "event.TimerExpired \<notin> set q"
  using assms by (auto simp: boot_def boot_before_check_def boot_queue_def Let_def split: if_splits)

lemma boot_before_check_view:
  "request_view (boot_before_check e a s0) = request_view (clear_stale_request e (fresh_sys s0))"
proof -
  have "request_view (clear_stale_request e (boot_conf conf s)) = request_view (clear_stale_request e s)"
    for conf :: power_conf and s :: "'a sys"
    by (auto simp: clear_stale_request_def request_view_def boot_conf_def ask_def emit_def Let_def)
  then show ?thesis by (simp add: boot_before_check_def Let_def request_view_steps)
qed

lemma boot_inputs:
  "low_battery (boot_profile e (boot_world e a s)) = low_battery s"
  "on_ac (boot_profile e (boot_world e a s)) = on_ac s"
  by (simp_all add: boot_profile_def boot_world_def wayland_idle_inhibited_def ext_monitor_count_def
      active_profile_name_def ask_def Let_def split_beta split: option.split)

text \<open>What the boot leaves of the request, and its trace.\<close>

lemma boot_request:
  assumes "boot e a s0 = Some (s, q)"
  shows "suspend_requested s \<Longrightarrow>
      low_battery s \<and> \<not> on_ac s \<and> request_file s = Some (''battery-low'' @ [newline])"
    and "runtime_dir s0 \<Longrightarrow> q_io e (tick s0) \<Longrightarrow>
      request_file s = (if suspend_requested s then Some (''battery-low'' @ [newline]) else None)"
    and "set (log s) \<subseteq> {RemoveRequest, WriteRequest, LockMirror (locked s), RenderProfiles}"
    and "shadow s \<Longrightarrow> WriteRequest \<notin> set (log s)"
    and "shadow s = shadow s0"
proof -
  let ?u = "boot_before_check e a s0" and ?v = "snd (battery_low_request_check e (boot_before_check e a s0))"
  note u = boot_before_check_view [of e a s0]
  have s: "s = boot_locked a (boot_profile e (boot_world e a ?v))" by (rule boot_unfold(1) [OF assms])
  have v: "request_view (boot_profile e (boot_world e a ?v)) = request_view ?v" by (simp add: request_view_steps)
  have i: "low_battery s = low_battery ?v" "on_ac s = on_ac ?v"
    by (simp_all add: s boot_locked_def emit_def Let_def boot_inputs)
  have f: "shadow s = shadow ?v" "suspend_requested s = suspend_requested ?v" "request_file s = request_file ?v"
    "filter (\<lambda>x. x \<noteq> RenderProfiles) (log s) = filter (\<lambda>x. x \<noteq> RenderProfiles) (log ?v) @ [LockMirror (locked s)]"
    using v by (simp_all add: s boot_locked_def emit_def Let_def request_view_def)
  have l: "x \<in> set (log s) \<longleftrightarrow> x \<in> set (log ?v) \<or> x = LockMirror (locked s)" if "x \<noteq> RenderProfiles" for x
    using arg_cong [OF f(4), of "\<lambda>xs. x \<in> set xs"] that by auto
  have c: "suspend_requested ?u = False" "runtime_dir ?u = runtime_dir s0" "shadow ?u = shadow s0"
    "runtime_dir s0 \<Longrightarrow> q_io e (tick s0) \<Longrightarrow> request_file ?u = None"
    "set (filter (\<lambda>x. x \<noteq> RenderProfiles) (log ?u)) \<subseteq> {RemoveRequest}"
    using u by (auto simp: request_view_def clear_stale_request_def fresh_sys_def default_context_def
        daemon_ctx.defs ask_def emit_def Let_def)
  have cl: "set (log ?u) \<subseteq> {RemoveRequest, RenderProfiles}" using c(5) by auto
  have b: "suspend_requested ?v \<Longrightarrow> low_battery ?v \<and> \<not> on_ac ?v \<and> request_file ?v = Some (''battery-low'' @ [newline])"
    "\<not> suspend_requested ?v \<Longrightarrow> request_file ?v = request_file ?u"
    "set (log ?v) \<subseteq> set (log ?u) \<union> {WriteRequest}" "shadow ?u \<Longrightarrow> set (log ?v) \<subseteq> set (log ?u)"
    "shadow ?v = shadow ?u"
    using c(1) by (auto simp: battery_low_request_check_def battery_low_action_def request_suspend_def
        ask_def emit_def Let_def split: if_splits)
  show "suspend_requested s \<Longrightarrow> low_battery s \<and> \<not> on_ac s \<and> request_file s = Some (''battery-low'' @ [newline])"
    using b(1) by (simp add: i f)
  show "runtime_dir s0 \<Longrightarrow> q_io e (tick s0) \<Longrightarrow>
      request_file s = (if suspend_requested s then Some (''battery-low'' @ [newline]) else None)"
    using b(1,2) c(4) by (simp add: f(2,3))
  show "set (log s) \<subseteq> {RemoveRequest, WriteRequest, LockMirror (locked s), RenderProfiles}"
    using b(3) cl l by blast
  show "shadow s \<Longrightarrow> WriteRequest \<notin> set (log s)" using b(4,5) cl l [of WriteRequest] by (auto simp: f(1))
  show "shadow s = shadow s0" using b(5) c(3) f(1) by simp
qed

text \<open>The inputs of the machine after the boot.\<close>

lemma discover_lid:
  "lid_present (discover_kbd e s) = lid_present s" "lid_present (discover_backlight e s) = lid_present s"
  "lid_ac (discover_kbd e s) = lid_ac s" "lid_ac (discover_backlight e s) = lid_ac s"
  by (simp_all add: discover_kbd_def discover_backlight_def ask_def Let_def split_beta)

lemma clear_stale_fields:
  "lid_present (clear_stale_request e s) = lid_present s" "lid_ac (clear_stale_request e s) = lid_ac s"
  "battery_low_pct (clear_stale_request e s) = battery_low_pct s" "shadow (clear_stale_request e s) = shadow s"
  by (simp_all add: clear_stale_request_def ask_def emit_def Let_def)

lemma before_check_fields:
  "has_session (boot_before_check e a s0) = ba_session a"
  "shadow (boot_before_check e a s0) = shadow s0"
  "lid_present (boot_before_check e a s0) = (pc_lid (load_power_conf (ba_conf a)) = lid_mode.Present)"
  "lid_ac (boot_before_check e a s0) = pc_lid_ac (load_power_conf (ba_conf a))"
  "low_battery (boot_before_check e a s0) = (case boot_battery_pct a of
      Some pct \<Rightarrow> f64_le pct (f64_of_nat (unat (pc_battery_low_pct (load_power_conf (ba_conf a))))) | None \<Rightarrow> False)"
  by (simp_all add: boot_before_check_def Let_def fsm_viewD(5,6,7) [OF fsm_view_discover(1)]
      fsm_viewD(5,6,7) [OF fsm_view_discover(2)] discover_lid clear_stale_fields boot_kbd_def boot_battery_def
      boot_ac_def boot_conf_def fresh_sys_def daemon_ctx.defs split: option.split)

lemma check_keeps:
  "has_session (snd (battery_low_request_check e s)) = has_session s"
  "lid_present (snd (battery_low_request_check e s)) = lid_present s"
  "lid_ac (snd (battery_low_request_check e s)) = lid_ac s"
  by (simp_all add: battery_low_request_check_def request_suspend_def clear_battery_low_request_def ask_def emit_def
      Let_def split_beta split: battery_low_act.split option.split)

lemma boot_profile_keeps:
  "lid_closed (boot_profile e s) = lid_closed s" "ext_mon_count (boot_profile e s) = ext_mon_count s"
  "logind_inhibitor (boot_profile e s) = logind_inhibitor s" "lid_present (boot_profile e s) = lid_present s"
  "wayland_inhibitor (boot_profile e s) = wayland_inhibitor s" "has_session (boot_profile e s) = has_session s"
  "lid_ac (boot_profile e s) = lid_ac s" "shadow (boot_profile e s) = shadow s"
  by (simp_all add: boot_profile_def active_profile_name_def ask_def Let_def split_beta split: option.split)

lemma boot_world_gives:
  "lid_closed (boot_world e a s) \<longleftrightarrow> lid_present s \<and> or_default False (ba_lid_closed a)"
  "logind_inhibitor (boot_world e a s) = or_default False (logind_real_inhibitor_active (ba_inhibitors a))"
  "wayland_inhibitor (boot_world e a s) = or_default False (map_option any_client_inhibiting_idle_in (q_clients e (tick s)))"
  "ext_mon_count (boot_world e a s) = ext_monitor_count_in (q_monitors e (Suc (tick s))) 0"
  "lid_present (boot_world e a s) = lid_present s" "has_session (boot_world e a s) = has_session s"
  "lid_ac (boot_world e a s) = lid_ac s" "shadow (boot_world e a s) = shadow s"
  by (simp_all add: boot_world_def wayland_idle_inhibited_def ext_monitor_count_def ask_def Let_def split_beta)

lemma boot_fields:
  assumes "boot e a s0 = Some (s, q)"
  shows "lid_present s = (pc_lid (load_power_conf (ba_conf a)) = lid_mode.Present)"
    and "lid_closed s \<longleftrightarrow> lid_present s \<and> or_default False (ba_lid_closed a)"
    and "logind_inhibitor s = or_default False (logind_real_inhibitor_active (ba_inhibitors a))"
    and "\<exists>k. wayland_inhibitor s = or_default False (map_option any_client_inhibiting_idle_in (q_clients e k))"
    and "\<exists>k. ext_mon_count s = ext_monitor_count_in (q_monitors e k) 0"
    and "has_session s = ba_session a"
    and "lid_ac s = pc_lid_ac (load_power_conf (ba_conf a))"
    and "low_battery s = (case boot_battery_pct a of
      Some pct \<Rightarrow> f64_le pct (f64_of_nat (unat (pc_battery_low_pct (load_power_conf (ba_conf a))))) | None \<Rightarrow> False)"
proof -
  let ?v = "snd (battery_low_request_check e (boot_before_check e a s0))"
  have s: "s = boot_locked a (boot_profile e (boot_world e a ?v))" by (rule boot_unfold(1) [OF assms])
  note f = boot_locked_def emit_def Let_def boot_profile_keeps boot_world_gives check_keeps before_check_fields boot_inputs
    battery_low_check_fields [OF refl]
  show "lid_present s = (pc_lid (load_power_conf (ba_conf a)) = lid_mode.Present)"
    "lid_closed s \<longleftrightarrow> lid_present s \<and> or_default False (ba_lid_closed a)"
    "logind_inhibitor s = or_default False (logind_real_inhibitor_active (ba_inhibitors a))"
    "has_session s = ba_session a" "lid_ac s = pc_lid_ac (load_power_conf (ba_conf a))"
    "low_battery s = (case boot_battery_pct a of
      Some pct \<Rightarrow> f64_le pct (f64_of_nat (unat (pc_battery_low_pct (load_power_conf (ba_conf a))))) | None \<Rightarrow> False)"
    by (simp_all add: s f)
  show "\<exists>k. wayland_inhibitor s = or_default False (map_option any_client_inhibiting_idle_in (q_clients e k))"
    "\<exists>k. ext_mon_count s = ext_monitor_count_in (q_monitors e k) 0"
    by (auto simp: s f)
qed

lemma boot_kbd_idle:
  assumes "boot e a s0 = Some (s, q)"
  shows "kbd_idle s = secs (unat (pc_kbd_idle_secs (load_power_conf (ba_conf a))))"
proof -
  let ?v = "snd (battery_low_request_check e (boot_before_check e a s0))"
  have "kbd_idle (boot_before_check e a s0) = secs (unat (pc_kbd_idle_secs (load_power_conf (ba_conf a))))"
    by (simp add: boot_before_check_def discover_kbd_def boot_kbd_def ask_def Let_def split_beta)
  moreover have "kbd_idle ?v = kbd_idle (boot_before_check e a s0)"
    by (simp add: battery_low_request_check_def request_suspend_def clear_battery_low_request_def ask_def emit_def
        Let_def split_beta split: battery_low_act.split option.split)
  ultimately show ?thesis
    by (simp add: boot_unfold(1) [OF assms] boot_locked_def boot_profile_def active_profile_name_def boot_world_def
        wayland_idle_inhibited_def ext_monitor_count_def ask_def emit_def Let_def split_beta split: option.split)
qed

section \<open>Properties\<close>

text \<open>A laptop with a lid, on battery, nobody logged out: what a start on it is asked.\<close>

definition demo_answers :: "string option \<Rightarrow> bool \<Rightarrow> boot_answers" where
  "demo_answers conf inhib = \<lparr>ba_conf = conf, ba_bus = True, ba_lid_inhibitor = inhib, ba_session = True,
     ba_upower = Some (Some True), ba_battery_present = Some True, ba_battery_type = Some 2,
     ba_battery_pct = Some (Finite 80), ba_kbd_level = None, ba_powerd_proxy = True,
     ba_lid_closed = Some True, ba_inhibitors = Some [], ba_locked_hint = Some True, ba_session_signals = True\<rparr>"

lemma boot_none:
  "boot e a s0 = None \<longleftrightarrow>
     \<not> ba_bus a \<or> \<not> ba_powerd_proxy a
     \<or> (\<not> shadow s0 \<and> pc_lid (load_power_conf (ba_conf a)) = lid_mode.Present \<and> \<not> ba_lid_inhibitor a)"
proof -
  let ?s = "clear_stale_request e (boot_conf (load_power_conf (ba_conf a)) (fresh_sys s0))"
  have "wants_lid_inhibitor ?s \<longleftrightarrow>
      \<not> shadow s0 \<and> pc_lid (load_power_conf (ba_conf a)) = lid_mode.Present"
    by (auto simp: wants_lid_inhibitor_def clear_stale_request_def boot_conf_def fresh_sys_def daemon_ctx.defs
        ask_def emit_def Let_def)
  then show ?thesis by (auto simp: boot_def Let_def)
qed

lemma demo_boots:
  "\<exists>s q. boot demo_env (demo_answers None True) (demo_sys sh) = Some (s, q)"
  using boot_none [of demo_env "demo_answers None True" "demo_sys sh"] by (auto simp: demo_answers_def)

lemma demo_boot_fields:
  assumes "boot demo_env (demo_answers None True) (demo_sys False) = Some (s, q)"
  shows "world_state (world s) = fsm_state.Countdown" "\<not> suspend_requested s" "has_session s" "\<not> shadow s"
proof -
  note f = boot_fields [OF assms] and r = boot_request [OF assms]
  have c: "load_power_conf None = default_power_conf" by (simp add: load_power_conf_def)
  have low: "\<not> low_battery s"
    using f(8) by (simp add: demo_answers_def boot_battery_pct_def battery_initial_def c default_power_conf_def
        DEFAULT_BATTERY_LOW_PCT_def f64_of_nat_def)
  then show n: "\<not> suspend_requested s" using r(1) by blast
  have "lid_closed s" "ext_mon_count s = 0" "\<not> inhibitor s" "lid_ac s \<noteq> lid_ac_policy.Defer"
    using f by (auto simp: demo_answers_def c default_power_conf_def demo_env_def ext_monitor_count_in_def or_default_def
        any_client_inhibiting_idle_in_def logind_real_inhibitor_active_def inhibitor_def)
  with n low show "world_state (world s) = fsm_state.Countdown"
    by (simp add: world_def world_state_def claim_governs_def)
  show "has_session s" "\<not> shadow s" using f(6) r(5) by (simp_all add: demo_answers_def demo_sys_fields)
qed

text \<open>A daemon with a lid never runs without logind's lid inhibitor: \<open>run\<close> ends with an error
  exactly when a bus connection fails or when, outside shadow mode and with a lid configured, the
  inhibitor is refused; otherwise it hands a context to the dispatcher.\<close>
lemma boot_needs_the_lid_inhibitor:
  "boot e a s0 = None \<longleftrightarrow>
     \<not> ba_bus a \<or> \<not> ba_powerd_proxy a
     \<or> (\<not> shadow s0 \<and> pc_lid (load_power_conf (ba_conf a)) = lid_mode.Present \<and> \<not> ba_lid_inhibitor a)"
  by (rule boot_none)

text \<open>C1: No daemon, however it was started and whatever happens to it, calls logind's Suspend
  except directly after a lock proof that succeeded: this is the whole daemon, from the power.conf
  and the bus answers at its start over every event it ever handles.\<close>
theorem booted_daemon_suspends_locked:
  assumes "boot e a s0 = Some (s, q0)" and "run e s t q"
    and "i < length (log t)" and "log t ! i = CallSuspend accepted"
  shows "0 < i \<and> log t ! (i - 1) = LiveLocker True"
proof -
  have "\<forall>x \<in> set (log s). \<not> is_suspend x" using boot_request(3) [OF assms(1)] by auto
  moreover have "\<forall>x \<in> set es. \<not> is_suspend x \<Longrightarrow> suspends_proved b es" for es b by (induction es arbitrary: b) auto
  ultimately have "suspends_proved False (log s)" by blast
  moreover have "is_suspend (log t ! i)" using assms(4) by simp
  ultimately show ?thesis using suspends_proved_nth [OF run_suspends_proved_from [OF assms(2)] assms(3)] by blast
qed

theorem booted_daemon_suspends_locked_witness:
  "\<exists>s q0 t. boot demo_env (demo_answers None True) (demo_sys False) = Some (s, q0)
     \<and> run demo_env s t [] \<and> (\<exists>i. i < length (log t) \<and> log t ! i = CallSuspend True \<and> log t ! (i - 1) = LiveLocker True)"
proof -
  obtain s q0 where b: "boot demo_env (demo_answers None True) (demo_sys False) = Some (s, q0)"
    using demo_boots by blast
  let ?s = "start demo_env s"
  let ?f = "?s\<lparr>grace_timer := slept (grace_timer ?s)\<rparr>"
  note v = fsm_viewD [OF view_start [of demo_env s]] and d = demo_boot_fields [OF b]
  have f: "state ?f = fsm_state.Countdown" "world_state (world ?f) = fsm_state.Countdown" "\<not> suspend_requested ?f"
    "has_session ?f" "\<not> shadow ?f"
    using v d by simp_all
  have "run demo_env s ?s []" by (rule run_start) simp
  moreover have "running (grace_timer ?s)" using timed_start [of demo_env s] f by (simp add: timed_def)
  ultimately have "run demo_env s ?f [event.TimerExpired]" using run_expire by fastforce
  then have r: "run demo_env s (turn demo_env event.TimerExpired ?f) []" by (rule run_turn)
  have "state (turn demo_env event.TimerExpired ?f) = fsm_state.Suspending"
    by (rule expiry_completes) (use f in \<open>simp_all add: demo_env_answers\<close>)
  from turn_enters_suspending [OF _ this] f obtain xs ys where
    "log (turn demo_env event.TimerExpired ?f) = log ?f @ xs @ [LiveLocker True, CallSuspend True] @ ys" by auto
  then obtain i where "i < length (log (turn demo_env event.TimerExpired ?f))"
      "log (turn demo_env event.TimerExpired ?f) ! i = CallSuspend True"
    by (metis in_set_conv_nth in_set_conv_decomp append.assoc append_Cons append_Nil)
  with booted_daemon_suspends_locked [OF b r] b r show ?thesis by blast
qed

text \<open>A request left over from before a restart suspends nobody: after the start a request stands
  only if it is the daemon's own, made because the battery is low off the charger, and once the
  stale file could be removed the file holds that request or nothing. A shadow start never
  writes one.\<close>
lemma stale_request_is_dropped:
  assumes "boot e a s0 = Some (s, q)"
  shows "(suspend_requested s \<longrightarrow>
            low_battery s \<and> \<not> on_ac s \<and> request_file s = Some (''battery-low'' @ [newline]))
     \<and> (runtime_dir s0 \<and> q_io e (tick s0) \<longrightarrow>
            request_file s = (if suspend_requested s then Some (''battery-low'' @ [newline]) else None))
     \<and> (shadow s0 \<longrightarrow> WriteRequest \<notin> set (log s))"
  using boot_request [OF assms] by simp

lemma stale_request_is_dropped_witness:
  "\<exists>s q. boot demo_env (demo_answers None True) ((demo_sys False)\<lparr>request_file := Some ''idle''\<rparr>) = Some (s, q)
     \<and> request_file s \<noteq> Some ''idle''"
proof -
  obtain s q where b: "boot demo_env (demo_answers None True) ((demo_sys False)\<lparr>request_file := Some ''idle''\<rparr>) = Some (s, q)"
    using boot_none [of demo_env "demo_answers None True" "(demo_sys False)\<lparr>request_file := Some ''idle''\<rparr>"]
    by (auto simp: demo_answers_def)
  have "runtime_dir (demo_sys False)" "q_io demo_env (tick (demo_sys False))"
    by (simp_all add: demo_sys_def demo_env_def daemon_ctx.defs)
  with stale_request_is_dropped [OF b] have "request_file s \<noteq> Some ''idle''" by (auto simp: newline_def)
  with b show ?thesis by blast
qed



lemma woken_device_quiet:
  assumes "ud_writable d"
  shows "snd (wake_device (woken tracked d) acc) = snd acc"
proof -
  have en: "trim ''enabled'' = ''enabled''" by (rule trim_no_ws) (simp add: is_whitespace_def)
  have r: "snd (wake_record l (ud_wakeup (woken tracked d)) acc) = snd acc" if "tracked d" for l acc
    using that assms en by (cases "ud_wakeup d") (simp_all add: wake_record_def woken_def)
  have "snd (fold (\<lambda>(ids, label) acc. if k = ids then wake_record label (ud_wakeup (woken tracked d)) acc else acc)
      vs acc) = snd acc" if "map_of vs k \<noteq> None \<longrightarrow> tracked d" for vs k acc
    using that by (induction vs arbitrary: acc) (auto simp: r split: if_splits)
  from this [of WAKE_USB_VENDORS] have f: "input_name d \<noteq> None \<longrightarrow> tracked d \<Longrightarrow>
      ud_id_vendor d = Some v \<Longrightarrow> ud_id_product d = Some p \<Longrightarrow>
      snd (fold (\<lambda>(ids, label) acc. if (trim v, trim p) = ids then wake_record label (ud_wakeup (woken tracked d)) acc
        else acc) WAKE_USB_VENDORS acc) = snd acc" for v p
    by (simp add: input_name_def)
  have t: "is_root_hub d \<longrightarrow> tracked d" "input_name d \<noteq> None \<longrightarrow> tracked d" by (simp_all add: tracked_def)
  have same: "ud_name (woken tracked d) = ud_name d" "ud_id_vendor (woken tracked d) = ud_id_vendor d"
    "ud_id_product (woken tracked d) = ud_id_product d" by (simp_all add: woken_def)
  show ?thesis
  proof (cases "is_root_hub d")
    case True
    then show ?thesis using r t(1) by (simp add: wake_device_def same is_root_hub_def)
  next
    case False
    then show ?thesis using f [OF t(2)] by (auto simp: wake_device_def same is_root_hub_def split: option.split)
  qed
qed

text \<open>Hook and daemon agree: after the sleep hook has run on a bus whose wakeup attributes can be
  written, the daemon's startup check warns about none of the devices, at most about the
  controller.\<close>
lemma hook_satisfies_the_startup_check:
  assumes "action = ''pre'' \<or> action = ''post''" and "\<forall>d \<in> set (bus_devices b). ud_writable d"
  shows "set (snd (log_wake_state (snd (run_hook action kern b)))) \<subseteq> {''controller''}"
proof -
  have "snd (fold wake_device (map (woken tracked) ds) acc) = snd acc" if "\<forall>d \<in> set ds. ud_writable d" for ds acc
    using that by (induction ds arbitrary: acc) (simp_all add: woken_device_quiet)
  then have "snd (log_wake_state (snd (run_hook action kern b)))
      = snd (wake_record ''controller'' (Option.bind (bus_controller (snd (run_hook action kern b))) ud_wakeup) ([], []))"
    using assms(2) by (simp add: log_wake_state_def run_hook_devices [OF assms(1)])
  then show ?thesis by (auto simp: wake_record_def split: option.split)
qed

lemma hook_satisfies_the_startup_check_witness:
  "set (snd (log_wake_state (snd (run_hook ''pre'' (\<lambda>k. \<lparr>ka_unbind = True, ka_bound_after_unbind = False,
     ka_bind = True, ka_bound_after_bind = True\<rparr>) demo_bus)))) \<subseteq> {''controller''}"
  by (rule hook_satisfies_the_startup_check) (simp_all add: demo_bus_def)

end
