(* ===== verification/Telemetry.thy ===== *)
theory Telemetry
  imports Machine
begin

text \<open>
  The telemetry emitter of \<open>src/daemon/telemetry.rs\<close> and the frames the dispatcher hands it. The
  socket is seen from the daemon: which clients are waiting to be accepted and whether a write
  succeeds are arguments, the frames written are a list. The hasher is an argument too: the
  standard library leaves its algorithm open.
\<close>

unbundle bit_operations_syntax

section \<open>Frames\<close>

record frame_ctx =
  fc_lid_closed :: bool
  fc_ext_mon_count :: u32
  fc_inhibitor :: bool
  fc_locked :: bool
  fc_on_ac :: bool
  fc_low_battery :: bool
  fc_power_base :: string
  fc_desired_profile :: string
  fc_applied_profile :: string
  fc_active_profile :: string

record telemetry_frame =
  tf_version :: u32
  tf_ts :: nat
  tf_kind :: string
  tf_from :: string
  tf_event :: string
  tf_to :: string
  tf_ctx :: frame_ctx
  tf_effectors :: "string list"

definition TELEMETRY_VERSION :: u32 where "TELEMETRY_VERSION = 2"

definition from_context :: "'p sys \<Rightarrow> frame_ctx" where
  "from_context s =
     (let base = power_base_state (on_ac_settled s) (ext_mon_count s) (low_battery s);
          desired = (case power_override s of Some p \<Rightarrow> p | None \<Rightarrow> for_base (power_policy s) base)
      in \<lparr>fc_lid_closed = lid_closed s, fc_ext_mon_count = ext_mon_count s,
          fc_inhibitor = inhibitor s, fc_locked = locked s, fc_on_ac = on_ac_settled s,
          fc_low_battery = low_battery s, fc_power_base = base_state_as_str base,
          fc_desired_profile = power_profile_as_str desired,
          fc_applied_profile = (case power_applied s of Some p \<Rightarrow> power_profile_as_str p | None \<Rightarrow> []),
          fc_active_profile = or_default [] (current_profile s)\<rparr>)"

definition help_frame ::
  "nat \<Rightarrow> 'p sys \<Rightarrow> string \<Rightarrow> string \<Rightarrow> fsm_state \<Rightarrow> fsm_state \<Rightarrow> string list \<Rightarrow> telemetry_frame" where
  "help_frame now s kind event from target effectors =
     \<lparr>tf_version = TELEMETRY_VERSION, tf_ts = now, tf_kind = kind, tf_from = state_as_str from,
      tf_event = event, tf_to = state_as_str target, tf_ctx = from_context s, tf_effectors = effectors\<rparr>"

text \<open>What is hashed, in order; the time stamp is not.\<close>

datatype hashed = HBool bool | HU32 u32 | HStr string

definition ctx_items :: "frame_ctx \<Rightarrow> hashed list" where
  "ctx_items c = [HBool (fc_lid_closed c), HU32 (fc_ext_mon_count c), HBool (fc_inhibitor c),
     HBool (fc_locked c), HBool (fc_on_ac c), HBool (fc_low_battery c), HStr (fc_power_base c),
     HStr (fc_desired_profile c), HStr (fc_applied_profile c), HStr (fc_active_profile c)]"

definition head_items :: "telemetry_frame \<Rightarrow> hashed list" where
  "head_items f = [HStr (tf_kind f), HStr (tf_from f), HStr (tf_event f), HStr (tf_to f)]
     @ map HStr (tf_effectors f)"

definition fingerprint :: "(hashed list \<Rightarrow> u64) \<Rightarrow> telemetry_frame \<Rightarrow> u64" where
  "fingerprint digest f = digest (ctx_items (tf_ctx f)) XOR digest (head_items f)"

section \<open>The emitter\<close>

record emitter =
  em_listener :: bool
  em_stream :: "nat option"
  em_last_fp :: "u64 option"
  em_written :: "(nat \<times> telemetry_frame) list"

definition bind_listener :: "string \<Rightarrow> bool \<Rightarrow> bool \<Rightarrow> bool" where
  "bind_listener path bound nonblocking =
     (if \<not> starts_with ''/'' path then False else bound \<and> nonblocking)"

definition new_emitter :: "string \<Rightarrow> bool \<Rightarrow> bool \<Rightarrow> emitter" where
  "new_emitter path bound nonblocking =
     \<lparr>em_listener = bind_listener path bound nonblocking, em_stream = None, em_last_fp = None, em_written = []\<rparr>"

text \<open>The path of the socket, by the number of the daemon whose listener is bound there: \<open>new\<close> takes
  the path from whoever holds it, and the drop of an emitter removes whatever stands at its path. Both
  happen in shadow mode too, on the path of the live daemon.\<close>

definition socket_new :: "nat \<Rightarrow> string \<Rightarrow> bool \<Rightarrow> nat option \<Rightarrow> nat option" where
  "socket_new me path bound owner =
     (if \<not> starts_with ''/'' path then owner else if bound then Some me else None)"

definition socket_drop :: "nat option \<Rightarrow> nat option" where
  "socket_drop owner = None"

lemma second_daemon_ends_the_socket:
  assumes "starts_with ''/'' path"
  shows "socket_new 2 path True (Some 1) = Some 2" "socket_drop (socket_new 2 path bound (Some 1)) \<noteq> Some 1"
  using assms by (simp_all add: socket_new_def socket_drop_def)

text \<open>A waiting client is its number and whether its socket could be made non-blocking.\<close>

fun accept_clients :: "(nat \<times> bool) list \<Rightarrow> emitter \<Rightarrow> emitter" where
  "accept_clients [] em = em"
| "accept_clients ((c, nonblocking) # cs) em =
     accept_clients cs (if nonblocking then em\<lparr>em_stream := Some c\<rparr> else em)"

definition emit_frame :: "(nat \<times> bool) list \<Rightarrow> bool \<Rightarrow> telemetry_frame \<Rightarrow> emitter \<Rightarrow> bool \<times> emitter" where
  "emit_frame pending written f em =
     (let em = (if em_listener em then accept_clients pending em else em) in
      case em_stream em of
        None \<Rightarrow> (False, em)
      | Some c \<Rightarrow>
          if written then (True, em\<lparr>em_written := em_written em @ [(c, f)]\<rparr>)
          else (False, em\<lparr>em_stream := None, em_last_fp := None\<rparr>))"

definition emit_if_changed ::
  "(hashed list \<Rightarrow> u64) \<Rightarrow> (nat \<times> bool) list \<Rightarrow> bool \<Rightarrow> telemetry_frame \<Rightarrow> emitter \<Rightarrow> emitter" where
  "emit_if_changed digest pending written f em =
     (let fp = fingerprint digest f in
      if em_last_fp em = Some fp then em
      else let (sent, em) = emit_frame pending written f em in
        if sent then em\<lparr>em_last_fp := Some fp\<rparr> else em)"

section \<open>What the dispatcher reports\<close>

text \<open>One call of \<open>emit_help\<close>: the context it is given and its other arguments.\<close>

record 'p help_call =
  hc_sys :: "'p sys"
  hc_kind :: string
  hc_event :: string
  hc_from :: fsm_state
  hc_to :: fsm_state
  hc_effectors :: "string list"

definition snapshot_help :: "'p sys \<Rightarrow> string \<Rightarrow> string \<Rightarrow> string list \<Rightarrow> 'p help_call" where
  "snapshot_help s kind event effectors =
     \<lparr>hc_sys = s, hc_kind = kind, hc_event = event, hc_from = state s, hc_to = state s, hc_effectors = effectors\<rparr>"

definition evaluate_help :: "'p env \<Rightarrow> event_kind \<Rightarrow> string \<Rightarrow> 'p sys \<Rightarrow> 'p help_call" where
  "evaluate_help e kind label s =
     (let t = evaluate_fsms e kind label s; from = state s in
      case desired_state (state s) kind (world s) of
        None \<Rightarrow> \<lparr>hc_sys = t, hc_kind = ''ctx'', hc_event = label, hc_from = from, hc_to = state t, hc_effectors = []\<rparr>
      | Some new \<Rightarrow>
          if new = state s
          then \<lparr>hc_sys = t, hc_kind = ''ctx'', hc_event = label, hc_from = from, hc_to = state t, hc_effectors = []\<rparr>
          else
            (let s = emit (Transition (state s) new label) s;
                 entered = (if new = fsm_state.Suspending then fst (on_enter e new Fresh s)
                            else fst (on_enter e new Fresh (s\<lparr>state := new\<rparr>)))
             in \<lparr>hc_sys = t, hc_kind = ''transition'', hc_event = label, hc_from = from, hc_to = state t,
                 hc_effectors = (if entered then on_enter_effector_names new t
                                 else [''request_lock'', ''start_grace_timer''])\<rparr>))"

definition tick_help :: "'p env \<Rightarrow> reconcile_snapshot \<Rightarrow> 'p sys \<Rightarrow> 'p help_call list" where
  "tick_help e snap s =
     (let (fsm_drift, power_drift, s1) = repair_snapshot snap s;
          s2 = (if power_drift then repair_power e s1 else s1);
          s3 = (if fsm_drift then evaluate_fsms e event_kind.CtxRepaired ''CtxRepaired'' s2 else s2);
          first = (if fsm_drift then [evaluate_help e event_kind.CtxRepaired ''CtxRepaired'' s2] else [])
      in if state s3 = fsm_state.Suspending then first
         else first @ [snapshot_help (handle_reconcile_tick e snap s) ''snapshot'' ''ReconcileTick'' []])"

definition dispatch_help :: "'p env \<Rightarrow> event \<Rightarrow> 'p sys \<Rightarrow> 'p help_call list" where
  "dispatch_help e ev s =
     (let kind = event_kind_of ev; label = event_label ev;
          (falls, s1) = route_event e ev s
      in if falls
         then (let s2 = before_fsms e kind label s1
               in (if power_gate kind then [snapshot_help s2 ''ctx'' label []] else [])
                  @ [evaluate_help e kind label s2])
         else case ev of
             ReconcileTick snap \<Rightarrow> tick_help e snap s
           | event.MonitorsChanged \<Rightarrow> [snapshot_help s1 ''snapshot'' ''MonitorsChanged'' []]
           | _ \<Rightarrow> [])"

section \<open>Facts\<close>

lemma accept_clients_keeps:
  "em_last_fp (accept_clients cs em) = em_last_fp em" "em_written (accept_clients cs em) = em_written em"
  "em_listener (accept_clients cs em) = em_listener em"
  by (induction cs em rule: accept_clients.induct) auto

text \<open>A remembered fingerprint is that of the last frame written.\<close>

definition fp_inv :: "(hashed list \<Rightarrow> u64) \<Rightarrow> emitter \<Rightarrow> bool" where
  "fp_inv digest em \<longleftrightarrow> (case em_last_fp em of
       None \<Rightarrow> True
     | Some fp \<Rightarrow> em_written em \<noteq> [] \<and> fingerprint digest (snd (last (em_written em))) = fp)"

lemma fp_inv_emit: "fp_inv digest em \<Longrightarrow> fp_inv digest (emit_if_changed digest pending written f em)"
  by (auto simp: fp_inv_def emit_if_changed_def emit_frame_def accept_clients_keeps Let_def split: option.splits)

lemma fp_inv_new: "fp_inv digest (new_emitter path bound nonblocking)"
  by (simp add: fp_inv_def new_emitter_def)

definition emits ::
  "(hashed list \<Rightarrow> u64) \<Rightarrow> ((nat \<times> bool) list \<times> bool \<times> telemetry_frame) list \<Rightarrow> emitter \<Rightarrow> emitter" where
  "emits digest calls em = fold (\<lambda>(pending, written, f). emit_if_changed digest pending written f) calls em"

lemma fp_inv_emits: "fp_inv digest em \<Longrightarrow> fp_inv digest (emits digest calls em)"
  unfolding emits_def by (induction calls arbitrary: em) (auto simp: fp_inv_emit)

lemma no_listener_silent:
  "\<not> em_listener em \<Longrightarrow> em_stream em = None \<Longrightarrow>
     emit_if_changed digest pending written f em = em"
  by (simp add: emit_if_changed_def emit_frame_def Let_def)

lemma on_enter_entered: "st \<noteq> fsm_state.Suspending \<Longrightarrow> fst (on_enter e st en s)"
  by (cases st) (simp_all add: on_enter_def Let_def)

text \<open>The steps after the evaluation leave the main state.\<close>

lemma state_tick_tail:
  "state (stuck_dpms_backstop e snap (reassert_edp e snap (snd (ingest_active_profile e t)))) = state t"
  using same_timer_tail [of t e snap] by (simp add: same_timer_def)

lemma evaluate_help_transition:
  assumes "state (evaluate_fsms e kind label s) \<noteq> state s"
  shows "hc_kind (evaluate_help e kind label s) = ''transition''"
    and "hc_from (evaluate_help e kind label s) = state s"
    and "hc_to (evaluate_help e kind label s) = state (evaluate_fsms e kind label s)"
    and "hc_effectors (evaluate_help e kind label s)
      = on_enter_effector_names (state (evaluate_fsms e kind label s)) (evaluate_fsms e kind label s)"
    and "hc_event (evaluate_help e kind label s) = label"
  using assms on_enter_entered
  by (auto simp: evaluate_help_def evaluate_fsms_def Let_def split_beta on_enter_fields start_grace_fields
      split: option.splits if_splits)

section \<open>Properties\<close>

text \<open>C33: Nothing moves unseen: in every turn that changes the main state, the dispatcher hands the
  emitter a transition frame from the state before to the state after, with the event's label.\<close>
theorem every_state_change_is_reported:
  assumes "state (turn e ev s) \<noteq> state s"
  shows "\<exists>h \<in> set (dispatch_help e ev s). hc_kind h = ''transition''
     \<and> hc_event h = (if is_tick ev then ''CtxRepaired'' else event_label ev)
     \<and> hc_from h = state s \<and> hc_to h = state (turn e ev s)"
proof (cases "is_tick ev")
  case True
  then obtain snap where ev: "ev = ReconcileTick snap" by (cases ev) (simp_all add: is_tick_def)
  let ?r = "repair_snapshot snap s"
  let ?s2 = "if fst (snd ?r) then repair_power e (snd (snd ?r)) else snd (snd ?r)"
  let ?v = "evaluate_fsms e event_kind.CtxRepaired ''CtxRepaired'' ?s2"
  have s2: "state ?s2 = state s"
    using state_repair_snapshot [of s snap] same_timer_repair_power [of "snd (snd ?r)" e]
    by (simp add: same_timer_def)
  have t: "state (turn e ev s) = (if fst ?r then state ?v else state ?s2)"
    by (simp add: ev turn_unfold route_event_def state_world_sync_waybar handle_reconcile_tick_def Let_def split_beta
        state_tick_tail)
  with assms s2 have d: "fst ?r" "state ?v \<noteq> state ?s2" by (auto split: if_splits)
  have "evaluate_help e event_kind.CtxRepaired ''CtxRepaired'' ?s2 \<in> set (dispatch_help e ev s)"
    using d(1) by (simp add: ev dispatch_help_def route_event_def tick_help_def Let_def split_beta)
  moreover note evaluate_help_transition(1-3,5) [OF d(2)]
  ultimately show ?thesis using s2 t d(1) True by (intro bexI) simp_all
next
  case False
  let ?r = "route_event e ev s"
  let ?b = "before_fsms e (event_kind_of ev) (event_label ev) (snd ?r)"
  have b: "state ?b = state s" using state_route [OF False, of e s] by (simp add: state_before_fsms)
  have t: "state (turn e ev s) = (if fst ?r then state (evaluate_fsms e (event_kind_of ev) (event_label ev) ?b) else state s)"
    using state_route [OF False, of e s] by (simp add: turn_unfold state_world_sync_waybar)
  with assms b have d: "fst ?r" "state (evaluate_fsms e (event_kind_of ev) (event_label ev) ?b) \<noteq> state ?b"
    by (auto split: if_splits)
  have "evaluate_help e (event_kind_of ev) (event_label ev) ?b \<in> set (dispatch_help e ev s)"
    using d(1) by (simp add: dispatch_help_def Let_def split_beta)
  moreover note evaluate_help_transition(1-3,5) [OF d(2)]
  ultimately show ?thesis using b t d(1) False by (intro bexI) simp_all
qed

theorem every_state_change_is_reported_witness:
  "\<exists>h \<in> set (dispatch_help demo_env event.TimerExpired (demo_fired False)).
     hc_from h = fsm_state.Countdown \<and> hc_to h = fsm_state.Suspending"
  using every_state_change_is_reported [of demo_env event.TimerExpired "demo_fired False"] demo_suspends [of False]
  by (auto simp: demo_fired_fields)

text \<open>A client that connects late waits for a change: once a frame has been written, every later
  call with the same content writes nothing and does not even accept the clients that are waiting,
  however many there are and whatever the time, so a second observer gets no snapshot until the
  daemon's context moves.\<close>
lemma late_client_waits_for_a_change:
  assumes "em' = emit_if_changed digest pending True f em" and "em_written em' \<noteq> em_written em"
  shows "emits digest (map (\<lambda>(cs, ok, t). (cs, ok, f\<lparr>tf_ts := t\<rparr>)) later) em' = em'"
proof -
  have fp: "fingerprint digest (f\<lparr>tf_ts := t\<rparr>) = fingerprint digest f" for t
    by (simp add: fingerprint_def head_items_def)
  have "em_last_fp em' = Some (fingerprint digest f)"
    using assms by (auto simp: emit_if_changed_def emit_frame_def accept_clients_keeps Let_def split: option.splits if_splits)
  then show ?thesis
    by (induction later) (auto simp: emits_def emit_if_changed_def fp)
qed

definition demo_frame :: telemetry_frame where
  "demo_frame = help_frame 0 (demo_fired False) ''snapshot'' ''Startup'' fsm_state.Countdown fsm_state.Countdown []"

lemma late_client_waits_for_a_change_witness:
  "em_written (emits (\<lambda>_. 7) [([(1, True)], True, demo_frame), ([(2, True)], True, demo_frame\<lparr>tf_ts := 5\<rparr>)]
       (new_emitter ''/run/sock'' True True)) = [(1, demo_frame)]"
proof -
  let ?em = "emit_if_changed (\<lambda>_. 7) [(1, True)] True demo_frame (new_emitter ''/run/sock'' True True)"
  have w: "em_written ?em = [(1, demo_frame)]"
    by (simp add: emit_if_changed_def emit_frame_def new_emitter_def bind_listener_def starts_with_def)
  have "emits (\<lambda>_. 7) (map (\<lambda>(cs, ok, t). (cs, ok, demo_frame\<lparr>tf_ts := t\<rparr>)) [([(2, True)], True, 5)]) ?em = ?em"
    by (rule late_client_waits_for_a_change [OF refl]) (unfold w, simp add: new_emitter_def)
  with w show ?thesis by (simp add: emits_def)
qed

end
