(* ===== verification/WaylandIdle.thy ===== *)
theory WaylandIdle
  imports Boot
begin

text \<open>
  Typing detection, \<open>src/daemon/sources/wayland_idle.rs\<close>: where the compositor's socket is, how a
  connection is made, the read loop of one session and the task that reconnects. The Wayland
  library is seen through its answers: what a dispatch delivers, whether a call fails.
\<close>

section \<open>The socket\<close>

definition is_absolute :: "string \<Rightarrow> bool" where
  "is_absolute p = starts_with ''/'' p"

definition socket_from_lock :: "string \<Rightarrow> string \<Rightarrow> string option" where
  "socket_from_lock lock runtime =
     (let ls = lines lock in
      if length ls < 2 then None
      else let name = trim (ls ! 1) in
        if name = [] then None
        else Some (if is_absolute name then name else path_join runtime name))"

text \<open>\<open>instance\<close> is what \<open>hypr_ipc::instance_dir\<close> finds: the instance directory with its grandparent,
  when it has one.\<close>

definition live_wayland_socket :: "(string \<times> string option) option \<Rightarrow> string \<Rightarrow> filesystem \<Rightarrow> string option" where
  "live_wayland_socket inst lock_name fs =
     Option.bind inst (\<lambda>(dir, grandparent).
     Option.bind (fs_file fs (path_join dir lock_name)) (\<lambda>lock.
     Option.bind grandparent (socket_from_lock lock)))"

section \<open>Connecting\<close>

record connect_answers =
  ca_connect :: "string option \<Rightarrow> bool"
  ca_registry :: bool
  ca_seat :: bool
  ca_notifier :: "u32 option"
  ca_flush :: bool
  ca_fd :: bool

datatype connect_error = ConnectFailed | RegistryFailed | NoSeat | NoNotifier | FlushFailed | FdFailed

text \<open>A session, or the first step that failed; the flag says that the request ignores inhibitors.\<close>

definition connect_session :: "string option \<Rightarrow> connect_answers \<Rightarrow> connect_error + bool" where
  "connect_session socket a =
     (if \<not> ca_connect a socket then Inl ConnectFailed
      else if \<not> ca_registry a then Inl RegistryFailed
      else if \<not> ca_seat a then Inl NoSeat
      else case ca_notifier a of
          None \<Rightarrow> Inl NoNotifier
        | Some version \<Rightarrow>
            let input_idle = (version \<ge> 2) in
            if \<not> ca_flush a then Inl FlushFailed
            else if \<not> ca_fd a then Inl FdFailed
            else Inr input_idle)"

definition idle_timeout_ms :: "duration \<Rightarrow> u32" where
  "idle_timeout_ms idle = of_nat (min (idle div 1000000) (2 ^ 32 - 1))"

section \<open>The session loop\<close>

datatype wayland_event = Idled | ResumedInput | OtherEvent

fun pending_of :: "wayland_event list \<Rightarrow> bool list" where
  "pending_of [] = []"
| "pending_of (Idled # evs) = True # pending_of evs"
| "pending_of (ResumedInput # evs) = False # pending_of evs"
| "pending_of (OtherEvent # evs) = pending_of evs"

text \<open>One pass of the loop: what \<open>dispatch_pending\<close> delivers (or its failure), how many sends the
  dispatcher still takes, whether the read can be prepared, and how flush, poll and read end.\<close>

datatype read_result = ReadOk | ReadWouldBlock | ReadFailed

record loop_pass =
  lp_dispatch :: "wayland_event list option"
  lp_sends :: "nat \<Rightarrow> bool"
  lp_prepared :: bool
  lp_flush :: bool
  lp_poll :: bool
  lp_read :: read_result

datatype loop_end = LoopClosed | LoopWayland

fun send_idle :: "(nat \<Rightarrow> bool) \<Rightarrow> nat \<Rightarrow> bool list \<Rightarrow> event list \<times> bool" where
  "send_idle ok k [] = ([], True)"
| "send_idle ok k (b # bs) =
     (if ok k then (let (evs, alive) = send_idle ok (Suc k) bs in (KbdIdle b # evs, alive)) else ([], False))"

definition loop_step :: "loop_pass \<Rightarrow> event list \<times> loop_end option" where
  "loop_step p = (case lp_dispatch p of
       None \<Rightarrow> ([], Some LoopWayland)
     | Some wevs \<Rightarrow>
         let (evs, alive) = send_idle (lp_sends p) 0 (pending_of wevs) in
         if \<not> alive then (evs, Some LoopClosed)
         else if \<not> lp_prepared p then (evs, None)
         else if \<not> lp_flush p then (evs, Some LoopWayland)
         else if \<not> lp_poll p then (evs, Some LoopWayland)
         else (case lp_read p of
             ReadOk \<Rightarrow> (evs, None)
           | ReadWouldBlock \<Rightarrow> (evs, None)
           | ReadFailed \<Rightarrow> (evs, Some LoopWayland)))"

fun run_session :: "loop_pass list \<Rightarrow> event list \<times> loop_end option" where
  "run_session [] = ([], None)"
| "run_session (p # ps) =
     (case loop_step p of
        (evs, Some end_) \<Rightarrow> (evs, Some end_)
      | (evs, None) \<Rightarrow> (let (evs', r) = run_session ps in (evs @ evs', r)))"

text \<open>The task: connect, run, reconnect after anything but the end of the dispatcher. An attempt is
  the connection's outcome with the passes of its session; the result says whether the task is
  over.\<close>

fun idle_notify_task :: "((connect_error + bool) \<times> loop_pass list) list \<Rightarrow> event list \<times> bool" where
  "idle_notify_task [] = ([], False)"
| "idle_notify_task ((Inl _, _) # as) = idle_notify_task as"
| "idle_notify_task ((Inr _, ps) # as) =
     (let (evs, r) = run_session ps in
      if r = Some LoopClosed then (evs, True)
      else (let (evs', over) = idle_notify_task as in (evs @ evs', over)))"

section \<open>Facts\<close>

lemma send_idle_all: "(\<And>k. ok k) \<Longrightarrow> send_idle ok k bs = (map KbdIdle bs, True)"
  by (induction bs arbitrary: k) auto

lemma send_idle_prefix: "\<exists>n. fst (send_idle ok k bs) = map KbdIdle (take n bs)"
proof (induction bs arbitrary: k)
  case (Cons b bs)
  then obtain n where "fst (send_idle ok (Suc k) bs) = map KbdIdle (take n bs)" by blast
  then show ?case
    by (cases "ok k") (auto simp: split_beta intro: exI [of _ "Suc n"] exI [of _ 0])
qed simp

text \<open>The passes of a session that the loop gets to: up to and with the first that ends it.\<close>

fun reached :: "loop_pass list \<Rightarrow> loop_pass list" where
  "reached [] = []"
| "reached (p # ps) = (if snd (loop_step p) = None then p # reached ps else [p])"

definition delivered :: "loop_pass \<Rightarrow> bool list" where
  "delivered p = (case lp_dispatch p of None \<Rightarrow> [] | Some wevs \<Rightarrow> pending_of wevs)"

lemma loop_step_alive:
  assumes "\<And>k. lp_sends p k"
  shows "fst (loop_step p) = map KbdIdle (delivered p)" "snd (loop_step p) \<noteq> Some LoopClosed"
  using assms by (auto simp: loop_step_def delivered_def send_idle_all Let_def split: option.split read_result.split)

lemma run_session_alive:
  assumes "\<forall>p \<in> set ps. \<forall>k. lp_sends p k"
  shows "fst (run_session ps) = map KbdIdle (concat (map delivered (reached ps)))
     \<and> snd (run_session ps) \<noteq> Some LoopClosed"
  using assms
proof (induction ps)
  case (Cons p ps)
  then have "lp_sends p k" for k by simp
  note p = loop_step_alive [OF this]
  with Cons show ?case by (cases "loop_step p"; cases "snd (loop_step p)") (auto simp: Let_def split_beta)
qed simp

definition session_passes :: "(connect_error + bool) \<times> loop_pass list \<Rightarrow> loop_pass list" where
  "session_passes a = (case fst a of Inl _ \<Rightarrow> [] | Inr _ \<Rightarrow> reached (snd a))"

section \<open>Properties\<close>

text \<open>The keyboard policy hears exactly what the compositor says: as long as the dispatcher lives,
  over any number of sessions, failed connections and lost ones, the task sends one event for
  every idle edge a session delivered before it broke, in order, and never ends by itself.\<close>
lemma idle_edges_are_passed_on:
  assumes "\<forall>a \<in> set attempts. \<forall>p \<in> set (snd a). \<forall>k. lp_sends p k"
  shows "idle_notify_task attempts
     = (map KbdIdle (concat (map delivered (concat (map session_passes attempts)))), False)"
  using assms
proof (induction attempts)
  case (Cons a as)
  obtain c ps where a: "a = (c, ps)" by fastforce
  have r: "fst (run_session ps) = map KbdIdle (concat (map delivered (reached ps)))"
    "snd (run_session ps) \<noteq> Some LoopClosed"
    using run_session_alive [of ps] Cons.prems by (auto simp: a)
  from Cons have IH: "idle_notify_task as
      = (map KbdIdle (concat (map delivered (concat (map session_passes as)))), False)" by simp
  have sp: "session_passes (c, ps) = (case c of Inl _ \<Rightarrow> [] | Inr _ \<Rightarrow> reached ps)"
    by (cases c) (simp_all add: session_passes_def)
  show ?case
  proof (cases c)
    case (Inl x)
    then show ?thesis using sp by (simp add: a IH)
  next
    case (Inr v)
    then show ?thesis using r sp by (simp add: a IH Let_def split_beta)
  qed
qed simp

definition demo_pass :: "wayland_event list option \<Rightarrow> loop_pass" where
  "demo_pass d = \<lparr>lp_dispatch = d, lp_sends = (\<lambda>_. True), lp_prepared = True, lp_flush = True, lp_poll = True,
     lp_read = ReadOk\<rparr>"

lemma idle_edges_are_passed_on_witness:
  "idle_notify_task [(Inr True, [demo_pass (Some [ResumedInput]), demo_pass None, demo_pass (Some [ResumedInput])]),
       (Inl NoSeat, []), (Inr True, [demo_pass (Some [OtherEvent, Idled])])]
     = ([KbdIdle False, KbdIdle True], False)"
proof -
  let ?as = "[(Inr True, [demo_pass (Some [ResumedInput]), demo_pass None, demo_pass (Some [ResumedInput])]),
       (Inl NoSeat, []), (Inr True, [demo_pass (Some [OtherEvent, Idled])])]"
  have "idle_notify_task ?as
      = (map KbdIdle (concat (map delivered (concat (map session_passes ?as)))), False)"
    by (rule idle_edges_are_passed_on) (auto simp: demo_pass_def)
  then show ?thesis by (simp add: session_passes_def delivered_def demo_pass_def loop_step_def)
qed

text \<open>The idle time the administrator configured is the one the compositor is asked for: after any
  start of the daemon the milliseconds of the request are a thousand times the configured seconds,
  between one second and ten minutes, never cut off.\<close>
lemma idle_timeout_is_the_configured_one:
  assumes "boot e a s0 = Some (s, q)"
  shows "unat (idle_timeout_ms (kbd_idle s)) = 1000 * unat (pc_kbd_idle_secs (load_power_conf (ba_conf a)))
     \<and> 1000 \<le> unat (idle_timeout_ms (kbd_idle s)) \<and> unat (idle_timeout_ms (kbd_idle s)) \<le> 600000"
proof -
  let ?n = "unat (pc_kbd_idle_secs (load_power_conf (ba_conf a)))"
  have n: "1 \<le> ?n" "?n \<le> 600" using conf_ok_loaded [of "ba_conf a"] by (simp_all add: conf_ok_def)
  have "kbd_idle s = secs ?n" by (rule boot_kbd_idle [OF assms])
  then have "idle_timeout_ms (kbd_idle s) = of_nat (1000 * ?n)"
    using n by (simp add: idle_timeout_ms_def secs_def min_def)
  moreover have "unat (of_nat m :: u32) = m" if "m < 2 ^ 32" for m
    using that by (simp add: unsigned_of_nat take_bit_nat_eq_self)
  moreover have "1000 * ?n < 2 ^ 32" using n(2) by simp
  ultimately have "unat (idle_timeout_ms (kbd_idle s)) = 1000 * ?n" by metis
  then show ?thesis using n by simp
qed

lemma idle_timeout_is_the_configured_one_witness:
  "\<exists>s q. boot demo_env (demo_answers None True) (demo_sys False) = Some (s, q)
     \<and> unat (idle_timeout_ms (kbd_idle s)) = 10000"
proof -
  obtain s q where b: "boot demo_env (demo_answers None True) (demo_sys False) = Some (s, q)"
    using demo_boots by blast
  from idle_timeout_is_the_configured_one [OF b] b show ?thesis
    by (auto simp: load_power_conf_def default_power_conf_def demo_answers_def DEFAULT_KBD_IDLE_SECS_def)
qed

end
