(* ===== verification/ProfileCycle.thy ===== *)
theory ProfileCycle
  imports Machine
begin

text \<open>
  A monitor profile from its selection to rest: \<open>handle_monitors_changed\<close> of
  \<open>src/daemon/dispatcher.rs\<close> with \<open>apply_profile\<close> and \<open>ingest_active_profile\<close> of
  \<open>src/daemon/effectors.rs\<close>. Applying a profile makes the compositor report changes of its own
  (\<open>MonitorsChanged\<close>, \<open>ConfigReloaded\<close>, \<open>ProfileApplied\<close>, hotplugs, reconcile passes); what is
  shown here is that none of them applies it again.
\<close>

section \<open>What belongs to the profile\<close>

fun profile_effect :: "effect \<Rightarrow> bool" where
  "profile_effect (RepointProfile _) = True"
| "profile_effect (Worker (CmdApplyProfile _)) = True"
| "profile_effect (Dropped (CmdApplyProfile _)) = True"
| "profile_effect (Worker (RunHook _)) = True"
| "profile_effect (Dropped (RunHook _)) = True"
| "profile_effect _ = False"

definition profile_view ::
  "'p sys \<Rightarrow> string option \<times> string option \<times> 'p monitor_profile option \<times> edp_policy \<times> effect list" where
  "profile_view s = (active_link s, current_profile s, active_profile_rev s, edp_policy s, filter profile_effect (log s))"

named_theorems profile_frame \<open>operations that leave the profile alone\<close>

lemma profile_view_emit [simp]: "\<not> profile_effect x \<Longrightarrow> profile_view (emit x s) = profile_view s"
  by (simp add: profile_view_def)

lemma profile_view_update [simp]:
  "profile_view (s\<lparr>tick := n\<rparr>) = profile_view s" "profile_view (s\<lparr>state := st\<rparr>) = profile_view s"
  "profile_view (s\<lparr>grace_timer := g\<rparr>) = profile_view s" "profile_view (s\<lparr>claim_watch := g\<rparr>) = profile_view s"
  "profile_view (s\<lparr>profile_debounce := g\<rparr>) = profile_view s" "profile_view (s\<lparr>power_debounce := g\<rparr>) = profile_view s"
  "profile_view (s\<lparr>waybar_seen := wv\<rparr>) = profile_view s" "profile_view (s\<lparr>dgpu_pinned := dp\<rparr>) = profile_view s"
  "profile_view (s\<lparr>power_applied := pa\<rparr>) = profile_view s" "profile_view (s\<lparr>self_writes := sw\<rparr>) = profile_view s"
  "profile_view (s\<lparr>powerd_available := b\<rparr>) = profile_view s" "profile_view (s\<lparr>powerd_warned := b\<rparr>) = profile_view s"
  "profile_view (s\<lparr>power_override := pa\<rparr>) = profile_view s" "profile_view (s\<lparr>power_override_base := pb\<rparr>) = profile_view s"
  "profile_view (s\<lparr>power_last_base := pb\<rparr>) = profile_view s" "profile_view (s\<lparr>override_file := f\<rparr>) = profile_view s"
  "profile_view (s\<lparr>request_file := f\<rparr>) = profile_view s" "profile_view (s\<lparr>suspend_requested := b\<rparr>) = profile_view s"
  "profile_view (s\<lparr>brightness_set := bs\<rparr>) = profile_view s" "profile_view (s\<lparr>brightness_saved := bs\<rparr>) = profile_view s"
  "profile_view (s\<lparr>brightness_dev := f\<rparr>) = profile_view s" "profile_view (s\<lparr>brightness_max := u\<rparr>) = profile_view s"
  "profile_view (s\<lparr>kbd_applied := bs\<rparr>) = profile_view s" "profile_view (s\<lparr>kbd_led := kl\<rparr>) = profile_view s"
  "profile_view (s\<lparr>kbd_als := f\<rparr>) = profile_view s" "profile_view (s\<lparr>kbd_dark := b\<rparr>) = profile_view s"
  "profile_view (s\<lparr>kbd_last_lux := lx\<rparr>) = profile_view s" "profile_view (s\<lparr>kbd_override := b\<rparr>) = profile_view s"
  "profile_view (s\<lparr>kbd_marker := b\<rparr>) = profile_view s" "profile_view (s\<lparr>kbd_level := lv\<rparr>) = profile_view s"
  "profile_view (s\<lparr>kbd_sleeping := b\<rparr>) = profile_view s" "profile_view (s\<lparr>kbd_typing := b\<rparr>) = profile_view s"
  "profile_view (s\<lparr>gpu_actual := ga\<rparr>) = profile_view s" "profile_view (s\<lparr>gpu_actual_pending := b\<rparr>) = profile_view s"
  "profile_view (s\<lparr>gpu_last_notified := f\<rparr>) = profile_view s" "profile_view (s\<lparr>gpu_last_notify_at := la\<rparr>) = profile_view s"
  "profile_view (s\<lparr>lid_closed := b\<rparr>) = profile_view s" "profile_view (s\<lparr>logind_inhibitor := b\<rparr>) = profile_view s"
  "profile_view (s\<lparr>wayland_inhibitor := b\<rparr>) = profile_view s" "profile_view (s\<lparr>locked := b\<rparr>) = profile_view s"
  "profile_view (s\<lparr>on_ac := b\<rparr>) = profile_view s" "profile_view (s\<lparr>on_ac_settled := b\<rparr>) = profile_view s"
  "profile_view (s\<lparr>low_battery := b\<rparr>) = profile_view s" "profile_view (s\<lparr>battery_percent := bp\<rparr>) = profile_view s"
  "profile_view (s\<lparr>ext_mon_count := u\<rparr>) = profile_view s" "profile_view (s\<lparr>last_cursor_pos := cp\<rparr>) = profile_view s"
  by (simp_all add: profile_view_def)

section \<open>Effectors\<close>

lemma profile_view_send [profile_frame]:
  "\<not> profile_effect (Worker c) \<Longrightarrow> \<not> profile_effect (Dropped c) \<Longrightarrow> profile_view (send_cmd e c s) = profile_view s"
  by (simp add: send_cmd_def Let_def split_beta)

lemma profile_view_commands [profile_frame]:
  "profile_view (set_edp e on s) = profile_view s" "profile_view (dpms_on e s) = profile_view s"
  "profile_view (rehome_edp_workspaces e s) = profile_view s" "profile_view (pause_media e s) = profile_view s"
  "profile_view (notify_power e n s) = profile_view s" "profile_view (notify_gpu_drift e ds r tg s) = profile_view s"
  by (simp_all add: set_edp_def dpms_on_def rehome_edp_workspaces_def pause_media_def notify_power_def
      notify_gpu_drift_def profile_view_send Let_def)

lemma profile_view_timers [profile_frame]:
  "profile_view (cancel_grace_timer s) = profile_view s" "profile_view (start_grace_timer fresh s) = profile_view s"
  "profile_view (start_claim_watch s) = profile_view s" "profile_view (cancel_claim_watch s) = profile_view s"
  "profile_view (schedule_profile_reconcile s) = profile_view s" "profile_view (schedule_power_settle s) = profile_view s"
  "profile_view (request_reconcile k s) = profile_view s" "profile_view (sync_waybar s) = profile_view s"
  "profile_view (write_gpu_breadcrumb e g s) = profile_view s" "profile_view (powerd_lost s) = profile_view s"
  by (simp_all add: cancel_grace_timer_def start_grace_timer_def start_claim_watch_def cancel_claim_watch_def
      schedule_profile_reconcile_def schedule_power_settle_def request_reconcile_def sync_waybar_def
      write_gpu_breadcrumb_def powerd_lost_def Let_def split: option.split)

lemma profile_view_power [profile_frame]:
  "profile_view (apply_power_profile e p s) = profile_view s" "profile_view (sync_dgpu_pin e b s) = profile_view s"
  "profile_view (snd (request_suspend e s)) = profile_view s" "profile_view (snd (clear_battery_low_request e s)) = profile_view s"
  "profile_view (clear_suspend_request e s) = profile_view s" "profile_view (clear_power_override e s) = profile_view s"
  "profile_view (adopt_power_override e p s) = profile_view s"
  by (simp_all add: apply_power_profile_def sync_dgpu_pin_def request_suspend_def clear_battery_low_request_def
      clear_suspend_request_def clear_power_override_def adopt_power_override_def profile_frame
      Let_def split_beta split: option.split)

lemma profile_view_brightness_parts [profile_frame]:
  "profile_view (snd (brightness_read e s)) = profile_view s" "profile_view (snd (brightness_user_took_over e s)) = profile_view s"
  "profile_view (brightness_write e v s) = profile_view s"
  by (simp_all add: brightness_read_def brightness_user_took_over_def brightness_write_def Let_def split_beta split: option.split)

lemma profile_view_brightness [profile_frame]:
  "profile_view (brightness_yield e s) = profile_view s" "profile_view (brightness_save_and_cap e d s) = profile_view s"
  "profile_view (brightness_cap e d s) = profile_view s" "profile_view (brightness_restore e s) = profile_view s"
  "profile_view (brightness_rearm e s) = profile_view s"
  by (simp_all add: brightness_yield_def brightness_save_and_cap_def brightness_cap_def brightness_restore_def
      brightness_rearm_def profile_frame Let_def split_beta split: option.split)

lemma profile_view_kbd [profile_frame]:
  "profile_view (kbd_set e pct s) = profile_view s" "profile_view (kbd_release_override e s) = profile_view s"
  "profile_view (kbd_write_status e lit s) = profile_view s" "profile_view (sample_lux e s) = profile_view s"
  "profile_view (discover_backlight e s) = profile_view s" "profile_view (discover_kbd e s) = profile_view s"
  by (simp_all add: kbd_set_def kbd_release_override_def kbd_write_status_def sample_lux_def discover_backlight_def
      discover_kbd_def Let_def split_beta split: option.split)

lemma profile_view_lock [profile_frame]:
  "profile_view (request_lock e s) = profile_view s" "profile_view (snd (live_locker e s)) = profile_view s"
  "profile_view (snd (wait_for_lock e s)) = profile_view s" "profile_view (snd (do_suspend e s)) = profile_view s"
  by (simp_all add: request_lock_def live_locker_def wait_for_lock_def do_suspend_def Let_def split_beta)

section \<open>Policies\<close>

lemma profile_view_policies [profile_frame]:
  "profile_view (check_override e b s) = profile_view s" "profile_view (brightness_edges e p b s) = profile_view s"
  "profile_view (kbd_policy_check e smp s) = profile_view s"
  by (simp_all add: check_override_def brightness_edges_def kbd_policy_check_def profile_frame Let_def split: option.split)

lemma profile_view_power_policy_check [profile_frame]: "profile_view (power_policy_check e s) = profile_view s"
  by (simp add: power_policy_check_def profile_frame Let_def)

lemma profile_view_gpu_parts [profile_frame]:
  "profile_view (resolve_gpu_actual e s) = profile_view s" "profile_view (notify_if_new e tg ds r s) = profile_view s"
  "profile_view (snd (resolve_session_gpu_mode e pref s)) = profile_view s"
  by (simp_all add: resolve_gpu_actual_def notify_if_new_def resolve_session_gpu_mode_def profile_frame
      Let_def split_beta split: option.split)

lemma profile_view_check_and_notify [profile_frame]:
  "profile_view (check_and_notify_drift e tg mode source s) = profile_view s"
  by (simp add: check_and_notify_drift_def profile_frame Let_def split_beta split: option.split)

lemma profile_view_gpu_drift [profile_frame]: "profile_view (snd (gpu_drift_check e tg pref s)) = profile_view s"
  by (simp add: gpu_drift_check_def profile_frame Let_def split_beta)

section \<open>The machine\<close>

lemma profile_view_suspending_tail [profile_frame]: "profile_view (snd (suspending_tail e s)) = profile_view s"
  by (simp add: suspending_tail_def profile_frame Let_def split_beta)

lemma profile_view_on_enter [profile_frame]: "profile_view (snd (on_enter e st en s)) = profile_view s"
  by (cases st) (simp_all add: on_enter_def profile_frame Let_def)

lemma profile_view_evaluate [profile_frame]: "profile_view (evaluate_fsms e k l s) = profile_view s"
  by (simp add: evaluate_fsms_def profile_frame Let_def split_beta split: option.split)

lemma profile_view_battery_check [profile_frame]: "profile_view (snd (battery_low_request_check e s)) = profile_view s"
  by (simp add: battery_low_request_check_def profile_frame Let_def split_beta split: battery_low_act.split)

lemma profile_view_chosen [profile_frame]: "profile_view (snd (chosen_profile e s)) = profile_view s"
  by (simp add: chosen_profile_def monitor_signature_def Let_def split_beta)

lemma profile_view_before [profile_frame]: "profile_view (before_fsms e k l s) = profile_view s"
  by (simp add: before_fsms_def advise_gpu_def profile_frame Let_def split_beta)

lemma profile_view_repairs [profile_frame]:
  "profile_view (snd (repair_lid snap s)) = profile_view s" "profile_view (snd (repair_request s)) = profile_view s"
  "profile_view (snd (repair_ext_mon snap s)) = profile_view s" "profile_view (snd (repair_claims snap s)) = profile_view s"
  "profile_view (snd (repair_lock snap s)) = profile_view s" "profile_view (snd (repair_ac snap s)) = profile_view s"
  "profile_view (repair_power e s) = profile_view s"
  by (simp_all add: repair_lid_def repair_request_def repair_ext_mon_def repair_claims_def repair_lock_def repair_ac_def
      repair_power_def profile_frame Let_def split: option.split)

lemma profile_view_repair_snapshot [profile_frame]: "profile_view (snd (snd (repair_snapshot snap s))) = profile_view s"
  by (simp add: repair_snapshot_def profile_frame Let_def split_beta)

lemma profile_view_tail [profile_frame]:
  "profile_view (reassert_edp e snap s) = profile_view s" "profile_view (stuck_dpms_backstop e snap s) = profile_view s"
  by (simp_all add: reassert_edp_def stuck_dpms_backstop_def profile_frame Let_def split: option.split)

section \<open>A profile at rest\<close>

definition settled_on :: "'p monitor_profile \<Rightarrow> 'p sys \<Rightarrow> bool" where
  "settled_on p s \<longleftrightarrow> active_link s = Some (mp_name p) \<and> current_profile s = Some (mp_name p)
     \<and> active_profile_rev s = Some p"

text \<open>The renders are where the link says: canonicalising the link gives its own profile or fails.\<close>

definition own_render :: "'p env \<Rightarrow> 'p monitor_profile \<Rightarrow> bool" where
  "own_render e p \<longleftrightarrow> (\<forall>k. q_canonical e k (mp_name p) \<in> {None, Some (mp_name p)})"

lemma settled_view: "profile_view t = profile_view s \<Longrightarrow> settled_on p t = settled_on p s"
  by (simp add: settled_on_def profile_view_def)

lemma settled_skips: "settled_on p s \<Longrightarrow> profile_view (apply_profile e p s) = profile_view s"
  by (simp add: apply_profile_def link_same_def settled_on_def Let_def split_beta)

lemma settled_ingest:
  assumes "settled_on p s" "own_render e p"
  shows "profile_view (snd (ingest_active_profile e s)) = profile_view s"
proof -
  have "q_canonical e (tick s) (mp_name p) \<in> {None, Some (mp_name p)}" using assms(2) by (simp add: own_render_def)
  then show ?thesis
    using assms(1) by (auto simp: ingest_active_profile_def active_profile_name_def settled_on_def Let_def split_beta)
qed

lemma settled_tick:
  assumes "settled_on p s" "own_render e p"
  shows "profile_view (handle_reconcile_tick e snap s) = profile_view s"
proof -
  let ?d = "repair_snapshot snap s"
  let ?p = "if fst (snd ?d) then repair_power e (snd (snd ?d)) else snd (snd ?d)"
  let ?f = "if fst ?d then evaluate_fsms e event_kind.CtxRepaired ''CtxRepaired'' ?p else ?p"
  have f: "profile_view ?f = profile_view s" by (simp add: profile_frame)
  then have "settled_on p ?f" using assms(1) settled_view by blast
  then show ?thesis
    using f settled_ingest [of p ?f e] assms(2)
    by (auto simp: handle_reconcile_tick_def profile_frame Let_def split_beta)
qed

lemma settled_reassert:
  "settled_on p s \<Longrightarrow> own_render e p \<Longrightarrow> profile_view (reassert_state e s) = profile_view s"
  by (simp add: reassert_state_def profile_frame settled_ingest Let_def)

text \<open>The selection gives the same profile for whatever hyprctl lists.\<close>

definition stands :: "'p env \<Rightarrow> 'p monitor_profile \<Rightarrow> bool" where
  "stands e p \<longleftrightarrow> (\<forall>j k. select_profile e (case q_monitors e j of Some ms \<Rightarrow> map hm_description ms | None \<Rightarrow> [])
     (q_profiles e k) = Some p)"

lemma chosen_stands: "stands e p \<Longrightarrow> fst (chosen_profile e s) = Some p"
  by (simp add: chosen_profile_def monitor_signature_def stands_def Let_def split_beta)

lemma profile_view_monitors_changed:
  assumes "stands e p"
  shows "profile_view (handle_monitors_changed e s) = profile_view (apply_profile e p (snd (chosen_profile e s)))"
  using chosen_stands [OF assms, of s]
  by (simp add: handle_monitors_changed_def profile_frame Let_def split_beta)

lemma settled_turn:
  assumes "settled_on p s" "own_render e p" "stands e p"
  shows "profile_view (turn e ev s) = profile_view s"
proof -
  have c: "settled_on p (snd (chosen_profile e s))" using assms(1) settled_view [OF profile_view_chosen, of p e s] by simp
  have "profile_view (snd (route_event e ev s)) = profile_view s"
    using assms(1,2) settled_skips [OF c, of e] profile_view_monitors_changed [OF assms(3), of s]
    by (cases ev) (simp_all add: route_event_def settled_tick settled_reassert profile_frame refresh_wayland_claim_def
        wayland_idle_inhibited_def handle_ac_changed_def ext_monitor_count_def ingest_override_def handle_battery_percent_def
        handle_platform_profile_def handle_powerd_appeared_def Let_def split_beta split: option.split)
  then show ?thesis by (simp add: turn_unfold profile_frame)
qed

lemma settled_turns:
  "settled_on p s \<Longrightarrow> own_render e p \<Longrightarrow> stands e p \<Longrightarrow> profile_view (fold (turn e) evs s) = profile_view s"
proof (induction evs arbitrary: s)
  case (Cons ev evs)
  have v: "profile_view (turn e ev s) = profile_view s" by (rule settled_turn [OF Cons.prems])
  then show ?case using Cons.IH [of "turn e ev s"] Cons.prems settled_view [OF v] by simp
qed simp

section \<open>The application\<close>

text \<open>What the dispatcher hands the worker: the command, or the note that the queue was full.\<close>

definition handed :: "bool \<Rightarrow> cmd \<Rightarrow> effect" where
  "handed accepted c = (if accepted then Worker c else Dropped c)"

lemma send_cmd_handed:
  assumes "\<not> shadow s" "\<forall>k. q_worker e k = w"
  shows "send_cmd e c s = emit (handed w c) (s\<lparr>tick := Suc (tick s)\<rparr>)"
  using assms by (simp add: send_cmd_def handed_def Let_def split_beta)

lemma run_hooks_effects:
  assumes "\<not> shadow s" "\<forall>k. q_worker e k = w"
  shows "filter profile_effect (log (run_hooks e hs s)) = filter profile_effect (log s) @ map (\<lambda>h. handed w (RunHook h)) hs
     \<and> active_link (run_hooks e hs s) = active_link s \<and> current_profile (run_hooks e hs s) = current_profile s
     \<and> active_profile_rev (run_hooks e hs s) = active_profile_rev s \<and> edp_policy (run_hooks e hs s) = edp_policy s"
  using assms(1)
proof (induction hs arbitrary: s)
  case (Cons h hs)
  have "profile_effect (handed w (RunHook h))" by (simp add: handed_def)
  then show ?case
    using Cons.IH [of "send_cmd e (RunHook h) s"] Cons.prems assms(2)
    by (simp add: run_hooks_def send_cmd_handed [where w = w])
qed (simp add: run_hooks_def)

definition applied_effects :: "'p env \<Rightarrow> 'p monitor_profile \<Rightarrow> bool \<Rightarrow> effect list" where
  "applied_effects e p w = RepointProfile (mp_name p) # handed w (CmdApplyProfile (active_link_path e))
     # map (\<lambda>h. handed w (RunHook h)) (mp_hooks p)"

lemma apply_effects:
  assumes "\<not> shadow s" "current_profile s \<noteq> Some (mp_name p) \<or> active_profile_rev s \<noteq> Some p" "\<forall>k. q_io e k"
    and "\<forall>k. q_worker e k = w"
  shows "profile_view (apply_profile e p s) = (Some (mp_name p), Some (mp_name p), Some p, mp_edp p,
     filter profile_effect (log s) @ applied_effects e p w)"
proof -
  let ?s = "snd (link_same e (mp_name p) s)"
  have l: "shadow ?s = shadow s" "log ?s = log s" "current_profile ?s = current_profile s"
      "active_profile_rev ?s = active_profile_rev s"
    by (simp_all add: link_same_def Let_def split_beta split: option.split)
  let ?r = "record_profile p (emit (RepointProfile (mp_name p)) (?s\<lparr>tick := Suc (tick ?s), active_link := Some (mp_name p)\<rparr>))"
  let ?c = "send_cmd e (CmdApplyProfile (active_link_path e)) ?r"
  have a: "apply_profile e p s = run_hooks e (mp_hooks p) ?c"
    using assms(1-3) l by (auto simp: apply_profile_def Let_def split_beta)
  have r: "\<not> shadow ?r" using assms(1) l by (simp add: record_profile_def)
  have c: "\<not> shadow ?c" "profile_effect (handed w (CmdApplyProfile (active_link_path e)))"
    using r by (simp_all add: send_cmd_handed [OF r assms(4)] handed_def)
  show ?thesis
    using run_hooks_effects [OF c(1) assms(4), of "mp_hooks p"] c(2) l(2)
    unfolding a profile_view_def send_cmd_handed [OF r assms(4)]
    by (simp add: applied_effects_def record_profile_def)
qed

text \<open>The application takes one turn; the events that follow meet the system as it is by then.\<close>

lemma applied_then_rests:
  assumes "\<not> shadow s" "current_profile s \<noteq> Some (mp_name p) \<or> active_profile_rev s \<noteq> Some p" "\<forall>k. q_io e k"
    and "\<forall>k. q_worker e k = w" "stands e p" "own_render e' p" "stands e' p"
  shows "profile_view (fold (turn e') evs (turn e MonitorsChanged s)) = (Some (mp_name p), Some (mp_name p), Some p, mp_edp p,
     filter profile_effect (log s) @ applied_effects e p w)"
proof -
  let ?c = "snd (chosen_profile e s)"
  have c: "\<not> shadow ?c" "current_profile ?c = current_profile s" "active_profile_rev ?c = active_profile_rev s"
    "filter profile_effect (log ?c) = filter profile_effect (log s)"
    using assms(1) by (simp_all add: chosen_profile_def monitor_signature_def Let_def split_beta)
  have "profile_view (turn e MonitorsChanged s) = profile_view (handle_monitors_changed e s)"
    by (simp add: turn_unfold route_event_def profile_frame)
  also have "\<dots> = profile_view (apply_profile e p ?c)" by (rule profile_view_monitors_changed [OF assms(5)])
  also have "\<dots> = (Some (mp_name p), Some (mp_name p), Some p, mp_edp p, filter profile_effect (log s) @ applied_effects e p w)"
    using apply_effects [of ?c p e w] assms(2-4) c by simp
  finally have v: "profile_view (turn e MonitorsChanged s) = \<dots>" .
  then have "settled_on p (turn e MonitorsChanged s)" by (simp add: profile_view_def settled_on_def)
  with settled_turns [OF this assms(6,7), of evs] v show ?thesis by simp
qed

section \<open>Properties\<close>

text \<open>C16: A monitor profile is applied once and stays: when the monitors select a profile that the
  daemon does not hold, one event repoints the link, hands the worker the application and then the
  hooks, in this order, and records the profile with its panel policy; whatever events follow, of any
  kind and number (the ones the application itself causes among them), while the selection stands,
  nothing is repointed, applied or run again and the record stays. So an application never feeds itself.\<close>
theorem profile_applied_once:
  assumes "\<not> shadow s" "current_profile s \<noteq> Some (mp_name p) \<or> active_profile_rev s \<noteq> Some p"
    and "\<forall>k. q_io e k" "\<forall>k. q_worker e k" "own_render e p" "stands e p"
    and "t = fold (turn e) evs (turn e MonitorsChanged s)"
  shows "filter profile_effect (log t) = filter profile_effect (log s)
       @ [RepointProfile (mp_name p), Worker (CmdApplyProfile (active_link_path e))] @ map (\<lambda>h. Worker (RunHook h)) (mp_hooks p)
     \<and> active_link t = Some (mp_name p) \<and> current_profile t = Some (mp_name p)
     \<and> active_profile_rev t = Some p \<and> edp_policy t = mp_edp p"
  using applied_then_rests [OF assms(1-3) _ assms(6,5,6), of True evs] assms(4)
  by (simp add: assms(7) profile_view_def applied_effects_def handed_def)

definition desk :: "unit monitor_profile" where
  "desk = \<lparr>mp_name = ''desk'', mp_edp = edp_policy.Disable, mp_gpu = gpu_pref.Auto, mp_hooks = [''notify''], mp_rest = ()\<rparr>"

definition desk_env :: "bool \<Rightarrow> unit env" where
  "desk_env w = demo_env\<lparr>q_profiles := \<lambda>_. [desk], ext_select := \<lambda>_ _. Some desk, q_worker := \<lambda>_. w\<rparr>"

lemma desk_selected:
  "own_render (desk_env w) desk" "stands (desk_env w) desk" "\<forall>k. q_io (desk_env w) k" "\<forall>k. q_worker (desk_env w) k = w"
  "\<not> shadow (demo_sys False)" "current_profile (demo_sys False) \<noteq> Some (mp_name desk) \<or> active_profile_rev (demo_sys False) \<noteq> Some desk"
  "log (demo_sys False) = []" "active_link_path (desk_env w) = ''.active.lua''" "mp_hooks desk = [''notify'']" "mp_name desk = ''desk''"
  by (simp_all add: own_render_def stands_def select_profile_def desk_env_def desk_def demo_env_def demo_sys_def
      default_context_def daemon_ctx.defs)

theorem profile_applied_once_witness:
  "filter profile_effect (log (fold (turn (desk_env True)) [ProfileApplied, ConfigReloaded, MonitorsChanged, event.TimerExpired]
       (turn (desk_env True) MonitorsChanged (demo_sys False))))
     = [RepointProfile ''desk'', Worker (CmdApplyProfile ''.active.lua''), Worker (RunHook ''notify'')]"
  using profile_applied_once [OF desk_selected(5,6,3) _ desk_selected(1,2) refl, of True
      "[ProfileApplied, ConfigReloaded, MonitorsChanged, event.TimerExpired]"] desk_selected(4) [of True]
  by (simp add: desk_selected)



end
