(* ===== verification/ProfileCli.thy ===== *)
theory ProfileCli
  imports ProfileStore Profiles ProfileCycle
begin

text \<open>
  The \<open>profile\<close> subcommands of \<open>src/cli/profile.rs\<close> as a whole: \<open>save\<close>, \<open>list\<close>, \<open>current\<close>,
  \<open>switch\<close>, \<open>migrate\<close> and \<open>verify\<close>, with the directory check \<open>verify_dir\<close>. The crate
  \<open>monitor_profiles\<close> is the record \<open>profile_crate\<close> of the functions the commands call; \<open>'q\<close> is its
  profile type. The commands that need the live profiles load them first, which writes their
  renders into the user's directory (\<open>load_and_render\<close>).
\<close>

section \<open>The crate, the options, the results\<close>

record 'q profile_crate =
  pk_legacy :: "string \<Rightarrow> string \<Rightarrow> 'q option"
  pk_from_toml :: "string \<Rightarrow> string \<Rightarrow> 'q option"
  pk_to_toml :: "'q \<Rightarrow> string"
  pk_render :: "'q \<Rightarrow> string"
  pk_fields :: "'q \<Rightarrow> full_profile"
  pk_monitors :: "'q \<Rightarrow> nat"
  pk_resolve_all :: "'q \<Rightarrow> output_layout list"
  pk_resolve :: "'q \<Rightarrow> (string \<times> string) list \<Rightarrow> output_layout list"
  pk_match :: "string \<Rightarrow> string list \<Rightarrow> bool"

record save_opts =
  so_edp :: edp_policy
  so_gpu :: gpu_pref
  so_priority :: "int option"
  so_force :: bool
  so_dry_run :: bool

datatype verify_issue =
    LegacyUnreadable string
  | TomlUnreadable string
  | LegacyUnparsable string
  | TomlUnparsable string
  | ZeroMonitors string
  | Differs string string

section \<open>verify\<close>

text \<open>One legacy file: how many profiles were compared and what is wrong. \<open>rd\<close> says which files can
  be read, \<open>d\<close> which exist.\<close>

definition verify_file ::
  "'q profile_crate \<Rightarrow> (string \<times> string) list \<Rightarrow> string list \<Rightarrow> (string \<Rightarrow> bool) \<Rightarrow> directory
     \<Rightarrow> string \<Rightarrow> nat \<times> verify_issue list" where
  "verify_file crate outs signature rd d f =
     (let name = file_stem f; toml = with_extension f ''toml'' in
      case d toml of
        None \<Rightarrow> (0, [])
      | Some toml_text \<Rightarrow>
          case (if rd f then d f else None) of
            None \<Rightarrow> (0, [LegacyUnreadable name])
          | Some legacy_text \<Rightarrow>
              if \<not> rd toml then (0, [TomlUnreadable name])
              else (case pk_legacy crate name legacy_text of
                  None \<Rightarrow> (0, [LegacyUnparsable name])
                | Some a \<Rightarrow>
                    (case pk_from_toml crate name toml_text of
                       None \<Rightarrow> (0, [TomlUnparsable name])
                     | Some b \<Rightarrow>
                         let live = (if list_all (\<lambda>m. pk_match crate m signature) (fp_matches (pk_fields crate b))
                                     then Some (pk_resolve crate a outs, pk_resolve crate b outs) else None)
                         in if pk_monitors crate a = 0 \<and> pk_monitors crate b = 0 then (0, [ZeroMonitors name])
                            else (1, map (\<lambda>(l, w). Differs l w)
                                   (verify_profiles (pk_fields crate a) (pk_fields crate b)
                                      (pk_resolve_all crate a, pk_resolve_all crate b) live)))))"

definition verify_dir ::
  "'q profile_crate \<Rightarrow> (string \<times> string) list \<Rightarrow> string list \<Rightarrow> (string \<Rightarrow> bool) \<Rightarrow> string option \<Rightarrow> string list
     \<Rightarrow> directory \<Rightarrow> nat \<times> verify_issue list" where
  "verify_dir crate outs signature rd only entries d =
     (let rs = map (verify_file crate outs signature rd d) (legacy_files only entries)
      in (sum_list (map fst rs), concat (map snd rs)))"

definition verify_code :: "nat \<times> verify_issue list \<Rightarrow> int \<times> string list" where
  "verify_code r = (if snd r = [] then (0, [nat_str (fst r) @ '' profiles verified identical'']) else (1, []))"

section \<open>migrate\<close>

text \<open>The conversion loop of \<open>ProfileStore\<close>, then the check of the directory it left. \<open>entries'\<close> is
  the listing the check reads.\<close>

definition migrate_run ::
  "'q profile_crate \<Rightarrow> (string \<times> string) list \<Rightarrow> string list \<Rightarrow> (string \<Rightarrow> bool) \<Rightarrow> (string \<Rightarrow> bool)
     \<Rightarrow> save_opts \<Rightarrow> string option \<Rightarrow> string list \<Rightarrow> string list \<Rightarrow> directory \<Rightarrow> int \<times> directory" where
  "migrate_run crate outs signature rd io opts only entries entries' d =
     (let parse = (\<lambda>stem text. map_option (\<lambda>p. (pk_monitors crate p, pk_to_toml crate p)) (pk_legacy crate stem text));
          (code, n, d') = migrate parse io (so_force opts) (so_dry_run opts) only entries d
      in if code \<noteq> 0 then (code, d')
         else if so_dry_run opts then (0, d')
         else (fst (verify_code (verify_dir crate outs signature rd only entries' d')), d'))"

section \<open>Loading and save\<close>

text \<open>\<open>user\<close> and \<open>system\<close> are what the crate read from the two directories, \<open>io\<close> says which render
  can be written. Every profile that loading returns is rendered into the user's directory, in
  order; a render that cannot be written is a warning, and the next one is tried.\<close>

definition render_to_dir ::
  "'q profile_crate \<Rightarrow> (string \<Rightarrow> bool) \<Rightarrow> 'q monitor_profile \<Rightarrow> directory \<Rightarrow> directory" where
  "render_to_dir crate io p d =
     (let f = mp_name p @ ''.lua''
      in snd (snd (write_if_changed_atomic (io f) f (pk_render crate (mp_rest p)) d)))"

definition load_and_render ::
  "'q profile_crate \<Rightarrow> (string \<Rightarrow> bool) \<Rightarrow> 'q monitor_profile list \<Rightarrow> 'q monitor_profile list \<Rightarrow> directory
     \<Rightarrow> 'q monitor_profile list \<times> directory" where
  "load_and_render crate io user system d =
     (let profiles = fst (load_profiles_merged user system)
      in (profiles, fold (render_to_dir crate io) profiles d))"

text \<open>The arm of \<open>save\<close>, on the directory that loading left.\<close>

definition profile_save ::
  "'q profile_crate \<Rightarrow> (edp_policy \<Rightarrow> string) \<Rightarrow> (gpu_pref \<Rightarrow> string) \<Rightarrow> string \<Rightarrow> monitor_snapshot list
     \<Rightarrow> (string \<Rightarrow> bool) \<Rightarrow> save_opts \<Rightarrow> string option \<Rightarrow> directory \<Rightarrow> int \<times> directory" where
  "profile_save crate edp_str gpu_str date monitors io opts name d = (case name of
       None \<Rightarrow> (2, d)
     | Some n \<Rightarrow>
         if \<not> valid_profile_name n then (2, d)
         else let target = n @ ''.toml'' in
           if d target \<noteq> None \<and> \<not> so_force opts then (1, d)
           else (case render_profile_lua edp_str gpu_str n date monitors (so_edp opts) (so_gpu opts) (so_priority opts) of
               None \<Rightarrow> (1, d)
             | Some (text, _) \<Rightarrow>
                 (case pk_legacy crate n text of
                    None \<Rightarrow> (1, d)
                  | Some p \<Rightarrow>
                      (let (ok, _, d) = write_if_changed_atomic (io target) target (pk_to_toml crate p) d in
                       if \<not> ok then (1, d)
                       else let rendered = with_extension target ''lua'';
                                (ok, _, d) = write_if_changed_atomic (io rendered) rendered (pk_render crate p) d
                            in if \<not> ok then (1, d) else (0, d)))))"

text \<open>The command: \<open>load_io\<close> are the writes of the renders, \<open>io\<close> the two of the arm.\<close>

definition profile_save_run ::
  "'q profile_crate \<Rightarrow> (edp_policy \<Rightarrow> string) \<Rightarrow> (gpu_pref \<Rightarrow> string) \<Rightarrow> string \<Rightarrow> monitor_snapshot list
     \<Rightarrow> (string \<Rightarrow> bool) \<Rightarrow> (string \<Rightarrow> bool) \<Rightarrow> 'q monitor_profile list \<Rightarrow> 'q monitor_profile list
     \<Rightarrow> save_opts \<Rightarrow> string option \<Rightarrow> directory
     \<Rightarrow> int \<times> directory" where
  "profile_save_run crate edp_str gpu_str date monitors load_io io user system opts name d =
     (let (_, d) = load_and_render crate load_io user system d
      in profile_save crate edp_str gpu_str date monitors io opts name d)"

section \<open>list, current, switch\<close>

definition check_mark :: string where
  "check_mark = [CHR 0xE2, CHR 0x9C, CHR 0x93]"

definition pad_to :: "nat \<Rightarrow> string \<Rightarrow> string" where
  "pad_to n w = w @ replicate (n - length w) (CHR 0x20)"

definition list_line ::
  "'q profile_crate \<Rightarrow> (edp_policy \<Rightarrow> string) \<Rightarrow> string list \<Rightarrow> 'q \<Rightarrow> string" where
  "list_line crate edp_str signature p =
     (let f = pk_fields crate p;
          applies = (if list_all (\<lambda>m. pk_match crate m signature) (fp_matches f) then check_mark else '' '')
      in ''  ['' @ applies @ ''] '' @ pad_to 28 (fp_name f) @ '' prio='' @ int_str (fp_priority f)
           @ '' edp='' @ pad_to 7 (edp_str (fp_edp f)) @ '' match=['' @ join '', '' (fp_matches f) @ '']'')"

definition profile_list ::
  "'q profile_crate \<Rightarrow> (edp_policy \<Rightarrow> string) \<Rightarrow> string list \<Rightarrow> 'q list \<Rightarrow> string list" where
  "profile_list crate edp_str signature profiles =
     map (list_line crate edp_str signature) (sort_key (\<lambda>p. - fp_priority (pk_fields crate p)) profiles)"

definition profile_current :: "string option \<Rightarrow> string" where
  "profile_current active = (case active of Some n \<Rightarrow> n | None \<Rightarrow> ''(no active profile)'')"

text \<open>\<open>switch\<close>: the exit code, the link it leaves and whether \<open>hyprctl reload\<close> was run.\<close>

definition profile_switch ::
  "bool \<Rightarrow> string \<Rightarrow> 'p monitor_profile list \<Rightarrow> string option \<Rightarrow> string option \<Rightarrow> int \<times> string option \<times> bool" where
  "profile_switch io dir profiles name link = (case name of
       None \<Rightarrow> (2, link, False)
     | Some n \<Rightarrow>
         (case find (\<lambda>p. mp_name p = n) profiles of
            None \<Rightarrow> (1, link, False)
          | Some p \<Rightarrow>
              (let (ok, link) = repoint_active_profile io (dir @ ''/'' @ mp_name p @ ''.lua'') link
               in if ok then (0, link, True) else (1, link, False))))"

section \<open>Facts\<close>

lemma write_atomic_other: "snd (snd (write_if_changed_atomic io n c d)) m \<noteq> d m \<Longrightarrow> m = n"
  by (auto simp: write_if_changed_atomic_def split: if_splits)

lemma write_atomic_done:
  "write_if_changed_atomic io n c d = (ok, w, d') \<Longrightarrow> ok \<Longrightarrow> d' = d(n \<mapsto> c)"
  by (auto simp: write_if_changed_atomic_def split: if_splits)

text \<open>The extension of a name that has one, and where the TOML twin of a legacy file lies.\<close>

lemma last_legacy: "is_legacy_render n \<Longrightarrow> last n \<in> {CHR ''f'', CHR ''a''}"
proof -
  assume "is_legacy_render n"
  then have "last (split_char (CHR ''.'') n) \<in> {''conf'', ''lua''}"
    by (auto simp: is_legacy_render_def extension_def Let_def split: if_splits)
  moreover obtain pre where "n = pre @ last (split_char (CHR ''.'') n)" using split_char_suffix by blast
  ultimately show ?thesis by (metis append_is_Nil_conv insert_iff last.simps last_appendR list.distinct(1) singletonD)
qed

lemma legacy_not_target: "is_legacy_render f \<Longrightarrow> f \<noteq> with_extension g ''toml''"
  using last_legacy [of f] by (auto simp: with_extension_def)

lemma extension_of_toml:
  assumes "n \<noteq> []" "\<not> starts_with ''.'' n"
  shows "with_extension (n @ ''.toml'') ''lua'' = n @ ''.lua''"
proof -
  let ?ps = "split_char (CHR ''.'') (n @ ''.toml'')"
  have l: "last ?ps = ''toml''" "length ?ps \<ge> 2" using last_split_char [of "CHR ''.''" "''toml''" n] by simp_all
  obtain x xs where n: "n = x # xs" "x \<noteq> CHR ''.''" using assms by (cases n) (auto simp: starts_with_def)
  then have "hd ?ps \<noteq> []" by (cases "split_char (CHR ''.'') (xs @ ''.toml'')") auto
  moreover have "n @ ''.toml'' \<noteq> ''..''" using n by auto
  ultimately have "extension (n @ ''.toml'') = Some ''toml''" using l by (simp add: extension_def Let_def)
  then show ?thesis by (simp add: with_extension_def file_stem_def)
qed

text \<open>What the conversion loop changes, and what it leaves behind when it ends well.\<close>

lemma migrate_files_dry: "migrate_files parse io force True fs n d = (code, k, d') \<Longrightarrow> d' = d"
  by (induction fs arbitrary: n) (auto simp: Let_def split: if_splits option.splits)

lemma migrate_files_changes:
  assumes "migrate_files parse io force dry fs n d = (code, k, d')" and "\<forall>f \<in> set fs. is_legacy_render f"
    and "d' x \<noteq> d x"
  shows "\<not> dry \<and> (\<exists>f \<in> set fs. x = with_extension f ''toml'' \<and> (force \<or> d x = None)
     \<and> (\<exists>body m toml. d f = Some body \<and> parse (file_stem f) body = Some (m, toml) \<and> 0 < m \<and> d' x = Some toml))"
  using assms
proof (induction parse io force dry fs n d rule: migrate_files.induct)
  case (2 parse io force dry f fs n d)
  let ?t = "with_extension f ''toml''"
  show ?case
  proof (cases "d ?t \<noteq> None \<and> \<not> force")
    case True
    with 2 show ?thesis by (auto simp: Let_def)
  next
    case skip: False
    obtain body where f: "d f = Some body" using 2(4,6) skip by (cases "d f") (auto simp: Let_def)
    obtain m toml where p: "parse (file_stem f) body = Some (m, toml)"
      using 2(4,6) skip f by (cases "parse (file_stem f) body") (auto simp: Let_def)
    have m: "0 < m" using 2(4,6) skip f p by (cases "m = 0") (auto simp: Let_def)
    show ?thesis
    proof (cases dry)
      case True
      with 2(4) have "migrate_files parse io force True (f # fs) n d = (code, k, d')" by simp
      from migrate_files_dry [OF this] 2(6) show ?thesis by simp
    next
      case nd: False
      obtain ok w d1 where wr: "write_if_changed_atomic (io ?t) ?t toml d = (ok, w, d1)" using prod_cases3 by blast
      show ?thesis
      proof (cases ok)
        case False
        with wr have "d1 = d" by (auto simp: write_if_changed_atomic_def split: if_splits)
        with 2(4,6) skip f p m nd wr False show ?thesis by (auto simp: Let_def)
      next
        case True
        with wr have d1: "d1 = d(?t \<mapsto> toml)" using write_atomic_done by blast
        have rec: "migrate_files parse io force dry fs (Suc n) d1 = (code, k, d')"
          using 2(4) skip f p m nd wr True by (auto simp: Let_def)
        have IH: "d' x \<noteq> d1 x \<Longrightarrow> \<not> dry \<and> (\<exists>g \<in> set fs. x = with_extension g ''toml'' \<and> (force \<or> d1 x = None)
            \<and> (\<exists>body m toml. d1 g = Some body \<and> parse (file_stem g) body = Some (m, toml) \<and> 0 < m \<and> d' x = Some toml))"
          by (rule 2(3)) (use skip f p m nd wr True rec 2(5) in auto)
        show ?thesis
        proof (cases "d' x = d1 x")
          case same: True
          then have "x = ?t" using 2(6) d1 by (auto split: if_splits)
          then show ?thesis using nd skip f p m same d1 by auto
        next
          case False
          note IH [OF False]
          moreover have "d1 g = d g" if "g \<in> set fs" for g
            using 2(5) that d1 legacy_not_target [of g f] by auto
          ultimately show ?thesis using d1 by (auto split: if_splits)
        qed
      qed
    qed
  qed
qed simp

lemma migrate_files_grows:
  assumes "migrate_files parse io force dry fs n d = (code, k, d')" "d x \<noteq> None"
  shows "d' x \<noteq> None"
  using assms
proof (induction fs arbitrary: n d)
  case (Cons f fs)
  let ?t = "with_extension f ''toml''"
  have w: "write_if_changed_atomic (io ?t) ?t c d = (ok, w, d1) \<Longrightarrow> d1 x \<noteq> None" for c ok w d1
    using Cons.prems(2) by (auto simp: write_if_changed_atomic_def split: if_splits)
  show ?case using Cons w
    by (auto simp: Let_def split: if_splits option.splits prod.splits)
qed simp

lemma migrate_files_complete:
  assumes "migrate_files parse io force False fs n d = (0, k, d')" "f \<in> set fs"
  shows "d' (with_extension f ''toml'') \<noteq> None"
  using assms
proof (induction fs arbitrary: n d)
  case (Cons g fs)
  let ?t = "with_extension g ''toml''"
  have w: "write_if_changed_atomic (io ?t) ?t c d = (True, w, d1) \<Longrightarrow> d1 ?t \<noteq> None" for c w d1
    using write_atomic_done by fastforce
  have g: "d' ?t \<noteq> None"
    using Cons.prems(1) w migrate_files_grows [where x = ?t]
    by (auto simp: Let_def split: if_splits option.splits prod.splits)
  show ?case
  proof (cases "f = g")
    case False
    then have "f \<in> set fs" using Cons.prems(2) by simp
    with Cons.IH Cons.prems(1) show ?thesis
      by (auto simp: Let_def split: if_splits option.splits prod.splits)
  qed (use g in simp)
qed simp

lemma legacy_files_legacy: "f \<in> set (legacy_files only entries) \<Longrightarrow> is_legacy_render f"
  using dedup_stems_subset by (fastforce simp: legacy_files_def legacy_candidate_def)

text \<open>What loading writes.\<close>

lemma render_to_dir_changes:
  "render_to_dir crate io p d x \<noteq> d x \<Longrightarrow>
     x = mp_name p @ ''.lua'' \<and> render_to_dir crate io p d x = Some (pk_render crate (mp_rest p))"
  by (auto simp: render_to_dir_def write_if_changed_atomic_def Let_def split: if_splits)

lemma render_all_changes:
  "fold (render_to_dir crate io) ps d x \<noteq> d x \<Longrightarrow>
     \<exists>p \<in> set ps. x = mp_name p @ ''.lua'' \<and> fold (render_to_dir crate io) ps d x = Some (pk_render crate (mp_rest p))"
proof (induction ps arbitrary: d)
  case (Cons p ps)
  let ?d = "render_to_dir crate io p d"
  show ?case
  proof (cases "fold (render_to_dir crate io) ps ?d x = ?d x")
    case True
    then show ?thesis using Cons.prems render_to_dir_changes [of crate io p d x] by auto
  next
    case False
    then show ?thesis using Cons.IH [of ?d] by auto
  qed
qed simp

lemma load_and_render_changes:
  assumes "load_and_render crate io user system d = (ps, d')" "d' x \<noteq> d x"
  shows "\<exists>p \<in> set ps. x = mp_name p @ ''.lua'' \<and> d' x = Some (pk_render crate (mp_rest p))"
  using assms render_all_changes [of crate io ps d x] by (auto simp: load_and_render_def Let_def)

lemma save_arm:
  assumes "profile_save crate edp_str gpu_str date monitors io opts name d = (code, d')"
  shows "(\<forall>x. d' x \<noteq> d x \<longrightarrow> (\<exists>n. name = Some n \<and> valid_profile_name n \<and> (x = n @ ''.toml'' \<or> x = n @ ''.lua'')
            \<and> (so_force opts \<or> d (n @ ''.toml'') = None)))
     \<and> (code = 0 \<longrightarrow> (\<exists>n text warnings p. name = Some n \<and> valid_profile_name n
            \<and> render_profile_lua edp_str gpu_str n date monitors (so_edp opts) (so_gpu opts) (so_priority opts)
                = Some (text, warnings)
            \<and> pk_legacy crate n text = Some p
            \<and> d' (n @ ''.toml'') = Some (pk_to_toml crate p) \<and> d' (n @ ''.lua'') = Some (pk_render crate p)))"
proof (cases name)
  case None
  then show ?thesis using assms by (simp add: profile_save_def)
next
  case (Some n)
  show ?thesis
  proof (cases "valid_profile_name n \<and> \<not> (d (n @ ''.toml'') \<noteq> None \<and> \<not> so_force opts)")
    case False
    then show ?thesis using assms Some by (auto simp: profile_save_def Let_def split: if_splits)
  next
    case True
    then have lua: "with_extension (n @ ''.toml'') ''lua'' = n @ ''.lua''"
      by (intro extension_of_toml) (auto simp: valid_profile_name_def)
    have ne: "n @ ''.lua'' \<noteq> n @ ''.toml''" by simp
    show ?thesis
      using assms True Some ne
      by (auto simp: profile_save_def Let_def lua write_if_changed_atomic_def split: option.splits if_splits prod.splits)
  qed
qed

text \<open>A reload sends the panel where the adopted policy wants it.\<close>

lemma set_edp_sends:
  assumes "\<not> shadow s" "\<forall>k. q_worker e k"
    and "edp_policy s = edp_policy.Enable \<and> want \<or> edp_policy s = edp_policy.Disable \<and> \<not> want \<and> 0 < ext_mon_count s"
  shows "log (set_edp e on s) = log s @ [Worker (SetEdp want)]"
  using assms by (auto simp: set_edp_def send_cmd_def emit_def ask_def Let_def edp_may_disable_def)

lemma on_enter_sends:
  assumes "\<not> shadow s" "\<forall>k. q_worker e k" "st \<noteq> fsm_state.Suspending"
    and "edp_policy s = edp_policy.Enable \<and> want \<or> edp_policy s = edp_policy.Disable \<and> \<not> want \<and> 0 < ext_mon_count s"
  shows "\<exists>es. log (snd (on_enter e st en s)) = log s @ es \<and> Worker (SetEdp want) \<in> set es"
proof -
  define s0 where "s0 = (if st = fsm_state.Deferred \<and> wayland_inhibitor s then start_claim_watch s else cancel_claim_watch s)"
  have f: "edp_policy s0 = edp_policy s" "ext_mon_count s0 = ext_mon_count s" "shadow s0 = shadow s"
    "edp_policy (cancel_grace_timer s0) = edp_policy s" "ext_mon_count (cancel_grace_timer s0) = ext_mon_count s"
    "shadow (cancel_grace_timer s0) = shadow s"
    by (simp_all add: s0_def start_claim_watch_def cancel_claim_watch_def cancel_grace_timer_def emit_def split: option.split)
  have "law.extends s s0" by (simp add: s0_def law_intros)
  then obtain as bs where l: "log s0 = log s @ as" "log (cancel_grace_timer s0) = log s @ bs"
    using log_extended log_extended [OF law_cancel_grace_timer] by metis
  have g: "\<exists>es. log (start_grace_timer b t) = log t @ es" for b and t :: "'a sys"
    by (rule log_extended) (rule law_start_grace_timer [OF law_self])
  have m: "\<exists>es. log (pause_media e t) = log t @ es" for t :: "'a sys"
    by (rule log_extended) (simp add: pause_media_def law_intros)
  obtain cs ds where "log (start_grace_timer (en = Fresh) (set_edp e False s0)) = log (set_edp e False s0) @ cs"
    "log (pause_media e (set_edp e False (cancel_grace_timer s0))) = log (set_edp e False (cancel_grace_timer s0)) @ ds"
    using g m by metis
  moreover have "log (set_edp e on (cancel_grace_timer s0)) = log s @ bs @ [Worker (SetEdp want)]"
    "log (set_edp e on s0) = log s @ as @ [Worker (SetEdp want)]" for on
    using set_edp_sends [of _ e want on] assms f l by simp_all
  moreover have "snd (on_enter e st en s) = (case st of
        fsm_state.LidOpen \<Rightarrow> set_edp e True (cancel_grace_timer s0)
      | fsm_state.Docked \<Rightarrow> set_edp e False (cancel_grace_timer s0)
      | fsm_state.Deferred \<Rightarrow> let u = set_edp e False (cancel_grace_timer s0)
          in if claim_governs (world u) then pause_media e u else u
      | fsm_state.Countdown \<Rightarrow> start_grace_timer (en = Fresh) (set_edp e False s0)
      | fsm_state.Suspending \<Rightarrow> snd (suspending_tail e (cancel_grace_timer s0)))"
    unfolding on_enter_def s0_def [symmetric] Let_def by (cases st) simp_all
  ultimately show ?thesis
    using assms(3) by (cases st) (auto simp: Let_def)
qed

section \<open>Properties\<close>

text \<open>C36: \<open>migrate\<close> is safe and complete: it changes nothing in a dry run; otherwise the only files that
  change are TOML twins of legacy files, a twin that was there only under \<open>--force\<close>, each holding
  the serialised conversion of its legacy file, which had at least one monitor; and when the loop
  ends with success every legacy file has its twin.\<close>
theorem migrate_is_safe_and_complete:
  assumes "migrate parse io force dry only entries d = (code, n, d')"
  shows "(\<forall>x. d' x \<noteq> d x \<longrightarrow> \<not> dry \<and> (\<exists>f \<in> set (legacy_files only entries). x = with_extension f ''toml''
            \<and> (force \<or> d x = None)
            \<and> (\<exists>body m toml. d f = Some body \<and> parse (file_stem f) body = Some (m, toml) \<and> 0 < m \<and> d' x = Some toml)))
     \<and> (code = 0 \<and> \<not> dry \<longrightarrow> (\<forall>f \<in> set (legacy_files only entries). d' (with_extension f ''toml'') \<noteq> None))"
proof -
  have m: "migrate_files parse io force dry (legacy_files only entries) 0 d = (code, n, d')"
    using assms by (simp add: migrate_def)
  have l: "\<forall>f \<in> set (legacy_files only entries). is_legacy_render f" using legacy_files_legacy by blast
  have "d' (with_extension f ''toml'') \<noteq> None" if "code = 0" "\<not> dry" "f \<in> set (legacy_files only entries)" for f
    using migrate_files_complete [of parse io force "legacy_files only entries" 0 d n d' f] m that by simp
  then show ?thesis using migrate_files_changes [OF m l] by blast
qed

definition demo_dir :: directory where
  "demo_dir = [''desk.lua'' \<mapsto> ''hl.monitor'', ''hall.conf'' \<mapsto> ''monitor='', ''hall.toml'' \<mapsto> ''kept'']"

definition demo_parse :: "string \<Rightarrow> string \<Rightarrow> (nat \<times> string) option" where
  "demo_parse stem body = Some (1, stem @ ''!'')"

theorem migrate_is_safe_and_complete_witness:
  "\<exists>n d'. migrate demo_parse (\<lambda>_. True) False False None [''hall.conf'', ''desk.lua''] demo_dir = (0, n, d')
     \<and> d' ''hall.toml'' = Some ''kept'' \<and> d' ''desk.toml'' \<noteq> None"
proof -
  let ?m = "migrate demo_parse (\<lambda>_. True) False False None [''hall.conf'', ''desk.lua''] demo_dir"
  obtain c n d' where m: "?m = (c, n, d')" using prod_cases3 by blast
  have l: "legacy_files None [''hall.conf'', ''desk.lua''] = [''desk.lua'', ''hall.conf'']" by code_simp
  have t: "with_extension ''desk.lua'' ''toml'' = ''desk.toml''" "with_extension ''hall.conf'' ''toml'' = ''hall.toml''"
    by (simp_all add: with_extension_def file_stem_def extension_def)
  have c: "c = 0" using m
    by (simp add: migrate_def l t demo_dir_def demo_parse_def write_if_changed_atomic_def Let_def)
  note r = migrate_is_safe_and_complete [OF m]
  have "demo_dir ''hall.toml'' \<noteq> None" by (simp add: demo_dir_def)
  moreover have "d' ''hall.toml'' \<noteq> demo_dir ''hall.toml'' \<Longrightarrow> demo_dir ''hall.toml'' = None"
    using spec [OF conjunct1 [OF r], of "''hall.toml''"] by auto
  ultimately have "d' ''hall.toml'' = demo_dir ''hall.toml''" by metis
  moreover have "\<forall>f \<in> set (legacy_files None [''hall.conf'', ''desk.lua'']). d' (with_extension f ''toml'') \<noteq> None"
    using r c by blast
  then have "d' ''desk.toml'' \<noteq> None" by (simp only: l t list.set ball_simps insert_iff) blast
  ultimately show ?thesis using m c by (auto simp: demo_dir_def)
qed

text \<open>C37: \<open>save\<close> as a whole. Loading comes first, so whatever the outcome the Lua renders of the
  loaded profiles may be refreshed, each to the render of a loaded profile of its name. Apart from
  those only the saved profile's own two files can change, and only under a valid name and when its
  TOML file was absent or \<open>--force\<close> was given; so no profile (no TOML file) is overwritten unasked.
  On success the TOML file holds the profile converted from the capture and the Lua file its
  render, whatever stood there: a hand-written Lua file without a TOML twin is replaced too.\<close>
theorem save_keeps_other_profiles:
  assumes "profile_save_run crate edp_str gpu_str date monitors load_io io user system opts name d = (code, d')"
  shows "(\<forall>x. d' x \<noteq> d x \<longrightarrow>
            (\<exists>p \<in> set (fst (load_and_render crate load_io user system d)).
                x = mp_name p @ ''.lua'' \<and> d' x = Some (pk_render crate (mp_rest p)))
          \<or> (\<exists>n. name = Some n \<and> valid_profile_name n \<and> (x = n @ ''.toml'' \<or> x = n @ ''.lua'')
                \<and> (so_force opts \<or> d (n @ ''.toml'') = None)))
     \<and> (code = 0 \<longrightarrow> (\<exists>n text warnings p. name = Some n \<and> valid_profile_name n
            \<and> render_profile_lua edp_str gpu_str n date monitors (so_edp opts) (so_gpu opts) (so_priority opts)
                = Some (text, warnings)
            \<and> pk_legacy crate n text = Some p
            \<and> d' (n @ ''.toml'') = Some (pk_to_toml crate p) \<and> d' (n @ ''.lua'') = Some (pk_render crate p)))"
proof -
  obtain ps d1 where l: "load_and_render crate load_io user system d = (ps, d1)" by fastforce
  have s: "profile_save crate edp_str gpu_str date monitors io opts name d1 = (code, d')"
    using assms l by (simp add: profile_save_run_def)
  note a = save_arm [OF s]
  have toml: "d1 (n @ ''.toml'') = d (n @ ''.toml'')" for n
    using load_and_render_changes [OF l, of "n @ ''.toml''"] by auto
  have "(\<exists>p \<in> set ps. x = mp_name p @ ''.lua'' \<and> d' x = Some (pk_render crate (mp_rest p)))
      \<or> (\<exists>n. name = Some n \<and> valid_profile_name n \<and> (x = n @ ''.toml'' \<or> x = n @ ''.lua'')
                \<and> (so_force opts \<or> d (n @ ''.toml'') = None))" if "d' x \<noteq> d x" for x
  proof (cases "d' x = d1 x")
    case True
    then show ?thesis using load_and_render_changes [OF l, of x] that by auto
  next
    case False
    then show ?thesis using conjunct1 [OF a] toml by metis
  qed
  then show ?thesis using conjunct2 [OF a] l by auto
qed

definition demo_crate :: "string profile_crate" where
  "demo_crate = \<lparr>pk_legacy = (\<lambda>n t. Some n), pk_from_toml = (\<lambda>n t. Some n), pk_to_toml = (\<lambda>p. ''toml '' @ p),
     pk_render = (\<lambda>p. ''lua '' @ p), pk_fields = (\<lambda>p. demo_profile), pk_monitors = (\<lambda>p. 1),
     pk_resolve_all = (\<lambda>p. []), pk_resolve = (\<lambda>p c. []), pk_match = (\<lambda>m s. True)\<rparr>"

definition demo_user :: "string monitor_profile list" where
  "demo_user = [\<lparr>mp_name = ''desk'', mp_edp = edp_policy.Auto, mp_gpu = gpu_pref.Auto, mp_hooks = [], mp_rest = ''p''\<rparr>]"

definition demo_save :: "bool \<Rightarrow> string \<Rightarrow> int \<times> directory" where
  "demo_save force n = profile_save_run demo_crate (\<lambda>_. ''auto'') (\<lambda>_. ''auto'') ''2024-01-01'' [demo_monitor]
     (\<lambda>_. True) (\<lambda>_. True) demo_user demo_user
     \<lparr>so_edp = edp_policy.Auto, so_gpu = gpu_pref.Auto, so_priority = None, so_force = force, so_dry_run = False\<rparr>
     (Some n) demo_dir"

lemma demo_loaded: "load_and_render demo_crate (\<lambda>_. True) demo_user demo_user demo_dir
    = (demo_user, demo_dir(''desk.lua'' \<mapsto> ''lua p''))"
  by (simp add: load_and_render_def load_profiles_merged_def load_profiles_from_def render_to_dir_def demo_crate_def
      demo_user_def demo_dir_def write_if_changed_atomic_def)

theorem save_keeps_other_profiles_witness:
  "snd (demo_save False ''hall'') ''hall.toml'' = Some ''kept''
   \<and> (\<exists>p. snd (demo_save False ''office'') ''office.toml'' = Some (''toml '' @ p)
        \<and> snd (demo_save False ''office'') ''office.lua'' = Some (''lua '' @ p))"
proof -
  obtain c d' where s: "demo_save False ''hall'' = (c, d')" by fastforce
  have kept: "demo_dir ''hall.toml'' = Some ''kept''" by (simp add: demo_dir_def)
  have h: "d' ''hall.toml'' = Some ''kept''"
    using spec [OF conjunct1 [OF save_keeps_other_profiles [OF s [unfolded demo_save_def]]], of "''hall.toml''"] kept
    unfolding demo_loaded by (auto simp: demo_user_def)
  obtain c2 d2 where t: "demo_save False ''office'' = (c2, d2)" by fastforce
  have "render_profile_lua (\<lambda>_. ''auto'') (\<lambda>_. ''auto'') ''office'' ''2024-01-01'' [demo_monitor] edp_policy.Auto gpu_pref.Auto None \<noteq> None"
    by (simp add: render_profile_lua_def capture_layout_def demo_monitor_def)
  then obtain r where r: "render_profile_lua (\<lambda>_. ''auto'') (\<lambda>_. ''auto'') ''office'' ''2024-01-01'' [demo_monitor]
      edp_policy.Auto gpu_pref.Auto None = Some r" by blast
  have v: "valid_profile_name ''office''"
    by (simp add: valid_profile_name_def starts_with_def is_ascii_lowercase_def)
  have k: "pk_legacy demo_crate n body = Some n" for n body by (simp add: demo_crate_def)
  have o: "demo_dir ''office.toml'' = None" by (simp add: demo_dir_def)
  have "c2 = 0" using t v
    by (cases r) (auto simp: demo_save_def profile_save_run_def demo_loaded profile_save_def r k o
        write_if_changed_atomic_def Let_def split: if_splits)
  then have "\<exists>p. d2 ''office.toml'' = Some (''toml '' @ p) \<and> d2 ''office.lua'' = Some (''lua '' @ p)"
    using save_keeps_other_profiles [OF t [unfolded demo_save_def]] by (auto simp: demo_crate_def)
  with h s t show ?thesis by auto
qed

text \<open>C38: A switch reaches the daemon and the panel. After a \<open>switch\<close> that succeeded, the link points
  at the render of the profile and the compositor was told to reload. The daemon's turn on the
  event of that reload, in every state but \<open>Suspending\<close> (where it ignores the event), takes over
  the profile and its panel policy unless it already stands on that name, asks for a reconcile
  pass, and, outside shadow mode and with room in the worker's queue, sends the panel where the
  policy wants it: on for \<open>enable\<close>, off for \<open>disable\<close> when an external monitor is there.\<close>
theorem switch_reaches_the_daemon:
  assumes "profile_switch io dir profiles (Some n) link = (0, link', reload)"
    and "\<And>k. q_canonical e k (dir @ ''/'' @ n @ ''.lua'') = Some n" and "\<And>k. q_profiles e k = profiles"
    and "active_link s = link'" and "current_profile s \<noteq> Some n" and "state s \<noteq> fsm_state.Suspending"
  shows "reload \<and> (\<exists>p \<in> set profiles. mp_name p = n
     \<and> current_profile (turn e ConfigReloaded s) = Some n
     \<and> active_profile_rev (turn e ConfigReloaded s) = Some p
     \<and> edp_policy (turn e ConfigReloaded s) = mp_edp p
     \<and> (\<exists>es. log (turn e ConfigReloaded s) = log s @ es \<and> ReconcileRequest RtConfigReloaded \<in> set es
          \<and> (\<not> shadow s \<and> (\<forall>k. q_worker e k) \<longrightarrow>
               (mp_edp p = edp_policy.Enable \<longrightarrow> Worker (SetEdp True) \<in> set es)
               \<and> (mp_edp p = edp_policy.Disable \<and> 0 < ext_mon_count s \<longrightarrow> Worker (SetEdp False) \<in> set es))))"
proof -
  obtain p where p: "find (\<lambda>p. mp_name p = n) profiles = Some p"
    using assms(1) by (cases "find (\<lambda>p. mp_name p = n) profiles") (auto simp: profile_switch_def)
  then have n: "p \<in> set profiles" "mp_name p = n" by (auto simp: find_Some_iff)
  have l: "reload" "link' = Some (dir @ ''/'' @ n @ ''.lua'')"
    using assms(1) p n by (auto simp: profile_switch_def repoint_active_profile_def split: if_splits)
  define s1 where "s1 = snd (ingest_active_profile e s)"
  define s2 where "s2 = snd (on_enter e (state s1) Reassert s1)"
  have i: "current_profile s1 = Some n" "active_profile_rev s1 = Some p" "edp_policy s1 = mp_edp p"
    "log s1 = log s @ [RenderProfiles]" "ext_mon_count s1 = ext_mon_count s" "shadow s1 = shadow s" "state s1 = state s"
    using n l p assms(2-5)
    by (simp_all add: s1_def ingest_active_profile_def active_profile_name_def load_profiles_def ask_def emit_def Let_def)
  have t: "turn e ConfigReloaded s = sync_waybar (request_reconcile RtConfigReloaded s2)"
    using assms(6) by (simp add: turn_def dispatch_def route_event_def reassert_state_def s1_def s2_def Let_def)
  have "profile_view (turn e ConfigReloaded s) = profile_view s1"
    unfolding t s2_def by (simp add: profile_frame)
  then have v: "current_profile (turn e ConfigReloaded s) = Some n" "active_profile_rev (turn e ConfigReloaded s) = Some p"
    "edp_policy (turn e ConfigReloaded s) = mp_edp p" using i by (simp_all add: profile_view_def)
  obtain es where es: "log s2 = log s @ RenderProfiles # es"
    using log_extended [OF law_on_enter [OF law_self], of e "state s1" Reassert s1] i(4) by (auto simp: s2_def)
  obtain ws where ws: "log (turn e ConfigReloaded s) = log s @ RenderProfiles # es @ ReconcileRequest RtConfigReloaded # ws"
    using log_extended [OF law_sync_waybar [OF law_self], of "request_reconcile RtConfigReloaded s2"] es
    by (auto simp: t request_reconcile_def emit_def)
  have "Worker (SetEdp want) \<in> set es" if "\<not> shadow s" "\<forall>k. q_worker e k"
    "mp_edp p = edp_policy.Enable \<and> want \<or> mp_edp p = edp_policy.Disable \<and> \<not> want \<and> 0 < ext_mon_count s" for want
    using on_enter_sends [of s1 e "state s1" want Reassert] that assms(6) i es by (auto simp: s2_def)
  then show ?thesis using l(1) n v ws by (intro conjI bexI [of _ p] exI) auto
qed

definition demo_profile_set :: "unit monitor_profile list" where
  "demo_profile_set = [\<lparr>mp_name = ''desk'', mp_edp = edp_policy.Disable, mp_gpu = gpu_pref.Auto, mp_hooks = [], mp_rest = ()\<rparr>]"

definition switch_env :: "unit env" where
  "switch_env = demo_env\<lparr>q_profiles := \<lambda>_. demo_profile_set,
     q_canonical := \<lambda>_ t. if t = ''/p/desk.lua'' then Some ''desk'' else None\<rparr>"

theorem switch_reaches_the_daemon_witness:
  "let s = (demo_sys False)\<lparr>active_link := Some ''/p/desk.lua'', ext_mon_count := 1\<rparr> in
   edp_policy (turn switch_env ConfigReloaded s) = edp_policy.Disable
   \<and> Worker (SetEdp False) \<in> set (log (turn switch_env ConfigReloaded s))"
proof -
  let ?s = "(demo_sys False)\<lparr>active_link := Some ''/p/desk.lua'', ext_mon_count := 1\<rparr>"
  have sw: "profile_switch True ''/p'' demo_profile_set (Some ''desk'') None = (0, Some ''/p/desk.lua'', True)"
    by (simp add: profile_switch_def demo_profile_set_def repoint_active_profile_def extension_def)
  have s: "current_profile ?s = None" "state ?s \<noteq> fsm_state.Suspending" "\<not> shadow ?s"
    "\<forall>k. q_worker switch_env k" "ext_mon_count ?s = 1" "active_link ?s = Some ''/p/desk.lua''"
    by (simp_all add: demo_sys_def default_context_def daemon_ctx.defs switch_env_def demo_env_def)
  have e: "q_canonical switch_env k (''/p'' @ ''/'' @ ''desk'' @ ''.lua'') = Some ''desk''"
    "q_profiles switch_env k = demo_profile_set" for k by (simp_all add: switch_env_def)
  have "\<exists>p \<in> set demo_profile_set. mp_name p = ''desk'' \<and> edp_policy (turn switch_env ConfigReloaded ?s) = mp_edp p
     \<and> (mp_edp p = edp_policy.Disable \<longrightarrow> Worker (SetEdp False) \<in> set (log (turn switch_env ConfigReloaded ?s)))"
    using switch_reaches_the_daemon [OF sw e s(6) _ s(2)] s by fastforce
  then show ?thesis by (auto simp: demo_profile_set_def Let_def)
qed

end
