(* ===== verification/SourceTasks.thy ===== *)
theory SourceTasks
  imports Sources
begin

text \<open>
  The tasks around the steps of \<open>Sources\<close>: the loops of \<open>src/daemon/sources/\<close> that subscribe, hand
  every event over, stop when the dispatcher is gone and subscribe again when a stream ends. A
  subscription is the list of messages it delivers until it ends; the waits between two of them
  (\<open>SOURCE_RETRY\<close>) are left out. \<open>alive k\<close> says whether the dispatcher takes the \<open>k\<close>-th event of the
  task.
\<close>

section \<open>Handing over\<close>

text \<open>Where a task sends: the dispatcher's queue, the reconciler's (without waiting), and the
  channel the wait for the lock watches.\<close>

datatype sent = ToDispatcher event | ToReconciler reconcile_trigger | ToWaiter bool

fun send_all :: "(nat \<Rightarrow> bool) \<Rightarrow> nat \<Rightarrow> sent list \<Rightarrow> sent list \<times> nat \<times> bool" where
  "send_all alive k [] = ([], k, True)"
| "send_all alive k (ToDispatcher ev # os) =
     (if alive k then (let (out, k, ok) = send_all alive (Suc k) os in (ToDispatcher ev # out, k, ok))
      else ([], k, False))"
| "send_all alive k (ToReconciler t # os) =
     (let (out, k, ok) = send_all alive k os in (ToReconciler t # out, k, ok))"
| "send_all alive k (ToWaiter b # os) =
     (let (out, k, ok) = send_all alive k os in (ToWaiter b # out, k, ok))"

text \<open>One stream: every message in order, with the state the task keeps. The last part says that
  the stream ended; otherwise the task is over.\<close>

fun pump ::
  "('m \<Rightarrow> 's \<Rightarrow> sent list \<times> 's) \<Rightarrow> (nat \<Rightarrow> bool) \<Rightarrow> nat \<Rightarrow> 'm list \<Rightarrow> 's \<Rightarrow> sent list \<times> nat \<times> 's \<times> bool" where
  "pump step alive k [] s = ([], k, s, True)"
| "pump step alive k (m # ms) s =
     (let (os, s) = step m s;
          (out, k, ok) = send_all alive k os
      in if ok then (let (out', k, s, ok) = pump step alive k ms s in (out @ out', k, s, ok))
         else (out, k, s, False))"

text \<open>One stream after the other; a subscription that fails is \<open>None\<close>.\<close>

fun resubscribe ::
  "('m \<Rightarrow> 's \<Rightarrow> sent list \<times> 's) \<Rightarrow> (nat \<Rightarrow> bool) \<Rightarrow> nat \<Rightarrow> 'm list option list \<Rightarrow> 's
     \<Rightarrow> sent list \<times> nat \<times> 's \<times> bool" where
  "resubscribe step alive k [] s = ([], k, s, True)"
| "resubscribe step alive k (None # as) s = resubscribe step alive k as s"
| "resubscribe step alive k (Some ms # as) s =
     (let (out, k, s, ok) = pump step alive k ms s in
      if ok then (let (out', k, s, ok) = resubscribe step alive k as s in (out @ out', k, s, ok))
      else (out, k, s, False))"

section \<open>The tasks\<close>

text \<open>What a task has sent and whether it goes on.\<close>

definition outcome :: "sent list \<times> nat \<times> 's \<times> bool \<Rightarrow> sent list \<times> bool" where
  "outcome r = (fst r, snd (snd (snd r)))"

definition plain :: "('m \<Rightarrow> event list) \<Rightarrow> 'm \<Rightarrow> unit \<Rightarrow> sent list \<times> unit" where
  "plain f m u = (map ToDispatcher (f m), u)"

definition hypr_socket_reader :: "(nat \<Rightarrow> bool) \<Rightarrow> string list option list \<Rightarrow> sent list \<times> bool" where
  "hypr_socket_reader alive sockets =
     outcome (resubscribe (plain (\<lambda>line. case socket_event line of Some ev \<Rightarrow> [ev] | None \<Rightarrow> [])) alive 0 sockets ())"

text \<open>The property watchers skip the value a subscription starts with.\<close>

definition lid_watcher :: "(nat \<Rightarrow> bool) \<Rightarrow> bool option list \<Rightarrow> sent list \<times> bool" where
  "lid_watcher alive changes = outcome (pump (plain lid_event) alive 0 (tl changes) ())"

definition sleep_watcher :: "(nat \<Rightarrow> bool) \<Rightarrow> bool option list option list \<Rightarrow> sent list \<times> bool" where
  "sleep_watcher alive streams = outcome (resubscribe (plain sleep_event) alive 0 streams ())"

definition lock_step :: "bool option \<Rightarrow> unit \<Rightarrow> sent list \<times> unit" where
  "lock_step v u = (case v of
       Some b \<Rightarrow> (ToWaiter b # map ToDispatcher (lock_event v), u)
     | None \<Rightarrow> ([], u))"

definition lock_watcher :: "(nat \<Rightarrow> bool) \<Rightarrow> bool option list \<Rightarrow> sent list \<times> bool" where
  "lock_watcher alive changes = outcome (pump lock_step alive 0 (tl changes) ())"

definition ac_watcher :: "(nat \<Rightarrow> bool) \<Rightarrow> bool option list \<Rightarrow> sent list \<times> bool" where
  "ac_watcher alive changes = outcome (pump (plain ac_event) alive 0 (tl changes) ())"

definition battery_watcher :: "(nat \<Rightarrow> bool) \<Rightarrow> f64 option list \<Rightarrow> sent list \<times> bool" where
  "battery_watcher alive changes = outcome (pump (plain battery_event) alive 0 (tl changes) ())"

definition powerd_name_watcher ::
  "(nat \<Rightarrow> bool) \<Rightarrow> (string \<times> string option) option list option \<Rightarrow> sent list \<times> bool" where
  "powerd_name_watcher alive stream = (case stream of
       None \<Rightarrow> ([], False)
     | Some signals \<Rightarrow> outcome (pump (plain powerd_name_event) alive 0 signals ()))"

text \<open>The logind session's \<open>Lock\<close> and \<open>Unlock\<close> signals, in the order they come in (\<open>True\<close> for \<open>Lock\<close>);
  \<open>room k\<close> says whether the reconciler still takes the \<open>k\<close>-th.\<close>

fun session_signals :: "(nat \<Rightarrow> bool) \<Rightarrow> nat \<Rightarrow> bool list \<Rightarrow> sent list" where
  "session_signals room k [] = []"
| "session_signals room k (b # bs) =
     (if room k then ToReconciler (if b then SessionLock else SessionUnlock) # session_signals room (Suc k) bs
      else [])"

definition session_signal_watcher :: "(nat \<Rightarrow> bool) \<Rightarrow> bool \<Rightarrow> bool \<Rightarrow> bool list \<Rightarrow> sent list" where
  "session_signal_watcher room lock_ok unlock_ok signals =
     (if lock_ok \<and> unlock_ok then session_signals room 0 signals else [])"

text \<open>The inhibitor watcher keeps the last value over its subscriptions. A signal that cannot be
  read is skipped.\<close>

type_synonym properties_changed = "(string \<times> string list \<times> inhibitor_row list option) option"

definition inhibitor_step :: "properties_changed \<Rightarrow> bool \<Rightarrow> sent list \<times> bool" where
  "inhibitor_step sig prev = (case sig of
       None \<Rightarrow> ([], prev)
     | Some (interface, props, rows) \<Rightarrow>
         (let (evs, prev) = inhibitor_signal interface props rows prev in (map ToDispatcher evs, prev)))"

definition logind_inhibitor_watcher ::
  "(nat \<Rightarrow> bool) \<Rightarrow> properties_changed list option list \<Rightarrow> bool \<Rightarrow> sent list \<times> bool" where
  "logind_inhibitor_watcher alive streams prev = outcome (resubscribe inhibitor_step alive 0 streams prev)"

text \<open>The uevent task. A message is a result of \<open>recv\<close> with the file system at that moment and
  whether the reconciler's queue has room; an error other than a lost message closes the socket.\<close>

record uevent_msg =
  um_fs :: filesystem
  um_recv :: recv_result
  um_room :: bool

definition uevent_step :: "uevent_msg \<Rightarrow> bool option \<Rightarrow> sent list \<times> bool option" where
  "uevent_step m last_ac =
     (let (evs, trigs, ac) = uevent_recv (um_fs m) (um_recv m) last_ac
      in (map ToDispatcher evs @ (if um_room m then map ToReconciler trigs else []), ac))"

definition until_error :: "uevent_msg list \<Rightarrow> uevent_msg list" where
  "until_error ms = takeWhile (\<lambda>m. um_recv m \<noteq> RecvErr) ms"

definition uevent_task ::
  "(nat \<Rightarrow> bool) \<Rightarrow> filesystem \<Rightarrow> uevent_msg list option list \<Rightarrow> sent list \<times> bool" where
  "uevent_task alive fs sockets =
     outcome (resubscribe uevent_step alive 0 (map (map_option until_error) sockets) (on_ac_sysfs fs))"

section \<open>The reconciler's loop\<close>

text \<open>One round: what ends the wait (nothing: the trigger channel is closed), the triggers that
  arrive while the burst settles and whether the channel closes then, and what the pass reads.\<close>

datatype wakening = ByTrigger reconcile_trigger | BySafetyTick | ChannelClosed

record round =
  rd_wake :: wakening
  rd_burst :: "reconcile_trigger list"
  rd_closed :: bool
  rd_reads :: gather_reads

text \<open>The events sent, the safety ticks passed on to the state-file task, and whether it goes on.\<close>

fun reconcile_task ::
  "(nat \<Rightarrow> bool) \<Rightarrow> bool \<Rightarrow> nat \<Rightarrow> round list \<Rightarrow> u32 \<Rightarrow> event list \<times> nat \<times> bool" where
  "reconcile_task alive has_lid k [] ext = ([], 0, True)"
| "reconcile_task alive has_lid k (r # rs) ext =
     (if rd_wake r = ChannelClosed then ([], 0, False)
      else let trig = (case rd_wake r of ByTrigger t \<Rightarrow> Some t | _ \<Rightarrow> None);
               (evs, ticked, ext) = reconcile_round trig (rd_burst r) (rd_reads r) has_lid ext;
               n = (if ticked then 1 else 0)
           in if rd_closed r then ([], n, False)
              else (case evs of
                  [] \<Rightarrow> (let (out, ticks, ok) = reconcile_task alive has_lid k rs ext in (out, n + ticks, ok))
                | ev # _ \<Rightarrow>
                    if alive k
                    then (let (out, ticks, ok) = reconcile_task alive has_lid (Suc k) rs ext
                          in (ev # out, n + ticks, ok))
                    else ([], n, False)))"

section \<open>Every task hands over in order\<close>

fun events_in :: "sent list \<Rightarrow> nat" where
  "events_in [] = 0"
| "events_in (ToDispatcher _ # os) = Suc (events_in os)"
| "events_in (ToReconciler _ # os) = events_in os"
| "events_in (ToWaiter _ # os) = events_in os"

lemma events_in_append [simp]: "events_in (xs @ ys) = events_in xs + events_in ys"
  by (induction xs rule: events_in.induct) auto

lemma send_all_alive: "send_all (\<lambda>_. True) k os = (os, k + events_in os, True)"
  by (induction "\<lambda>_::nat. True" k os rule: send_all.induct) auto

text \<open>Without anyone to stop it, a task sends the outputs of its steps.\<close>

fun outputs :: "('m \<Rightarrow> 's \<Rightarrow> sent list \<times> 's) \<Rightarrow> 'm list \<Rightarrow> 's \<Rightarrow> sent list \<times> 's" where
  "outputs step [] s = ([], s)"
| "outputs step (m # ms) s =
     (let (os, s) = step m s; (os', s) = outputs step ms s in (os @ os', s))"

definition delivered_msgs :: "'m list option list \<Rightarrow> 'm list" where
  "delivered_msgs streams = concat (List.map_filter id streams)"

lemma delivered_msgs_simps [simp]:
  "delivered_msgs [] = []" "delivered_msgs (None # as) = delivered_msgs as"
  "delivered_msgs (Some ms # as) = ms @ delivered_msgs as"
  by (simp_all add: delivered_msgs_def List.map_filter_simps)

lemma outputs_append:
  "outputs step (xs @ ys) s =
     (fst (outputs step xs s) @ fst (outputs step ys (snd (outputs step xs s))),
      snd (outputs step ys (snd (outputs step xs s))))"
  by (induction xs arbitrary: s) (auto simp: Let_def split_beta)

lemma pump_alive:
  "pump step (\<lambda>_. True) k ms s
     = (fst (outputs step ms s), k + events_in (fst (outputs step ms s)), snd (outputs step ms s), True)"
  by (induction ms arbitrary: k s) (auto simp: Let_def split_beta send_all_alive)

lemma resubscribe_alive:
  "resubscribe step (\<lambda>_. True) k as s
     = (fst (outputs step (delivered_msgs as) s), k + events_in (fst (outputs step (delivered_msgs as) s)),
        snd (outputs step (delivered_msgs as) s), True)"
proof (induction as arbitrary: k s)
  case (Cons a as)
  then show ?case by (cases a) (auto simp: Let_def split_beta pump_alive outputs_append)
qed simp

text \<open>When the dispatcher goes away, what was sent is a beginning of what would have been sent.\<close>

lemma send_all_prefix: "\<exists>rest. os = fst (send_all alive k os) @ rest \<and> (snd (snd (send_all alive k os)) \<longrightarrow> rest = [])"
  by (induction alive k os rule: send_all.induct) (auto simp: Let_def split_beta)

lemma pump_prefix:
  "\<exists>rest. fst (outputs step ms s) = fst (pump step alive k ms s) @ rest
     \<and> (snd (snd (snd (pump step alive k ms s))) \<longrightarrow>
          rest = [] \<and> fst (snd (snd (pump step alive k ms s))) = snd (outputs step ms s))"
proof (induction ms arbitrary: k s)
  case (Cons m ms)
  let ?os = "fst (step m s)" and ?s = "snd (step m s)"
  let ?r = "send_all alive k ?os"
  obtain rest where r: "?os = fst ?r @ rest" "snd (snd ?r) \<longrightarrow> rest = []"
    using send_all_prefix [of ?os alive k] by blast
  from Cons obtain rest' where "fst (outputs step ms ?s) = fst (pump step alive (fst (snd ?r)) ms ?s) @ rest'"
    "snd (snd (snd (pump step alive (fst (snd ?r)) ms ?s))) \<longrightarrow>
       rest' = [] \<and> fst (snd (snd (pump step alive (fst (snd ?r)) ms ?s))) = snd (outputs step ms ?s)" by blast
  with r show ?case
  proof (cases "snd (snd ?r)")
    case False
    have "fst (outputs step (m # ms) s) = fst ?r @ (rest @ fst (outputs step ms ?s))"
      using r(1) by (simp add: Let_def split_beta)
    moreover have "pump step alive k (m # ms) s = (fst ?r, fst (snd ?r), ?s, False)"
      using False by (simp add: Let_def split_beta)
    ultimately show ?thesis by (simp only: fst_conv snd_conv) blast
  qed (auto simp: Let_def split_beta)
qed simp

text \<open>The wait for the lock hears of a change before the dispatcher's queue does.\<close>

fun waiter_first :: "sent list \<Rightarrow> bool" where
  "waiter_first [] = True"
| "waiter_first [ToWaiter _] = True"
| "waiter_first (ToWaiter b # ToDispatcher ev # os) = (ev = LockChanged b \<and> waiter_first os)"
| "waiter_first _ = False"

lemma lock_watcher_waiter_first: "waiter_first (fst (lock_watcher alive changes))"
proof -
  have "waiter_first (fst (pump lock_step alive k ms ()))" for k and ms :: "bool option list"
  proof (induction ms arbitrary: k)
    case (Cons v ms)
    then show ?case
      by (cases v) (auto simp: lock_step_def lock_event_def Let_def split_beta)
  qed simp
  then show ?thesis by (simp add: lock_watcher_def outcome_def)
qed

section \<open>Sources that report edges\<close>

text \<open>A source that keeps the last reading: a message either carries a reading, which is reported
  when it differs from the one kept, or it does not, and then the reading kept stays. \<open>edge\<close> marks
  the outputs that report readings.\<close>

locale edge_source =
  fixes step :: "'m \<Rightarrow> 's \<Rightarrow> sent list \<times> 's"
    and reading :: "'m \<Rightarrow> 's option"
    and report :: "'s \<Rightarrow> sent list"
    and other :: "'m \<Rightarrow> sent list"
    and edge :: "sent \<Rightarrow> bool"
  assumes no_reading: "reading m = None \<Longrightarrow> step m s = (other m, s)"
    and a_reading: "reading m = Some v \<Longrightarrow> step m s = (if v = s then [] else report v, v)"
    and report_edge: "o' \<in> set (report v) \<Longrightarrow> edge o'"
    and other_edge: "o' \<in> set (other m) \<Longrightarrow> \<not> edge o'"
begin

lemma filter_report: "filter edge (report v) = report v"
  using report_edge by (simp add: filter_id_conv)

lemma filter_other: "filter edge (other m) = []"
  using other_edge by (simp add: filter_empty_conv)

lemma outputs_edges:
  "filter edge (fst (outputs step ms s)) = concat (map report (edges s (List.map_filter reading ms)))
   \<and> snd (outputs step ms s) = last (s # List.map_filter reading ms)"
proof (induction ms arbitrary: s)
  case (Cons m ms)
  show ?case
  proof (cases "reading m")
    case None
    then show ?thesis using Cons by (simp add: no_reading Let_def split_beta List.map_filter_simps filter_other)
  next
    case (Some v)
    then show ?thesis
      using Cons by (auto simp: a_reading Let_def split_beta List.map_filter_simps filter_report)
  qed
qed (simp add: List.map_filter_simps)

end

section \<open>Properties\<close>

definition inhibitor_reading :: "properties_changed \<Rightarrow> bool option" where
  "inhibitor_reading sig = (case sig of
       None \<Rightarrow> None
     | Some (interface, props, rows) \<Rightarrow>
         if interface = ''org.freedesktop.login1.Manager'' \<and> (''BlockInhibited'' \<in> set props \<or> ''DelayInhibited'' \<in> set props)
         then logind_real_inhibitor_active rows else None)"

interpretation inhibitors: edge_source inhibitor_step inhibitor_reading "\<lambda>v. [ToDispatcher (Inhibitor False v)]"
  "\<lambda>_. []" "\<lambda>_. True"
  by unfold_locales
    (auto simp: inhibitor_step_def inhibitor_reading_def inhibitor_signal_def Let_def split: option.splits if_splits)

definition ac_reading :: "uevent_msg \<Rightarrow> bool option option" where
  "ac_reading m = (case um_recv m of
       Datagram buf \<Rightarrow>
         (case parse_uevent buf of
            Some ev \<Rightarrow> if ue_subsystem ev = ''power_supply'' then Some (on_ac_sysfs (um_fs m)) else None
          | None \<Rightarrow> None)
     | _ \<Rightarrow> None)"

definition is_ac :: "sent \<Rightarrow> bool" where
  "is_ac o' = (case o' of ToDispatcher (AcChanged _) \<Rightarrow> True | _ \<Rightarrow> False)"

definition ac_report :: "bool option \<Rightarrow> sent list" where
  "ac_report v = (case v of Some ac \<Rightarrow> [ToDispatcher (AcChanged ac)] | None \<Rightarrow> [])"

interpretation ac_uevents: edge_source uevent_step ac_reading ac_report
  "\<lambda>m. if ac_reading m = None then fst (uevent_step m None) else []" is_ac
proof
  fix m :: uevent_msg and s
  assume "ac_reading m = None"
  then show "uevent_step m s = (if ac_reading m = None then fst (uevent_step m None) else [], s)"
    by (auto simp: ac_reading_def uevent_step_def uevent_recv_def handle_uevent_def Let_def
        split: recv_result.splits option.splits if_splits)
next
  fix m :: uevent_msg and s v
  assume "ac_reading m = Some v"
  then show "uevent_step m s = (if v = s then [] else ac_report v, v)"
    by (auto simp: ac_reading_def ac_report_def uevent_step_def uevent_recv_def handle_uevent_def Let_def
        split: recv_result.splits option.splits if_splits)
next
  fix o' v
  assume "o' \<in> set (ac_report v)"
  then show "is_ac o'" by (auto simp: ac_report_def is_ac_def split: option.splits)
next
  fix o' and m :: uevent_msg
  assume "o' \<in> set (if ac_reading m = None then fst (uevent_step m None) else [])"
  then show "\<not> is_ac o'"
    by (auto simp: ac_reading_def is_ac_def uevent_step_def uevent_recv_def handle_uevent_def Let_def
        split: recv_result.splits option.splits if_splits)
qed

lemma concat_ac_report:
  "concat (map ac_report vs) = map (\<lambda>ac. ToDispatcher (AcChanged ac)) (List.map_filter id vs)"
  by (induction vs) (auto simp: ac_report_def List.map_filter_simps split: option.split)

lemma lost_outputs:
  "length (filter (\<lambda>o'. o' = ToReconciler UeventsLost) (fst (outputs uevent_step ms s)))
     = length (filter (\<lambda>m. um_recv m = NoBufs \<and> um_room m) ms)"
proof (induction ms arbitrary: s)
  case (Cons m ms)
  have "length (filter (\<lambda>o'. o' = ToReconciler UeventsLost) (fst (uevent_step m s)))
      = (if um_recv m = NoBufs \<and> um_room m then 1 else 0)"
    by (auto simp: uevent_step_def uevent_recv_def Let_def filter_map filter_empty_conv
        split: recv_result.splits option.splits prod.splits)
  then show ?case using Cons by (simp add: Let_def split_beta)
qed simp

lemma map_report_singleton: "concat (map (\<lambda>v. [f v]) vs) = map f vs"
  by (induction vs) auto

text \<open>The keep-awake claim the daemon holds is the last one logind reported: over any number of
  subscriptions, failed ones and unreadable signals included, the watcher of a live daemon sends
  exactly the readings that differ from the one before, in order, and goes on.\<close>
lemma inhibitor_watcher_reports_edges:
  assumes "\<forall>k. alive k" and "vs = List.map_filter inhibitor_reading (delivered_msgs streams)"
  shows "logind_inhibitor_watcher alive streams prev = (map (\<lambda>v. ToDispatcher (Inhibitor False v)) (edges prev vs), True)
     \<and> last (prev # edges prev vs) = last (prev # vs)"
proof -
  have "alive = (\<lambda>_. True)" using assms(1) by blast
  then show ?thesis
    using inhibitors.outputs_edges [of "delivered_msgs streams" prev] last_edges [of prev vs]
    by (simp only: logind_inhibitor_watcher_def outcome_def resubscribe_alive assms(2) map_report_singleton)
      (simp del: last.simps)
qed

definition block_signal :: "bool \<Rightarrow> properties_changed" where
  "block_signal held = Some (''org.freedesktop.login1.Manager'', [''BlockInhibited''],
     Some (if held then [\<lparr>ir_what = ''idle'', ir_who = ''mpv'', ir_why = [], ir_mode = ''block'', ir_uid = 1, ir_pid = 1\<rparr>]
           else []))"

lemma block_signal_reading: "inhibitor_reading (block_signal held) = Some held"
  by (simp add: inhibitor_reading_def block_signal_def logind_real_inhibitor_active_def real_idle_block_def
      INHIBIT_BASELINE_WHO_def)

lemma inhibitor_watcher_reports_edges_witness:
  "logind_inhibitor_watcher (\<lambda>_. True)
     [Some [block_signal True, None, block_signal True], None, Some [block_signal False]] False
     = ([ToDispatcher (Inhibitor False True), ToDispatcher (Inhibitor False False)], True)"
  using inhibitor_watcher_reports_edges [of "\<lambda>_. True" "[True, True, False]"
      "[Some [block_signal True, None, block_signal True], None, Some [block_signal False]]" False]
  by (simp add: List.map_filter_simps block_signal_reading inhibitor_reading_def [of None])

text \<open>C28: The sysfs fallback of the charger misses nothing it can see: over any number of sockets, the
  AC events of the uevent task are exactly the readings taken at power-supply uevents that differ
  from the reading before, started from the one at its start, and unknown readings are silent;
  every overflow of the socket asks the reconciler for a pass unless its queue is full; and the
  task never ends while the daemon lives.\<close>
theorem uevent_task_reports_ac_edges:
  assumes "\<forall>k. alive k" and "ms = delivered_msgs (map (map_option until_error) sockets)"
  shows "filter is_ac (fst (uevent_task alive fs sockets))
       = map (\<lambda>ac. ToDispatcher (AcChanged ac))
           (List.map_filter id (edges (on_ac_sysfs fs) (List.map_filter ac_reading ms)))
     \<and> length (filter (\<lambda>o'. o' = ToReconciler UeventsLost) (fst (uevent_task alive fs sockets)))
       = length (filter (\<lambda>m. um_recv m = NoBufs \<and> um_room m) ms)
     \<and> snd (uevent_task alive fs sockets)"
proof -
  have "alive = (\<lambda>_. True)" using assms(1) by blast
  then show ?thesis
    using ac_uevents.outputs_edges [of ms "on_ac_sysfs fs"] lost_outputs [of ms "on_ac_sysfs fs"] assms(2)
    by (simp add: uevent_task_def outcome_def resubscribe_alive concat_ac_report)
qed

definition lost_msg :: uevent_msg where
  "lost_msg = \<lparr>um_fs = \<lparr>fs_dir = (\<lambda>_. None), fs_file = (\<lambda>_. None), fs_canonical = (\<lambda>_. None)\<rparr>,
     um_recv = NoBufs, um_room = True\<rparr>"

theorem uevent_task_reports_ac_edges_witness:
  "length (filter (\<lambda>o'. o' = ToReconciler UeventsLost) (fst (uevent_task (\<lambda>_. True) (um_fs lost_msg)
     [Some [lost_msg, lost_msg\<lparr>um_recv := RecvErr\<rparr>, lost_msg], None, Some [lost_msg]]))) = 2"
  using uevent_task_reports_ac_edges [of "\<lambda>_. True" _
      "[Some [lost_msg, lost_msg\<lparr>um_recv := RecvErr\<rparr>, lost_msg], None, Some [lost_msg]]" "um_fs lost_msg", OF _ refl]
  by (simp add: until_error_def lost_msg_def)

end
