(* ===== verification/StatusCli.thy ===== *)
theory StatusCli
  imports Cli GpuDrift Boot
begin

text \<open>
  What the user reads about the machine: \<open>gpu status\<close> with the whole \<open>gpu\<close> subcommand over the
  files (\<open>src/cli/gpu.rs\<close>), the \<open>status\<close> summary (\<open>src/cli/status.rs\<close>), and the signal to the
  status bar (\<open>src/sysio/procs.rs\<close>).
\<close>

section \<open>gpu over the files\<close>

text \<open>\<open>ovr\<close> and \<open>crumb\<close> are the paths of the override file and of the breadcrumb.\<close>

definition resolve_mode_from_files :: "string \<Rightarrow> string \<Rightarrow> filesystem \<Rightarrow> gpu_mode \<times> gpu_mode_source" where
  "resolve_mode_from_files ovr crumb fs =
     (let override_word = read_first_word fs ovr;
          overlay = read_first_word fs crumb;
          platform = read_first_word fs PLATFORM_PROFILE_PATH;
          (mode, source, _) = resolve_gpu_mode override_word overlay platform
      in (mode, source))"

definition device_list :: "string list \<Rightarrow> string" where
  "device_list ds = join '':'' ds"

definition intent_lines :: "gpu_state_file option \<Rightarrow> string list" where
  "intent_lines st = (case st of
       Some f \<Rightarrow>
         [''intent : mode='' @ st_mode f @ '' reason='' @ st_reason f,
          ''         devices='' @ (if st_devices f = [] then ''(none)'' else device_list (st_devices f))]
     | None \<Rightarrow> [''intent : (no state file)''])"

definition actual_line :: "string list option \<Rightarrow> string" where
  "actual_line actual = (case actual of
       None \<Rightarrow> ''actual : (no Hyprland session found)''
     | Some ds \<Rightarrow>
         if ds = [] then ''actual : (compositor defaults '' @ em_dash @ '' AQ_DRM_DEVICES unset)''
         else ''actual : '' @ device_list ds)"

definition desired_line :: "gpu_mode \<Rightarrow> gpu_mode_source \<Rightarrow> string list option \<Rightarrow> string \<Rightarrow> string" where
  "desired_line mode source desired reason = (case desired of
       None \<Rightarrow> ''desired: (unmanaged '' @ em_dash @ '' '' @ reason @ '')''
     | Some ds \<Rightarrow> ''desired: '' @ device_list ds @ ''  (mode='' @ gpu_mode_as_str mode @ ''/''
         @ gpu_mode_source_as_str source @ '', '' @ reason @ '')'')"

definition IN_SYNC :: string where "IN_SYNC = ''sync   : in sync''"
definition MISMATCH :: string where "MISMATCH = ''sync   : MISMATCH '' @ em_dash @ '' relog to apply''"

definition sync_lines :: "string list option \<Rightarrow> string list option \<Rightarrow> string list" where
  "sync_lines actual desired = (case gpu_sync actual desired of
       SyncUnknown \<Rightarrow> [] | InSync \<Rightarrow> [IN_SYNC] | Mismatch \<Rightarrow> [MISMATCH])"

definition route_str :: "route_tag \<Rightarrow> string" where
  "route_str r = (case r of
       RenderLocal \<Rightarrow> ''render-local (no copy)''
     | CopyPath cardn primary \<Rightarrow> ''COPY PATH '' @ cardn @ ''->'' @ primary
     | RenderUnknown \<Rightarrow> ''render GPU unknown'')"

definition output_lines :: "string option \<Rightarrow> (string \<times> string) list \<Rightarrow> string list" where
  "output_lines primary outs =
     (if outs = [] then []
      else ''outputs:'' # map (\<lambda>(connector, cardn). ''         '' @ pad_right 8 connector @ '' '' @ cardn @ ''  ''
             @ route_str (output_route primary cardn)) outs)"

text \<open>No result is a panic of \<open>gpu_desired\<close>; \<open>gpu_status_total\<close> shows that there is none.\<close>

definition gpu_status ::
  "string \<Rightarrow> string \<Rightarrow> string option \<Rightarrow> gpu_state_file option \<Rightarrow> filesystem \<Rightarrow> string list option" where
  "gpu_status ovr crumb lock st fs =
     (let actual = hyprland_aq_devices lock fs;
          (mode, source) = resolve_mode_from_files ovr crumb fs
      in case gpu_desired (read_gpu_snapshot fs) mode source of
           None \<Rightarrow> None
         | Some (desired, reason) \<Rightarrow>
             Some (intent_lines st @ [actual_line actual, desired_line mode source desired reason]
               @ sync_lines actual desired
               @ output_lines (primary_card actual) (connected_outputs fs)))"

text \<open>The subcommand: \<open>fs\<close> is what it reads first, \<open>settled\<close> what it reads after the settle delay, and
  \<open>exists\<close> the check of the device nodes. The result is the state file written, if any, and the
  lines of standard output.\<close>

definition gpu_command ::
  "string \<Rightarrow> string \<Rightarrow> string option \<Rightarrow> gpu_state_file option \<Rightarrow> filesystem \<Rightarrow> filesystem
     \<Rightarrow> (string \<Rightarrow> bool) \<Rightarrow> string \<Rightarrow> (gpu_state_file option \<times> string list) option" where
  "gpu_command ovr crumb lock st fs settled exists action =
     (if action = ''status'' then map_option (\<lambda>ls. (None, ls)) (gpu_status ovr crumb lock st fs)
      else let (mode, source) = resolve_mode_from_files ovr crumb fs in
        map_option (\<lambda>(written, printed). (written, case printed of Some ds \<Rightarrow> [device_list ds] | None \<Rightarrow> []))
          (gpu_run action mode source (read_gpu_snapshot fs) (read_gpu_snapshot settled) exists))"

section \<open>status\<close>

text \<open>The summary as a sequence: a line of its own, another program whose output streams through,
  or the status of another subcommand.\<close>

datatype status_item = Line string | Spawn "string list" | GpuStatus | PowerStatus

definition status_run :: "string option \<Rightarrow> bool \<Rightarrow> status_item list" where
  "status_run conf standing =
     [Line ''=== systemctl --user status hyprstate.service ==='',
      Spawn [''systemctl'', ''--user'', ''status'', ''hyprstate.service'', ''--no-pager''],
      Line (newline # ''=== last 20 log lines ===''),
      Spawn [''journalctl'', ''--user'', ''-u'', ''hyprstate.service'', ''-n'', ''20'', ''--no-pager''],
      Line (newline #
        (if pc_lid (load_power_conf conf) = lid_mode.Absent
         then ''lid: absent (power.conf) '' @ em_dash @ '' no handle-lid-switch inhibitor expected''
         else ''lid: present '' @ em_dash @ '' handle-lid-switch inhibitor held by hyprstate''))]
     @ (if standing then [Line ''idle-suspend request: standing''] else [])
     @ [Line (newline # ''=== logind inhibitors ===''),
        Spawn [''systemd-inhibit'', ''--list'', ''--no-pager''],
        Line (newline # ''=== gpu selection ===''), GpuStatus,
        Line (newline # ''=== power profile ===''), PowerStatus]"

section \<open>Signalling the status bar\<close>

fun first_prefixed :: "string \<Rightarrow> string list \<Rightarrow> string option" where
  "first_prefixed p [] = None"
| "first_prefixed p (l # ls) = (case strip_prefix p l of Some rest \<Rightarrow> Some rest | None \<Rightarrow> first_prefixed p ls)"

definition uid_from_status :: "string \<Rightarrow> u32 option" where
  "uid_from_status status =
     Option.bind (first_prefixed ''Uid:'' (lines status)) (\<lambda>rest. Option.bind (first_word rest) parse_u32)"

text \<open>An entry of \<open>/proc\<close>: its name and its \<open>comm\<close> and \<open>status\<close> files, when they can be read.\<close>

record proc_entry =
  pe_name :: string
  pe_comm :: "string option"
  pe_status :: "string option"

definition parse_pid :: "string \<Rightarrow> int option" where
  "parse_pid s = parse_signed (- (2 ^ 31)) (2 ^ 31 - 1) s"

definition signal_target :: "u32 \<Rightarrow> int \<Rightarrow> string \<Rightarrow> proc_entry \<Rightarrow> int option" where
  "signal_target me_uid me_pid comm p = (case parse_pid (pe_name p) of
       None \<Rightarrow> None
     | Some pid \<Rightarrow>
         if pid = me_pid then None
         else (case pe_comm p of
             None \<Rightarrow> None
           | Some c \<Rightarrow>
               if trim_end c \<noteq> comm then None
               else (case pe_status p of
                   None \<Rightarrow> None
                 | Some st \<Rightarrow> if uid_from_status st \<noteq> Some me_uid then None else Some pid)))"

text \<open>The processes \<open>kill\<close> is called on, and how many calls succeeded.\<close>

definition signal_own_processes ::
  "u32 \<Rightarrow> int \<Rightarrow> string \<Rightarrow> (int \<Rightarrow> bool) \<Rightarrow> proc_entry list option \<Rightarrow> int list \<times> nat" where
  "signal_own_processes me_uid me_pid comm kill entries = (case entries of
       None \<Rightarrow> ([], 0)
     | Some ps \<Rightarrow>
         let targets = List.map_filter (signal_target me_uid me_pid comm) ps
         in (targets, length (filter kill targets)))"

section \<open>Facts\<close>

lemma gpu_desired_total: "gpu_desired sn mode source \<noteq> None"
  by (rule gpu_desired_cases [of sn mode source]) auto

lemma gpu_desired_nonempty: "gpu_desired sn mode source = Some (Some devices, reason) \<Longrightarrow> devices \<noteq> []"
  by (rule gpu_desired_cases [of sn mode source]) (auto simp: listed_devices_def)

lemma gpu_status_total: "gpu_status ovr crumb lock st fs \<noteq> None"
  using gpu_desired_total [of "read_gpu_snapshot fs" "fst (resolve_mode_from_files ovr crumb fs)"
      "snd (resolve_mode_from_files ovr crumb fs)"]
  by (simp add: gpu_status_def Let_def split_beta split: option.split)

lemma signal_own_only:
  "pid \<in> set (fst (signal_own_processes me_uid me_pid comm kill entries)) \<Longrightarrow>
     pid \<noteq> me_pid \<and> (\<exists>ps p st c. entries = Some ps \<and> p \<in> set ps \<and> parse_pid (pe_name p) = Some pid
       \<and> pe_comm p = Some c \<and> trim_end c = comm \<and> pe_status p = Some st \<and> uid_from_status st = Some me_uid)"
  by (fastforce simp: signal_own_processes_def signal_target_def Let_def map_filter_def
      split: option.splits if_splits)

text \<open>Only the two verdict lines start with an \<open>s\<close>.\<close>

lemma verdict_lines:
  assumes "gpu_status ovr crumb lock st fs = Some ls"
    and "resolve_mode_from_files ovr crumb fs = (mode, source)"
    and "gpu_desired (read_gpu_snapshot fs) mode source = Some (desired, reason)"
  shows "MISMATCH \<in> set ls \<longleftrightarrow> gpu_sync (hyprland_aq_devices lock fs) desired = Mismatch"
    and "IN_SYNC \<in> set ls \<longleftrightarrow> gpu_sync (hyprland_aq_devices lock fs) desired = InSync"
  using assms
  by (auto simp: gpu_status_def Let_def intent_lines_def actual_line_def desired_line_def sync_lines_def
      output_lines_def MISMATCH_def IN_SYNC_def em_dash_def split: option.splits sync_state.splits if_splits)

section \<open>Properties\<close>

definition two_gpus :: filesystem where
  "two_gpus = \<lparr>
     fs_dir = (\<lambda>d.
       if d = DRI_BY_PATH then Some [''pci-0000:c1:00.0-card'', ''pci-0000:03:00.0-card'']
       else if d = DRM_DIR then Some [''card0-eDP-1'', ''card1-DP-1''] else None),
     fs_file = (\<lambda>f.
       if f = ''/run/hyprland.lock'' then Some ''7''
       else if f = ''/proc/7/comm'' then Some ''Hyprland''
       else if f = ''/proc/7/environ'' then Some (''AQ_DRM_DEVICES=/dev/dri/card0'')
       else if f = ''/sys/class/drm/card0/device/class'' then Some ''0x030000''
       else if f = ''/sys/class/drm/card1/device/class'' then Some ''0x030000''
       else if f = ''/sys/class/drm/card0/device/boot_vga'' then Some ''1''
       else if f = ''/sys/class/drm/card1/device/mem_info_vram_total'' then Some ''8''
       else if f = ''/sys/class/drm/card0-eDP-1/status'' then Some ''connected''
       else if f = ''/sys/class/drm/card1-DP-1/status'' then Some ''connected''
       else None),
     fs_canonical = (\<lambda>l.
       if l = ''/dev/dri/by-path/pci-0000:c1:00.0-card'' then Some ''/dev/dri/card0''
       else if l = ''/dev/dri/by-path/pci-0000:03:00.0-card'' then Some ''/dev/dri/card1'' else None)\<rparr>"

lemmas fs_eval = path_join_def file_name_def or_default_def read_int_def starts_with_def ends_with_def strip_prefix_def
  trim_def trim_start_def trim_end_def is_whitespace_def

lemma two_gpus_links: "card_of_link two_gpus ''/dev/dri/by-path/pci-0000:c1:00.0-card'' = ''card0''"
  "card_of_link two_gpus ''/dev/dri/by-path/pci-0000:03:00.0-card'' = ''card1''"
  by (simp_all add: card_of_link_def two_gpus_def fs_eval)

lemma two_gpus_connectors: "card_connectors two_gpus ''card0'' = (0, 1)" "card_connectors two_gpus ''card1'' = (1, 0)"
  by (simp_all add: card_connectors_def connector_of_def connector_connected_def two_gpus_def fs_eval DRM_DIR_def DRI_BY_PATH_def)

lemma two_gpus_candidates: "is_gpu_candidate two_gpus ''/dev/dri/by-path/pci-0000:c1:00.0-card'' ''card0''"
  "is_gpu_candidate two_gpus ''/dev/dri/by-path/pci-0000:03:00.0-card'' ''card1''"
  by (simp_all add: is_gpu_candidate_def two_gpus_def fs_eval DRM_DIR_def Let_def)

lemma two_gpus_listing: "sort (filter (ends_with ''-card'')
            (map (path_join DRI_BY_PATH) (or_default [] (fs_dir two_gpus DRI_BY_PATH))))
  = [''/dev/dri/by-path/pci-0000:03:00.0-card'', ''/dev/dri/by-path/pci-0000:c1:00.0-card'']"
  by (simp add: two_gpus_def fs_eval DRI_BY_PATH_def DRM_DIR_def)

definition two_cards :: "gpu_card list" where
  "two_cards = [\<lparr>gc_path = ''/dev/dri/by-path/pci-0000:03:00.0-card'', gc_card = ''card1'', gc_boot_vga = 0,
       gc_vram = 8, gc_external = 1, gc_edp = 0\<rparr>,
     \<lparr>gc_path = ''/dev/dri/by-path/pci-0000:c1:00.0-card'', gc_card = ''card0'', gc_boot_vga = 1,
       gc_vram = 0, gc_external = 0, gc_edp = 1\<rparr>]"

lemma two_gpus_ints:
  "read_int two_gpus (path_join (path_join (path_join DRM_DIR ''card1'') ''device'') ''boot_vga'') 0 = 0"
  "read_int two_gpus (path_join (path_join (path_join DRM_DIR ''card0'') ''device'') ''boot_vga'') 0 = 1"
  "read_int two_gpus (path_join (path_join (path_join DRM_DIR ''card1'') ''device'') ''mem_info_vram_total'') 0 = 8"
  "read_int two_gpus (path_join (path_join (path_join DRM_DIR ''card0'') ''device'') ''mem_info_vram_total'') 0 = 0"
  by (simp_all add: two_gpus_def fs_eval DRM_DIR_def parse_unsigned_def parse_digits_def is_ascii_digit_def)

lemma two_gpus_snapshot:
  "read_gpu_snapshot two_gpus = \<lparr>gs_cards = two_cards, gs_non_pci_display = False, gs_lid_closed = False\<rparr>"
proof -
  have "lid_closed_sysfs two_gpus = False"
    by (simp add: lid_closed_sysfs_def two_gpus_def LID_STATE_GLOB_DIR_def DRI_BY_PATH_def DRM_DIR_def)
  moreover have "starts_with ''card'' ''card0''" "starts_with ''card'' ''card1''" by (simp_all add: starts_with_def)
  ultimately show ?thesis
    unfolding read_gpu_snapshot_def two_gpus_listing
    by (simp add: two_gpus_links two_gpus_connectors two_gpus_candidates gpu_card_at_def two_gpus_ints two_cards_def Let_def)
qed

lemma two_gpus_desired:
  "gpu_desired (read_gpu_snapshot two_gpus) gpu_mode.Auto gpu_mode_source.Default
     = Some (Some [''/dev/dri/card1'', ''/dev/dri/card0''], ''dgpu-has-display'')"
proof -
  have i: "integrated_card two_cards = Some 1"
    by (simp add: integrated_card_def two_cards_def upt_rec)
  have "sorted_discretes two_cards 1 = [0]"
    by (simp add: sorted_discretes_def two_cards_def upt_rec)
  then show ?thesis
    by (simp add: two_gpus_snapshot gpu_desired_def i choose_primary_def listed_devices_def gpu_usable_def
        lit_card_def devnode_def) (simp add: two_cards_def)
qed

text \<open>C35: \<open>gpu status\<close> and the daemon give the same advice. On a machine that stands still, with the
  breadcrumb the daemon wrote for the matched profile, a session with a device list of its own, no
  shadow mode and a worker whose queue has room: when \<open>status\<close> prints the mismatch, the daemon's
  first drift check does exactly one thing outward, it hands the worker the notification, with the
  reason and the first of the devices that \<open>status\<close> prints as desired; when \<open>status\<close> prints none,
  the check does nothing outward and remembers no advice.\<close>
theorem status_and_daemon_agree:
  assumes "gpu_status (gpu_override_path e) crumb (hypr_lock_path e) st fs = Some ls"
    and "\<forall>k. q_fs e k = fs" and "hyprland_aq_devices (hypr_lock_path e) fs = Some ds" and "ds \<noteq> []"
    and "read_first_word fs crumb = (if pref = gpu_pref.Auto then None else Some (ext_gpu_pref_str e pref))"
    and "gpu_actual_pending s" and "gpu_last_notified s = None" and "gpu_last_notify_at s = None"
    and "\<not> shadow s" and "\<forall>k. q_worker e k"
  shows "(MISMATCH \<in> set ls \<longrightarrow>
            (\<exists>mode source desired reason. desired \<noteq> [] \<and> desired \<noteq> ds
               \<and> desired_line mode source (Some desired) reason \<in> set ls
               \<and> log (snd (gpu_drift_check e trig pref s)) = log s
                   @ [Worker (Notify (GpuDrift (last (split_char (CHR ''/'') (hd desired))) reason trig (on_ac s)))]
               \<and> gpu_last_notified (snd (gpu_drift_check e trig pref s)) = Some (join '':'' desired)))
     \<and> (MISMATCH \<notin> set ls \<longrightarrow>
            log (snd (gpu_drift_check e trig pref s)) = log s
            \<and> gpu_last_notified (snd (gpu_drift_check e trig pref s)) = None)"
proof -
  obtain mode source where m: "resolve_mode_from_files (gpu_override_path e) crumb fs = (mode, source)" by fastforce
  obtain desired reason where d: "gpu_desired (read_gpu_snapshot fs) mode source = Some (desired, reason)"
    using gpu_desired_total [of "read_gpu_snapshot fs" mode source] by auto
  have r: "fst (resolve_session_gpu_mode e pref s) = (mode, source)"
    using m assms(2,5)
    by (auto simp: resolve_session_gpu_mode_def resolve_mode_from_files_def ask_def Let_def split: prod.splits)
  have c: "gpu_drift_check e trig pref s = (mode, check_and_notify_drift e trig mode source (s\<lparr>tick := Suc (tick s)\<rparr>))"
    using r by (simp add: gpu_drift_check_def Let_def split_beta)
  have l: "desired_line mode source desired reason \<in> set ls"
    using assms(1) m d by (auto simp: gpu_status_def Let_def)
  have ne: "dl \<noteq> []" if "desired = Some dl" for dl
    using gpu_desired_nonempty d that by blast
  have "MISMATCH \<in> set ls \<longleftrightarrow> (\<exists>dl. desired = Some dl \<and> dl \<noteq> ds)"
    using verdict_lines(1) [OF assms(1) m d] assms(3,4) by (auto simp: gpu_sync_def split: option.split)
  moreover have "log (snd (gpu_drift_check e trig pref s)) = log s
      \<and> gpu_last_notified (snd (gpu_drift_check e trig pref s)) = None" if "desired = None \<or> desired = Some ds"
    using that c d assms(2-4,6-8)
    by (auto simp: check_and_notify_drift_def resolve_gpu_actual_def ask_def Let_def)
  moreover have "log (snd (gpu_drift_check e trig pref s)) = log s
        @ [Worker (Notify (GpuDrift (last (split_char (CHR ''/'') (hd dl))) reason trig (on_ac s)))]
      \<and> gpu_last_notified (snd (gpu_drift_check e trig pref s)) = Some (join '':'' dl)"
    if "desired = Some dl" "dl \<noteq> ds" for dl
    using that ne [OF that(1)] c d assms(2-4,6-10)
    by (simp add: check_and_notify_drift_def resolve_gpu_actual_def ask_def Let_def notify_if_new_def
        notify_gpu_drift_def send_cmd_def emit_def split: list.split)
  ultimately show ?thesis using l ne by (cases desired) fastforce+
qed

lemma two_gpus_files:
  "fs_file two_gpus ''/run/hyprland.lock'' = Some ''7''" "fs_file two_gpus ''/proc/7/comm'' = Some ''Hyprland''"
  "fs_file two_gpus ''/proc/7/environ'' = Some ''AQ_DRM_DEVICES=/dev/dri/card0''"
  "fs_file two_gpus ''gpu-profile'' = None" "fs_file two_gpus ''gpu-select'' = None"
  "fs_file two_gpus PLATFORM_PROFILE_PATH = None"
  by (simp_all add: two_gpus_def PLATFORM_PROFILE_PATH_def)

lemma two_gpus_actual: "hyprland_aq_devices (Some ''/run/hyprland.lock'') two_gpus = Some [''/dev/dri/card0'']"
proof -
  have "lines ''7'' = [''7'']" "trim ''7'' = ''7''" "parse_u32 ''7'' = Some 7" "trim ''Hyprland'' = ''Hyprland''"
    by (simp_all add: lines_def newline_def strip_cr_def fs_eval parse_u32_def parse_unsigned_def parse_digits_def
        is_ascii_digit_def)
  moreover have n: "nat_str 7 = ''7''" by code_simp
  ultimately have "hyprland_pid (Some ''/run/hyprland.lock'') two_gpus = Some 7"
    by (simp add: hyprland_pid_def two_gpus_files)
  then show ?thesis
    by (simp add: hyprland_aq_devices_def n two_gpus_files AQ_KEY_def starts_with_def nul_def)
qed

lemma two_gpus_mode: "resolve_mode_from_files ''gpu-select'' ''gpu-profile'' two_gpus = (gpu_mode.Auto, gpu_mode_source.Default)"
  by (simp add: resolve_mode_from_files_def read_first_word_def two_gpus_files resolve_gpu_mode_def resolve_overlay_def)

definition two_gpus_env :: "unit env" where
  "two_gpus_env = demo_env\<lparr>q_fs := \<lambda>_. two_gpus, hypr_lock_path := Some ''/run/hyprland.lock''\<rparr>"

theorem status_and_daemon_agree_witness:
  "\<exists>primary reason. log (snd (gpu_drift_check two_gpus_env ''startup'' gpu_pref.Auto (demo_sys False)))
     = [Worker (Notify (GpuDrift primary reason ''startup'' (on_ac (demo_sys False))))]"
proof -
  obtain ls where ls: "gpu_status ''gpu-select'' ''gpu-profile'' (Some ''/run/hyprland.lock'') None two_gpus = Some ls"
    using gpu_status_total by blast
  have m: "MISMATCH \<in> set ls"
    using verdict_lines(1) [OF ls two_gpus_mode two_gpus_desired] by (simp add: two_gpus_actual gpu_sync_def)
  have e: "gpu_override_path two_gpus_env = ''gpu-select''" "hypr_lock_path two_gpus_env = Some ''/run/hyprland.lock''"
    "\<forall>k. q_fs two_gpus_env k = two_gpus" "\<forall>k. q_worker two_gpus_env k"
    by (simp_all add: two_gpus_env_def demo_env_def)
  show ?thesis
    using status_and_daemon_agree [of two_gpus_env "''gpu-profile''" None two_gpus ls "[''/dev/dri/card0'']"
        gpu_pref.Auto "demo_sys False" "''startup''"] ls m e two_gpus_actual
    by (auto simp: demo_sys_def default_context_def daemon_ctx.defs read_first_word_def two_gpus_files)
qed

end
