(* ===== verification/LidCycle.thy ===== *)
theory LidCycle
  imports Machine
begin

text \<open>
  The laptop's main story, over the turns of \<open>Dispatcher\<close>: the lid closes, the grace period runs,
  the machine locks and suspends; or the lid opens again in time and nothing happens.
\<close>

section \<open>A lid event\<close>

lemma turn_lid:
  assumes "lid_present s"
  shows "turn e (Lid shut) s =
     sync_waybar (evaluate_fsms e (event_kind_of (Lid shut)) (event_label (Lid shut))
       (if shut then refresh_wayland_claim e (s\<lparr>lid_closed := True\<rparr>) else s\<lparr>lid_closed := False\<rparr>))"
  using assms
  by (simp add: turn_unfold route_event_def before_fsms_def gpu_gate_def power_gate_def Let_def)

lemma refresh_no_claim:
  "q_clients e (tick s) = Some [] \<Longrightarrow> refresh_wayland_claim e s = s\<lparr>tick := Suc (tick s), wayland_inhibitor := False\<rparr>"
  by (simp add: refresh_wayland_claim_def wayland_idle_inhibited_def any_client_inhibiting_idle_in_def ask_def Let_def)

text \<open>An evaluation that moves to another state than Suspending enters it.\<close>

lemma evaluate_moves:
  assumes "desired_state (state s) k (world s) = Some new" and "new \<noteq> state s" and "new \<noteq> fsm_state.Suspending"
  shows "evaluate_fsms e k l s = snd (on_enter e new Fresh ((emit (Transition (state s) new l) s)\<lparr>state := new\<rparr>))"
  using assms by (simp add: evaluate_fsms_def Let_def)

lemma set_edp_lid_grace: "lid_grace (set_edp e on s) = lid_grace s"
  by (simp add: set_edp_def send_cmd_def Let_def split_beta split: edp_policy.split)

lemma cancel_claim_watch_lid_grace: "lid_grace (cancel_claim_watch s) = lid_grace s"
  by (simp add: cancel_claim_watch_def split: option.split)

lemma enter_countdown:
  assumes "\<not> suspend_requested s"
  shows "grace_timer (snd (on_enter e fsm_state.Countdown Fresh s)) = Some (Task (lid_grace s) False)"
proof -
  let ?t = "set_edp e False (cancel_claim_watch s)"
  have "suspend_requested ?t = suspend_requested s"
    by (simp add: fsm_viewD(9) [OF fsm_view_set_edp] fsm_viewD(9) [OF fsm_view_cancel_claim_watch])
  then show ?thesis
    using assms by (simp add: on_enter_def Let_def fresh_grace set_edp_lid_grace cancel_claim_watch_lid_grace)
qed

lemma enter_countdown_lid_present: "lid_present (snd (on_enter e fsm_state.Countdown en s)) = lid_present s"
  by (auto simp: on_enter_def Let_def start_grace_timer_def cancel_grace_timer_def set_edp_def send_cmd_def
      cancel_claim_watch_def split_beta split: option.split edp_policy.split)

lemma enter_lid_open_no_timer: "grace_timer (snd (on_enter e fsm_state.LidOpen en s)) = None"
  by (auto simp: on_enter_def Let_def cancel_grace_timer_def set_edp_def send_cmd_def
      cancel_claim_watch_def split_beta split: option.split edp_policy.split)

section \<open>Closing and opening\<close>

definition lid_waits :: "'p sys \<Rightarrow> bool" where
  "lid_waits s \<longleftrightarrow> lid_present s \<and> ext_mon_count s = 0 \<and> \<not> suspend_requested s \<and> \<not> logind_inhibitor s
     \<and> (lid_ac s \<noteq> lid_ac_policy.Defer \<or> \<not> on_ac s)"

lemma lid_closes:
  assumes "state s = fsm_state.LidOpen" "lid_waits s" "\<forall>k. q_clients e k = Some []"
  shows "state (turn e (Lid True) s) = fsm_state.Countdown"
    and "grace_timer (turn e (Lid True) s) = Some (Task (lid_grace s) False)"
    and "world (turn e (Lid True) s) = world (s\<lparr>lid_closed := True, wayland_inhibitor := False\<rparr>)"
    and "lid_present (turn e (Lid True) s)" and "has_session (turn e (Lid True) s) = has_session s"
proof -
  let ?r = "s\<lparr>lid_closed := True, tick := Suc (tick s), wayland_inhibitor := False\<rparr>"
  let ?l = "event_label (Lid True)"
  let ?x = "(emit (Transition (state ?r) fsm_state.Countdown ?l) ?r)\<lparr>state := fsm_state.Countdown\<rparr>"
  have w: "world ?r = world (s\<lparr>lid_closed := True, wayland_inhibitor := False\<rparr>)"
    by (simp add: world_def inhibitor_def)
  have r: "refresh_wayland_claim e (s\<lparr>lid_closed := True\<rparr>) = ?r" using assms(3) by (simp add: refresh_no_claim)
  have "world_state (world ?r) = fsm_state.Countdown"
    using assms(2) by (auto simp: lid_waits_def world_def inhibitor_def world_state_def claim_governs_def Let_def)
  then have d: "desired_state (state ?r) event_kind.LidClose (world ?r) = Some fsm_state.Countdown"
    using assms(1) by (simp add: desired_state_def)
  have t: "turn e (Lid True) s = sync_waybar (snd (on_enter e fsm_state.Countdown Fresh ?x))"
    using assms(2) evaluate_moves [OF d] assms(1) by (simp add: turn_lid lid_waits_def r)
  show "state (turn e (Lid True) s) = fsm_state.Countdown"
    by (simp add: t state_world_sync_waybar on_enter_fields)
  have "\<not> suspend_requested ?x" "lid_grace ?x = lid_grace s" using assms(2) by (simp_all add: lid_waits_def)
  then show "grace_timer (turn e (Lid True) s) = Some (Task (lid_grace s) False)"
    by (simp add: t sync_waybar_fields enter_countdown)
  show "world (turn e (Lid True) s) = world (s\<lparr>lid_closed := True, wayland_inhibitor := False\<rparr>)"
    by (simp add: t state_world_sync_waybar on_enter_fields world_cong inhibitor_def w [symmetric])
  show "lid_present (turn e (Lid True) s)" using assms(2)
    by (simp add: t sync_waybar_def Let_def enter_countdown_lid_present lid_waits_def)
  show "has_session (turn e (Lid True) s) = has_session s"
    by (simp add: t fsm_viewD(7) [OF fsm_view_sync_waybar] on_enter_fields)
qed

lemma lid_opens:
  assumes "state s = fsm_state.Countdown" "lid_present s" "\<not> suspend_requested s"
  shows "state (turn e (Lid False) s) = fsm_state.LidOpen" and "grace_timer (turn e (Lid False) s) = None"
    and "\<not> suspend_requested (turn e (Lid False) s)"
proof -
  let ?r = "s\<lparr>lid_closed := False\<rparr>"
  have "world_state (world ?r) = fsm_state.LidOpen"
    using assms(3) by (simp add: world_def world_state_def Let_def)
  then have d: "desired_state (state ?r) event_kind.LidOpen (world ?r) = Some fsm_state.LidOpen"
    using assms(1) by (simp add: desired_state_def)
  have t: "turn e (Lid False) s = sync_waybar (snd (on_enter e fsm_state.LidOpen Fresh
      ((emit (Transition (state ?r) fsm_state.LidOpen (event_label (Lid False))) ?r)\<lparr>state := fsm_state.LidOpen\<rparr>)))"
    using evaluate_moves [OF d] assms(1,2) by (simp add: turn_lid)
  show "state (turn e (Lid False) s) = fsm_state.LidOpen" "grace_timer (turn e (Lid False) s) = None"
    "\<not> suspend_requested (turn e (Lid False) s)"
    using assms(3) by (simp_all add: t state_world_sync_waybar on_enter_fields sync_waybar_fields enter_lid_open_no_timer)
qed

lemma expiry_after_opening:
  assumes "state s = fsm_state.LidOpen" "\<not> suspend_requested s"
  shows "state (turn e event.TimerExpired s) = fsm_state.LidOpen"
  using assms by (simp add: turn_timer_expired evaluate_fsms_def desired_state_def state_world_sync_waybar)

section \<open>Properties\<close>

text \<open>C4: Closing the lid of a laptop that is not docked, not asked to stay awake and not held by the
  charger suspends it after the grace period, and opening it in time cancels: the close starts the
  countdown with a timer of exactly the configured grace; when that timer's expiry is handled, the
  machine, with a live locker and a willing logind, is suspended; but when the lid opens first, it
  is back to LidOpen without a timer, even if the expiry was already in the queue.\<close>
theorem closing_the_lid_suspends:
  assumes "state s = fsm_state.LidOpen" "lid_present s" "ext_mon_count s = 0" "\<not> suspend_requested s"
    and "\<not> logind_inhibitor s" "lid_ac s \<noteq> lid_ac_policy.Defer \<or> \<not> on_ac s" "has_session s"
    and "\<forall>k. q_clients e k = Some []" "\<forall>k. q_locked_hint e k = Some True"
    and "\<forall>k. q_compositor_lock e k = Some True" "\<forall>k. q_suspend e k"
    and "t = turn e (Lid True) s" and "u = t\<lparr>grace_timer := slept (grace_timer t)\<rparr>"
  shows "state t = fsm_state.Countdown \<and> grace_timer t = Some (Task (lid_grace s) False)
     \<and> state (turn e event.TimerExpired u) = fsm_state.Suspending
     \<and> (\<forall>v \<in> {t, u}. state (turn e (Lid False) v) = fsm_state.LidOpen
          \<and> grace_timer (turn e (Lid False) v) = None
          \<and> state (turn e event.TimerExpired (turn e (Lid False) v)) = fsm_state.LidOpen)"
proof -
  have waits: "lid_waits s" using assms(2-6) by (simp add: lid_waits_def)
  note c = lid_closes [OF assms(1) waits assms(8), folded assms(12)]
  let ?w = "world (s\<lparr>lid_closed := True, wayland_inhibitor := False\<rparr>)"
  have w: "\<not> wi_suspend_requested ?w" "world_state ?w = fsm_state.Countdown"
    using assms(3-6) by (auto simp: world_def inhibitor_def world_state_def claim_governs_def Let_def)
  have "suspend_requested t = wi_suspend_requested (world t)" by (simp add: world_def)
  with w c(3) have st: "\<not> suspend_requested t" "world_state (world t) = fsm_state.Countdown" by simp_all
  have u: "state u = state t" "world u = world t" "suspend_requested u = suspend_requested t"
    "has_session u = has_session t" "lid_present u = lid_present t"
    by (simp_all add: assms(13))
  have expires: "state (turn e event.TimerExpired u) = fsm_state.Suspending"
    using expiry_completes [of u e] u c(1,5) st assms(7,9-11) by simp
  have opens: "state (turn e (Lid False) v) = fsm_state.LidOpen \<and> grace_timer (turn e (Lid False) v) = None
      \<and> state (turn e event.TimerExpired (turn e (Lid False) v)) = fsm_state.LidOpen" if "v \<in> {t, u}" for v
  proof -
    have "v = t \<or> v = u" using that by blast
    then have v: "state v = fsm_state.Countdown" "lid_present v" "\<not> suspend_requested v"
      using u(1,3,5) c(1,4) st(1) by metis+
    show ?thesis by (intro conjI lid_opens(1,2) [OF v] expiry_after_opening [OF lid_opens(1,3) [OF v]])
  qed
  show ?thesis by (intro conjI ballI opens expires c(1,2); assumption?)
qed

definition demo_open :: "unit sys" where
  "demo_open = (demo_sys False)\<lparr>lid_closed := False, state := fsm_state.LidOpen\<rparr>"

theorem closing_the_lid_suspends_witness:
  "state (turn demo_env event.TimerExpired ((turn demo_env (Lid True) demo_open)
      \<lparr>grace_timer := slept (grace_timer (turn demo_env (Lid True) demo_open))\<rparr>)) = fsm_state.Suspending
   \<and> state (turn demo_env (Lid False) (turn demo_env (Lid True) demo_open)) = fsm_state.LidOpen"
proof -
  have "state demo_open = fsm_state.LidOpen" "lid_present demo_open" "ext_mon_count demo_open = 0"
    "\<not> suspend_requested demo_open" "\<not> logind_inhibitor demo_open"
    "lid_ac demo_open \<noteq> lid_ac_policy.Defer \<or> \<not> on_ac demo_open" "has_session demo_open"
    by (simp_all add: demo_open_def demo_sys_def default_context_def daemon_ctx.defs)
  moreover have "\<forall>k. q_clients demo_env k = Some []" "\<forall>k. q_locked_hint demo_env k = Some True"
    "\<forall>k. q_compositor_lock demo_env k = Some True" "\<forall>k. q_suspend demo_env k"
    by (simp_all add: demo_env_def)
  ultimately show ?thesis
    using closing_the_lid_suspends [of demo_open demo_env "turn demo_env (Lid True) demo_open", OF _ _ _ _ _ _ _ _ _ _ _ refl refl]
    by blast
qed

end
