(* ===== verification/Repair.thy ===== *)
theory Repair
  imports Machine Sources
begin

text \<open>
  A reconcile pass as a whole: what \<open>gather\<close> of \<open>src/daemon/sources/reconciler.rs\<close> reads, and the
  turn of the dispatcher that takes the snapshot over (\<open>handle_reconcile_tick\<close> of
  \<open>src/daemon/dispatcher.rs\<close>). The specification is \<open>seen\<close>, the world a snapshot shows; the pass
  brings the main machine to the state of that world. Both sides of the external-monitor count are
  followed, the one the dispatcher keeps and the one the reconciler keeps for itself.
\<close>

section \<open>The world a snapshot shows\<close>

text \<open>Where the snapshot has no answer the context keeps its own; a request stands by its file.\<close>

definition seen :: "reconcile_snapshot \<Rightarrow> 'p sys \<Rightarrow> world_inputs" where
  "seen snap s = \<lparr>wi_lid_closed = (if lid_present s then rs_lid_closed snap else lid_closed s),
     wi_ext_mon_count = rs_ext_mon_count snap,
     wi_inhibitor = rs_logind_inhibitor snap \<or> or_default (wayland_inhibitor s) (rs_wayland_inhibitor snap),
     wi_suspend_requested = suspend_request_standing s,
     wi_locked = or_default (locked s) (rs_locked snap),
     wi_battery_low = low_battery s \<and> \<not> on_ac_settled s,
     wi_lid_ac_hold = lid_ac s = lid_ac_policy.Defer \<and> or_default (on_ac s) (rs_on_ac snap)\<rparr>"

lemma repair_parts_fields:
  "snd (repair_lid snap s) = s\<lparr>lid_closed := if lid_present s then rs_lid_closed snap else lid_closed s\<rparr>"
  "snd (repair_request s) = s\<lparr>suspend_requested := suspend_request_standing s\<rparr>"
  "snd (repair_claims snap s) = s\<lparr>logind_inhibitor := rs_logind_inhibitor snap,
     wayland_inhibitor := or_default (wayland_inhibitor s) (rs_wayland_inhibitor snap)\<rparr>"
  "snd (repair_ac snap s) = s\<lparr>on_ac := or_default (on_ac s) (rs_on_ac snap)\<rparr>"
  by (auto simp: repair_lid_def repair_request_def repair_claims_def repair_ac_def Let_def or_default_def
      split: option.split)

lemma repair_lock_world: "world (snd (repair_lock snap s)) = world (s\<lparr>locked := or_default (locked s) (rs_locked snap)\<rparr>)"
  by (auto simp: repair_lock_def or_default_def world_def inhibitor_def split: option.split)

lemma repair_ext_mon_fields:
  assumes "t = snd (repair_ext_mon snap s)"
  shows "lid_closed t = lid_closed s" "ext_mon_count t = rs_ext_mon_count snap"
    "logind_inhibitor t = logind_inhibitor s" "wayland_inhibitor t = wayland_inhibitor s"
    "suspend_requested t = suspend_requested s" "locked t = locked s" "low_battery t = low_battery s"
    "on_ac_settled t = on_ac_settled s" "lid_ac t = lid_ac s" "on_ac t = on_ac s" "lid_present t = lid_present s"
    "state t = state s"
  using assms
  by (auto simp: repair_ext_mon_def schedule_profile_reconcile_def Let_def split: option.split)

lemma world_repaired: "world (snd (snd (repair_snapshot snap s))) = seen snap s"
  by (simp add: repair_snapshot_def Let_def split_beta repair_parts_fields repair_lock_def seen_def
      world_def inhibitor_def repair_ext_mon_fields [OF refl] suspend_request_standing_def or_default_def
      split: option.split)

lemma repaired_fields:
  assumes "d = snd (snd (repair_snapshot snap s))"
  shows "low_battery d = low_battery s" "state d = state s" "on_ac_settled d = on_ac_settled s"
  using assms
  by (auto simp: repair_snapshot_def Let_def split_beta repair_parts_fields repair_ext_mon_fields [OF refl]
      repair_lock_def split: option.split)

text \<open>The pass up to the evaluation; what follows it leaves the machine's view alone.\<close>

definition repaired :: "'p env \<Rightarrow> reconcile_snapshot \<Rightarrow> 'p sys \<Rightarrow> 'p sys" where
  "repaired e snap s =
     (let (_, power_drift, d) = repair_snapshot snap s in if power_drift then repair_power e d else d)"

lemma turn_tick_view:
  "fsm_view (turn e (ReconcileTick snap) s) =
     fsm_view (if fst (repair_snapshot snap s)
       then evaluate_fsms e event_kind.CtxRepaired ''CtxRepaired'' (repaired e snap s)
       else repaired e snap s)"
proof -
  let ?f = "if fst (repair_snapshot snap s)
     then evaluate_fsms e event_kind.CtxRepaired ''CtxRepaired'' (repaired e snap s) else repaired e snap s"
  show ?thesis
    using view_tail [of e snap ?f]
    by (auto simp: turn_unfold route_event_def handle_reconcile_tick_def repaired_def Let_def split_beta frame_simps)
qed

lemma repaired_view:
  assumes "\<not> low_battery s" "\<not> suspend_request_standing s"
  shows "world (repaired e snap s) = seen snap s" "state (repaired e snap s) = state s"
proof -
  let ?d = "snd (snd (repair_snapshot snap s))"
  have w: "world ?d = seen snap s" by (rule world_repaired)
  have r: "\<not> suspend_requested ?d" "\<not> low_battery ?d"
    using assms repaired_fields(1) [OF refl, of snap s] arg_cong [OF w, of wi_suspend_requested]
    by (simp_all add: seen_def world_def)
  have "world (?d\<lparr>on_ac_settled := on_ac ?d\<rparr>) = world ?d" using r(2) by (simp add: world_def inhibitor_def)
  then have "world (repair_power e ?d) = world ?d" "state (repair_power e ?d) = state ?d"
    using fsm_viewD(1,2) [OF repair_power_unrequested [OF r, of e]] by simp_all
  then show "world (repaired e snap s) = seen snap s" "state (repaired e snap s) = state s"
    using w repaired_fields(2) [OF refl, of snap s] by (simp_all add: repaired_def Let_def split_beta)
qed

lemma evaluate_repaired:
  assumes "state s \<noteq> fsm_state.Suspending"
  shows "state (evaluate_fsms e event_kind.CtxRepaired l s) = world_state (world s)"
  using assms main_fsm.ordinary [of "state s" event_kind.CtxRepaired "world s"]
    main_fsm.derive_not_commit [of "world s"]
  by (auto simp: state_evaluate_fsms)

lemma pass_exact:
  assumes "state s \<noteq> fsm_state.Suspending" "\<not> low_battery s" "\<not> suspend_request_standing s"
  shows "world (turn e (ReconcileTick snap) s) = seen snap s"
    and "state (turn e (ReconcileTick snap) s)
      = (if fst (repair_snapshot snap s) then world_state (seen snap s) else state s)"
  using assms(1) repaired_view [OF assms(2,3), of e snap] evaluate_repaired [of "repaired e snap s" e]
    fsm_viewD(1,2) [OF turn_tick_view, of e snap s]
  by (simp_all add: world_evaluate_fsms split: if_splits)

lemma pass_state:
  assumes "state s \<noteq> fsm_state.Suspending" "\<not> low_battery s" "\<not> suspend_request_standing s"
    and "fst (repair_snapshot snap s)
       \<or> state s = world_state (world s) \<and> (rs_on_ac snap = None \<or> rs_on_ac snap = Some (on_ac s))"
  shows "state (turn e (ReconcileTick snap) s) = world_state (seen snap s)
     \<and> world (turn e (ReconcileTick snap) s) = seen snap s"
proof (cases "fst (repair_snapshot snap s)")
  case False
  then have "repair_snapshot snap s = (False, False, s)" using assms(4) repair_quiet by blast
  then have "world s = seen snap s" using world_repaired [of snap s] by simp
  then show ?thesis using pass_exact [OF assms(1-3)] assms(4) False by simp
qed (simp add: pass_exact [OF assms(1-3)])

text \<open>A hotplug whose question hyprctl does not answer leaves the count alone.\<close>

lemma kept_count:
  "ext_mon_count (turn (e\<lparr>q_monitors := \<lambda>_. None\<rparr>) (MonitorHotplug up name) s) = ext_mon_count s"
  using law.extends_cond [OF law_turn, of "e\<lparr>q_monitors := \<lambda>_. None\<rparr>" "MonitorHotplug up name" s]
  by (simp add: law_cond_def ext_after_def ext_monitor_count_def ext_monitor_count_in_def ask_def Let_def)

definition demo_opened :: reconcile_snapshot where
  "demo_opened = \<lparr>rs_reasons = [], rs_lid_closed = False, rs_ext_mon_count = 1,
     rs_logind_inhibitor = False, rs_wayland_inhibitor = Some False, rs_locked = Some False,
     rs_on_ac = None, rs_edp_disabled = None, rs_dpms_off = None, rs_cursor_pos = None\<rparr>"

section \<open>Properties\<close>

text \<open>C10: A reconcile pass brings the machine to the world its snapshot shows. Outside Suspending, with
  the battery not low and no request standing, the turn that takes the snapshot over ends with the
  world the snapshot shows, answer by answer (what it could not read keeps the daemon's value). Its
  state is the one that world derives whenever the lid, a request, the monitors, a claim or the lock
  had drifted, or the state followed the world and the snapshot confirms or does not know the AC state.
  A pass that finds nothing but the AC state changed leaves the state as it was.\<close>
theorem pass_adopts_snapshot:
  assumes "state s \<noteq> fsm_state.Suspending" "\<not> low_battery s" "\<not> suspend_request_standing s"
  shows "world (turn e (ReconcileTick snap) s) = seen snap s
     \<and> state (turn e (ReconcileTick snap) s)
         = (if fst (repair_snapshot snap s) then world_state (seen snap s) else state s)
     \<and> (state s = world_state (world s) \<and> (rs_on_ac snap = None \<or> rs_on_ac snap = Some (on_ac s))
          \<longrightarrow> state (turn e (ReconcileTick snap) s) = world_state (seen snap s))"
  using pass_exact [OF assms] pass_state [OF assms] by blast

definition demo_docked :: "unit sys" where
  "demo_docked = (demo_sys False)\<lparr>ext_mon_count := 1, state := fsm_state.Docked\<rparr>"

definition blind_reads :: gather_reads where
  "blind_reads = \<lparr>gr_lid = Some True, gr_monitors = None, gr_inhibitors = Some [], gr_clients = Some [],
     gr_session = None, gr_fs = empty_fs, gr_cursor = None\<rparr>"

lemma demo_docked_fields:
  "state demo_docked = fsm_state.Docked" "\<not> low_battery demo_docked" "\<not> suspend_request_standing demo_docked"
  "lid_present demo_docked" "ext_mon_count demo_docked = 1" "lid_ac demo_docked \<noteq> lid_ac_policy.Defer"
  by (simp_all add: demo_docked_def demo_sys_def default_context_def suspend_request_standing_def daemon_ctx.defs)

theorem pass_adopts_snapshot_witness:
  "state (turn demo_env (ReconcileTick demo_opened) demo_docked) = fsm_state.LidOpen"
proof -
  have "fst (repair_snapshot demo_opened demo_docked)"
    by (simp add: repair_snapshot_def Let_def split_beta repair_lid_def demo_opened_def demo_docked_def demo_sys_def
        default_context_def daemon_ctx.defs)
  moreover have "world_state (seen demo_opened demo_docked) = fsm_state.LidOpen"
    using demo_docked_fields(3,4) by (simp add: seen_def world_state_def demo_opened_def Let_def)
  ultimately show ?thesis
    using pass_adopts_snapshot [of demo_docked demo_env demo_opened] demo_docked_fields(1-3) by simp
qed

text \<open>C11: One failed hyprctl call can undock a docked laptop: the dispatcher keeps its count of
  external monitors when hyprctl does not answer a hotplug, but the reconciler falls back on the
  count of its own last pass, so a pass that cannot read the monitors after a dock reports none and
  sends the docked, closed machine into the countdown to suspend.\<close>
theorem failed_read_undocks:
  assumes "reconcile_round trig burst r True 0 = ([ReconcileTick snap], passed, n)"
    and "gr_monitors r = None" "gr_lid r = Some True"
    and "logind_real_inhibitor_active (gr_inhibitors r) \<noteq> Some True" "gr_clients r = Some []"
    and "state s = fsm_state.Docked" "lid_present s" "ext_mon_count s > 0" "lid_ac s \<noteq> lid_ac_policy.Defer"
    and "\<not> low_battery s" "\<not> suspend_request_standing s"
  shows "ext_mon_count (turn e (ReconcileTick snap) s) = 0
     \<and> state (turn e (ReconcileTick snap) s) = fsm_state.Countdown
     \<and> ext_mon_count (turn (e\<lparr>q_monitors := \<lambda>_. None\<rparr>) (MonitorHotplug up name) s) = ext_mon_count s"
proof -
  have snap: "rs_lid_closed snap" "rs_ext_mon_count snap = 0" "\<not> rs_logind_inhibitor snap"
    "rs_wayland_inhibitor snap = Some False"
    using assms(1-5) by (auto simp: reconcile_round_def gather_def Let_def or_default_def ext_monitor_count_in_def
        any_client_inhibiting_idle_in_def split: option.splits)
  have drift: "fst (repair_snapshot snap s)"
    using snap(2) assms(8)
    by (auto simp: repair_snapshot_def Let_def split_beta repair_ext_mon_def repair_lid_def repair_request_def)
  have "world_state (seen snap s) = fsm_state.Countdown"
    using snap assms(7,9,11) by (simp add: seen_def world_state_def claim_governs_def or_default_def Let_def)
  moreover have "wi_ext_mon_count (seen snap s) = 0" using snap(2) by (simp add: seen_def)
  moreover have "ext_mon_count (turn e (ReconcileTick snap) s) = wi_ext_mon_count (world (turn e (ReconcileTick snap) s))"
    by (simp add: world_def)
  ultimately show ?thesis
    using pass_state [of s snap e] drift assms(6,10,11) kept_count [of e up name s] by simp
qed

theorem failed_read_undocks_witness:
  "\<exists>snap. reconcile_round (Some RtMonitorHotplug) [] blind_reads True 0 = ([ReconcileTick snap], False, 0)
     \<and> state (turn demo_env (ReconcileTick snap) demo_docked) = fsm_state.Countdown"
proof -
  obtain snap where r: "reconcile_round (Some RtMonitorHotplug) [] blind_reads True 0 = ([ReconcileTick snap], False, 0)"
    by (simp add: reconcile_round_def gather_def blind_reads_def Let_def ext_monitor_count_in_def)
  have "gr_monitors blind_reads = None" "gr_lid blind_reads = Some True" "gr_clients blind_reads = Some []"
    "logind_real_inhibitor_active (gr_inhibitors blind_reads) \<noteq> Some True"
    by (simp_all add: blind_reads_def logind_real_inhibitor_active_def)
  then show ?thesis
    using failed_read_undocks [OF r, of demo_docked demo_env True "''DP-1''"] r demo_docked_fields by auto
qed

end
