(* ===== verification/Entry.thy ===== *)
theory Entry
  imports StatusCli ProfileCli SleepHook
begin

text \<open>
  The entry point, \<open>src/main.rs\<close>, with the dispatch of \<open>src/cli/profile.rs\<close>: one command line, as
  clap hands it over, taken to its subcommand. What the subcommands do is modelled in \<open>Cli\<close>,
  \<open>StatusCli\<close>, \<open>ProfileCli\<close> and \<open>SleepHook\<close>; here they act on one session, the files and devices any
  of them touches. The result is the exit code and the session left. A panic ends with 101.
\<close>

section \<open>The command line\<close>

datatype cli_cmd =
    CmdDaemon bool
  | CmdPowerd bool
  | CmdSleepHook "string option" "string option"
  | CmdGpu string
  | CmdPower string "string option" bool
  | CmdProfile string "string option" string string "int option" bool bool
  | CmdKbd string "string option"
  | CmdSuspend string
  | CmdStatus

text \<open>The \<open>value_parser\<close> lists: clap rejects any other word before \<open>main\<close> sees it.\<close>

fun admitted :: "cli_cmd \<Rightarrow> bool" where
  "admitted (CmdGpu action) = (action \<in> {''select'', ''check'', ''status''})"
| "admitted (CmdPower action _ _) = (action \<in> {''set'', ''get'', ''cycle'', ''status''})"
| "admitted (CmdProfile action _ edp gpu _ _ _) =
     (action \<in> {''list'', ''current'', ''switch'', ''save'', ''migrate'', ''verify''}
      \<and> edp \<in> {''auto'', ''enable'', ''disable''} \<and> gpu \<in> {''auto'', ''igpu'', ''dgpu''})"
| "admitted (CmdKbd action _) = (action \<in> {''status'', ''set'', ''up'', ''down'', ''auto''})"
| "admitted (CmdSuspend action) = (action \<in> {''request'', ''cancel'', ''status''})"
| "admitted _ = True"

definition save_opts_of :: "string \<Rightarrow> string \<Rightarrow> int option \<Rightarrow> bool \<Rightarrow> bool \<Rightarrow> save_opts" where
  "save_opts_of edp gpu priority force dry_run =
     \<lparr>so_edp = (if edp = ''enable'' then edp_policy.Enable
                else if edp = ''disable'' then edp_policy.Disable else edp_policy.Auto),
      so_gpu = (if gpu = ''igpu'' then gpu_pref.Igpu
                else if gpu = ''dgpu'' then gpu_pref.Dgpu else gpu_pref.Auto),
      so_priority = priority, so_force = force, so_dry_run = dry_run\<rparr>"

section \<open>The session and the answers\<close>

record session =
  se_files :: user_files
  se_profiles :: directory
  se_link :: "string option"
  se_gpu :: "gpu_state_file option"
  se_bus :: bus
  se_reloads :: nat

record 'q answers =
  an_daemon :: "bool \<Rightarrow> bool"
  an_powerd :: "bool \<Rightarrow> bool"
  an_io :: bool
  an_marker_io :: bool
  an_file_io :: "string \<Rightarrow> bool"
  an_readable :: "string \<Rightarrow> bool"
  an_policy :: power_policy
  an_powerd_query :: "string + string \<times> (string \<times> string) list"
  an_kbd_status :: "string list"
  an_override_path :: string
  an_breadcrumb_path :: string
  an_lock_path :: "string option"
  an_fs :: filesystem
  an_settled :: filesystem
  an_exists :: "string \<Rightarrow> bool"
  an_kernel :: "nat \<Rightarrow> kernel_attempt"
  an_crate :: "'q profile_crate"
  an_edp_str :: "edp_policy \<Rightarrow> string"
  an_gpu_str :: "gpu_pref \<Rightarrow> string"
  an_user :: "'q monitor_profile list"
  an_system :: "'q monitor_profile list"
  an_outputs :: "(string \<times> string) list"
  an_signature :: "string list"
  an_monitors :: "monitor_snapshot list"
  an_date :: string
  an_dir :: string
  an_listing :: "directory \<Rightarrow> string list"

section \<open>profile\<close>

definition needs_live :: "string \<Rightarrow> bool" where
  "needs_live action = (action \<in> {''list'', ''current'', ''switch'', ''save''})"

definition profile_run :: "'q answers \<Rightarrow> string \<Rightarrow> string option \<Rightarrow> save_opts \<Rightarrow> session \<Rightarrow> int \<times> session" where
  "profile_run w action name opts se =
     (let (profiles, d) = (if needs_live action
             then load_and_render (an_crate w) (an_file_io w) (an_user w) (an_system w) (se_profiles se)
             else ([], se_profiles se));
          signature = (if needs_live action then an_signature w else []);
          se = se\<lparr>se_profiles := d\<rparr>
      in if action = ''save'' then
           (let (code, d) = profile_save (an_crate w) (an_edp_str w) (an_gpu_str w) (an_date w) (an_monitors w)
                   (an_file_io w) opts name d
            in (code, se\<lparr>se_profiles := d\<rparr>))
         else if action = ''list'' then (0, se)
         else if action = ''current'' then (0, se)
         else if action = ''switch'' then
           (let (code, link, reload) = profile_switch (an_io w) (an_dir w) profiles name (se_link se)
            in (code, se\<lparr>se_link := link, se_reloads := se_reloads se + (if reload then 1 else 0)\<rparr>))
         else if action = ''migrate'' then
           (let parse = (\<lambda>stem text. map_option (\<lambda>p. (pk_monitors (an_crate w) p, pk_to_toml (an_crate w) p))
                            (pk_legacy (an_crate w) stem text));
                left_dir = snd (snd (migrate parse (an_file_io w) (so_force opts) (so_dry_run opts) name (an_listing w d) d));
                (code, d') = migrate_run (an_crate w) (an_outputs w) (an_signature w) (an_readable w) (an_file_io w)
                   opts name (an_listing w d) (an_listing w left_dir) d
            in (code, se\<lparr>se_profiles := d'\<rparr>))
         else if action = ''verify'' then
           (fst (verify_code (verify_dir (an_crate w) (an_outputs w) (an_signature w) (an_readable w) name
                   (an_listing w d) d)), se)
         else (2, se))"

section \<open>main\<close>

definition with_files :: "command_result \<Rightarrow> session \<Rightarrow> int \<times> session" where
  "with_files r se = (fst r, se\<lparr>se_files := snd (snd r)\<rparr>)"

fun main_run :: "'q answers \<Rightarrow> cli_cmd \<Rightarrow> session \<Rightarrow> int \<times> session" where
  "main_run w (CmdDaemon sh) se = (if an_daemon w sh then 0 else 1, se)"
| "main_run w (CmdPowerd sess) se = (if an_powerd w sess then 0 else 1, se)"
| "main_run w (CmdSleepHook action _) se = (case action of
       Some a \<Rightarrow> (0, se\<lparr>se_bus := snd (run_hook a (an_kernel w) (se_bus se))\<rparr>)
     | None \<Rightarrow> (1, se))"
| "main_run w (CmdGpu action) se =
     (case gpu_command (an_override_path w) (an_breadcrumb_path w) (an_lock_path w) (se_gpu se)
             (an_fs w) (an_settled w) (an_exists w) action of
        None \<Rightarrow> (101, se)
      | Some (written, _) \<Rightarrow>
          (0, case written of Some f \<Rightarrow> if an_io w then se\<lparr>se_gpu := Some f\<rparr> else se | None \<Rightarrow> se))"
| "main_run w (CmdKbd action v) se =
     with_files (kbd_run (an_io w) (an_marker_io w) (an_kbd_status w) action v (se_files se)) se"
| "main_run w (CmdPower action v waybar) se =
     with_files (power_run (an_io w) (an_policy w) (an_powerd_query w) action v (se_files se)) se"
| "main_run w (CmdProfile action name edp gpu priority force dry_run) se =
     profile_run w action name (save_opts_of edp gpu priority force dry_run) se"
| "main_run w (CmdSuspend action) se = with_files (suspend_run (an_io w) action (se_files se)) se"
| "main_run w CmdStatus se = (0, se)"

section \<open>Exit codes of the subcommands\<close>

lemma suspend_codes: "admitted (CmdSuspend a) \<Longrightarrow> fst (suspend_run io a fs) \<in> {0, 1}"
  by (auto simp: suspend_run_def split: option.split)

definition bad_profile :: "string option \<Rightarrow> bool" where
  "bad_profile v = (case v of None \<Rightarrow> True | Some x \<Rightarrow> x \<noteq> ''auto'' \<and> power_profile_from_str x = None)"

lemma power_set_code:
  "fst (power_set io v fs) = (if bad_profile v then 2 else if io \<or> v = Some ''auto'' then 0 else 1)"
  by (simp add: power_set_def bad_profile_def split: option.split)

lemma next_override_ok: "\<not> bad_profile (Some (next_override c))"
  by (simp add: bad_profile_def next_override_def power_profile_from_str_def)

lemma power_codes:
  assumes "admitted (CmdPower a v wb)"
  shows "fst (power_run io p q a v fs) \<in> {0, 1, 2}"
    "fst (power_run io p q a v fs) = 2 \<longleftrightarrow> a = ''set'' \<and> bad_profile v"
    "fst (power_run io p q a v fs) = 2 \<Longrightarrow> snd (snd (power_run io p q a v fs)) = fs"
proof -
  show "fst (power_run io p q a v fs) \<in> {0, 1, 2}" by (simp add: power_run_def power_set_code)
  show "fst (power_run io p q a v fs) = 2 \<longleftrightarrow> a = ''set'' \<and> bad_profile v"
    using assms by (auto simp: power_run_def power_set_code next_override_ok)
  show "fst (power_run io p q a v fs) = 2 \<Longrightarrow> snd (snd (power_run io p q a v fs)) = fs"
    by (auto simp: power_run_def power_set_code next_override_ok power_set_def bad_profile_def split: option.splits if_splits)
qed

definition bad_percent :: "string option \<Rightarrow> bool" where
  "bad_percent v = (case v of None \<Rightarrow> True | Some x \<Rightarrow> parse_i64 (trim_percent x) = None)"

definition bad_name :: "string option \<Rightarrow> bool" where
  "bad_name n = (case n of None \<Rightarrow> True | Some x \<Rightarrow> \<not> valid_profile_name x)"

text \<open>What \<open>load_profiles\<close> returns to the commands that need it.\<close>

definition loaded :: "'q answers \<Rightarrow> 'q monitor_profile list" where
  "loaded w = fst (load_profiles_merged (an_user w) (an_system w))"

lemma kbd_apply_code:
  "fst (kbd_apply io1 io2 l fs) = (if io1 \<and> (uf_runtime_dir fs = None \<or> io2) then 0 else 1)"
  by (simp add: kbd_apply_def Let_def)

lemma kbd_codes:
  assumes "admitted (CmdKbd a v)"
  shows "fst (kbd_run io1 io2 st a v fs) \<in> {0, 1, 2}"
    "fst (kbd_run io1 io2 st a v fs) = 2 \<longleftrightarrow> a = ''set'' \<and> bad_percent v"
    "fst (kbd_run io1 io2 st a v fs) = 2 \<Longrightarrow> snd (snd (kbd_run io1 io2 st a v fs)) = fs"
proof -
  show "fst (kbd_run io1 io2 st a v fs) \<in> {0, 1, 2}"
    by (simp add: kbd_run_def kbd_apply_code split: option.split)
  show "fst (kbd_run io1 io2 st a v fs) = 2 \<longleftrightarrow> a = ''set'' \<and> bad_percent v"
  proof (cases "a = ''set''")
    case True
    then show ?thesis by (simp add: kbd_run_def kbd_apply_code bad_percent_def split: option.split)
  next
    case False
    then consider "a = ''up''" | "a = ''down''" | "a = ''auto''" | "a = ''status''" using assms by auto
    then show ?thesis by cases (simp_all add: kbd_run_def kbd_apply_code)
  qed
  show "fst (kbd_run io1 io2 st a v fs) = 2 \<Longrightarrow> snd (snd (kbd_run io1 io2 st a v fs)) = fs"
    by (simp add: kbd_run_def kbd_apply_code split: option.splits if_splits)
qed

lemma save_codes:
  "fst (profile_save c es gs date ms io opts n d) \<in> {0, 1, 2}"
  "fst (profile_save c es gs date ms io opts n d) = 2 \<longleftrightarrow> bad_name n"
  "fst (profile_save c es gs date ms io opts n d) = 2 \<Longrightarrow> snd (profile_save c es gs date ms io opts n d) = d"
  by (auto simp: profile_save_def bad_name_def Let_def split_beta split: option.split)

lemma switch_codes:
  "fst (profile_switch io dir ps n l) \<in> {0, 1, 2}"
  "fst (profile_switch io dir ps n l) = 2 \<longleftrightarrow> n = None"
  "fst (profile_switch io dir ps n l) = 2 \<Longrightarrow> snd (profile_switch io dir ps n l) = (l, False)"
  by (auto simp: profile_switch_def Let_def split_beta split: option.split)

lemma migrate_files_codes: "fst (migrate_files parse io force dry fs n d) \<in> {0, 1}"
  by (induction fs arbitrary: n d force dry) (auto simp: Let_def split_beta split: option.split)

lemma verify_codes: "fst (verify_code r) \<in> {0, 1}"
  by (simp add: verify_code_def)

lemma migrate_codes: "fst (migrate_run c outs sig rd io opts only es es' d) \<in> {0, 1}"
proof -
  let ?m = "migrate (\<lambda>stem text. map_option (\<lambda>p. (pk_monitors c p, pk_to_toml c p)) (pk_legacy c stem text))
    io (so_force opts) (so_dry_run opts) only es d"
  have "fst ?m \<in> {0, 1}" unfolding migrate_def by (rule migrate_files_codes)
  then show ?thesis
    using verify_codes [of "verify_dir c outs sig rd only es' (snd (snd ?m))"]
    by (cases "so_dry_run opts") (auto simp: migrate_run_def Let_def split_beta)
qed

lemma gpu_command_total: "gpu_command ovr crumb lock st fs settled ex a \<noteq> None"
proof (cases "a = ''status''")
  case True
  then show ?thesis using gpu_status_total by (simp add: gpu_command_def)
next
  case False
  obtain mode source where m: "resolve_mode_from_files ovr crumb fs = (mode, source)" by fastforce
  show ?thesis
    using False gpu_desired_total [of "read_gpu_snapshot fs" mode source]
      gpu_desired_total [of "read_gpu_snapshot settled" mode source]
    by (auto simp: gpu_command_def m gpu_run_def Let_def split: option.split)
qed

text \<open>The only files the loading itself can change.\<close>

lemma render_pass_other:
  "fold (render_to_dir crate io) ps d f \<noteq> d f \<Longrightarrow> f \<in> (\<lambda>p. mp_name p @ ''.lua'') ` set ps"
  using render_all_changes [of crate io ps d f] by auto

section \<open>Properties\<close>

text \<open>The arguments the usage message is for: a missing or unknown profile for \<open>power set\<close>, a missing
  or unreadable percent for \<open>kbd set\<close>, a missing or unusable name for \<open>profile save\<close>, none for
  \<open>profile switch\<close>.\<close>

fun usage_error :: "cli_cmd \<Rightarrow> bool" where
  "usage_error (CmdPower a v _) = (a = ''set'' \<and> bad_profile v)"
| "usage_error (CmdKbd a v) = (a = ''set'' \<and> bad_percent v)"
| "usage_error (CmdProfile a n _ _ _ _ _) = (a = ''save'' \<and> bad_name n \<or> a = ''switch'' \<and> n = None)"
| "usage_error _ = False"

lemma profile_run_codes:
  assumes "admitted (CmdProfile a n edp gpu pr force dry)" and "profile_run w a n opts se = (rc, se')"
  shows "rc \<in> {0, 1, 2}" "rc = 2 \<longleftrightarrow> usage_error (CmdProfile a n edp gpu pr force dry)"
    "rc = 2 \<Longrightarrow> se' = se\<lparr>se_profiles := fold (render_to_dir (an_crate w) (an_file_io w)) (loaded w) (se_profiles se)\<rparr>"
proof -
  have "a \<in> {''list'', ''current'', ''switch'', ''save'', ''migrate'', ''verify''}"
    using assms(1) unfolding admitted.simps by (rule conjunct1)
  then consider "a = ''save''" | "a = ''list''" | "a = ''current''" | "a = ''switch''" | "a = ''migrate''" | "a = ''verify''"
    by (elim insertE emptyE)
  then have "rc \<in> {0, 1, 2} \<and> (rc = 2 \<longleftrightarrow> usage_error (CmdProfile a n edp gpu pr force dry))
    \<and> (rc = 2 \<longrightarrow> se' = se\<lparr>se_profiles := fold (render_to_dir (an_crate w) (an_file_io w)) (loaded w) (se_profiles se)\<rparr>)"
  proof cases
    case 1
    then show ?thesis
      using assms(2) save_codes [of "an_crate w" "an_edp_str w" "an_gpu_str w" "an_date w" "an_monitors w" "an_file_io w"
          opts n "fold (render_to_dir (an_crate w) (an_file_io w)) (loaded w) (se_profiles se)"]
      by (auto simp: profile_run_def needs_live_def loaded_def load_and_render_def bad_name_def Let_def split_beta)
  next
    case 4
    then show ?thesis
      using assms(2) switch_codes [of "an_io w" "an_dir w" "loaded w" n "se_link se"]
      by (auto simp: profile_run_def needs_live_def loaded_def load_and_render_def Let_def split_beta)
  next
    case 5
    then have "\<exists>es'. rc = fst (migrate_run (an_crate w) (an_outputs w) (an_signature w) (an_readable w)
        (an_file_io w) opts n (an_listing w (se_profiles se)) es' (se_profiles se))"
      using assms(2) by (auto simp: profile_run_def needs_live_def load_and_render_def Let_def split_beta)
    then have "rc \<in> {0, 1}" using migrate_codes by metis
    with 5 show ?thesis by auto
  next
    case 6
    then show ?thesis
      using assms(2)
        verify_codes [of "verify_dir (an_crate w) (an_outputs w) (an_signature w) (an_readable w) n
          (an_listing w (se_profiles se)) (se_profiles se)"]
      by (auto simp: profile_run_def needs_live_def)
  qed (use assms(2) in \<open>auto simp: profile_run_def needs_live_def load_and_render_def Let_def\<close>)
  then show "rc \<in> {0, 1, 2}" "rc = 2 \<longleftrightarrow> usage_error (CmdProfile a n edp gpu pr force dry)"
    "rc = 2 \<Longrightarrow> se' = se\<lparr>se_profiles := fold (render_to_dir (an_crate w) (an_file_io w)) (loaded w) (se_profiles se)\<rparr>" by blast+
qed

text \<open>C39: Exit code 2 means a usage error and nothing else: for every command line that the argument
  parser lets through, the code is 0, 1 or 2 (no command panics); it is 2 exactly for a missing or
  unusable argument of \<open>power set\<close>, \<open>kbd set\<close>, \<open>profile save\<close> or \<open>profile switch\<close>; and then nothing
  was changed, but for the renders of the profiles that loading them rewrites.\<close>
theorem exit_code_two_is_usage:
  assumes "admitted c" and "main_run w c se = (rc, se')"
  shows "rc \<in> {0, 1, 2} \<and> (rc = 2 \<longleftrightarrow> usage_error c)
     \<and> (rc = 2 \<longrightarrow> (\<exists>d. se' = se\<lparr>se_profiles := d\<rparr>
          \<and> (\<forall>f. d f \<noteq> se_profiles se f \<longrightarrow> f \<in> (\<lambda>p. mp_name p @ ''.lua'') ` set (loaded w))))"
proof (cases c)
  case (CmdProfile a n edp gpu pr force dry)
  then have run: "profile_run w a n (save_opts_of edp gpu pr force dry) se = (rc, se')"
    and adm: "admitted (CmdProfile a n edp gpu pr force dry)" using assms by simp_all
  show ?thesis
    using profile_run_codes [OF adm run] render_pass_other [of "an_crate w" "an_file_io w" "loaded w" "se_profiles se"]
    unfolding CmdProfile by blast
next
  case (CmdPower a v wb)
  then show ?thesis
    using assms power_codes [of a v wb "an_io w" "an_policy w" "an_powerd_query w" "se_files se"]
    by (auto simp: with_files_def simp del: admitted.simps intro!: exI [of _ "se_profiles se"])
next
  case (CmdKbd a v)
  then show ?thesis
    using assms kbd_codes [of a v "an_io w" "an_marker_io w" "an_kbd_status w" "se_files se"]
    by (auto simp: with_files_def simp del: admitted.simps intro!: exI [of _ "se_profiles se"])
next
  case (CmdSuspend a)
  then show ?thesis
    using assms suspend_codes [of a "an_io w" "se_files se"]
    by (auto simp: with_files_def simp del: admitted.simps)
next
  case (CmdGpu a)
  obtain written out where "gpu_command (an_override_path w) (an_breadcrumb_path w) (an_lock_path w) (se_gpu se)
      (an_fs w) (an_settled w) (an_exists w) a = Some (written, out)"
    using gpu_command_total by fastforce
  then show ?thesis using assms(2) CmdGpu by auto
qed (use assms(2) in \<open>auto split: option.splits if_splits\<close>)

definition demo_session :: session where
  "demo_session = \<lparr>se_files = \<lparr>uf_runtime_dir = None, uf_request = None, uf_override = None,
       uf_kbd_level = None, uf_kbd_marker = None\<rparr>,
     se_profiles = Map.empty, se_link = None, se_gpu = None, se_bus = demo_bus, se_reloads = 0\<rparr>"

theorem exit_code_two_is_usage_witness:
  "\<forall>w :: unit answers. fst (main_run w (CmdPower ''set'' (Some ''turbo'') False) demo_session) = 2
     \<and> fst (main_run w (CmdPower ''cycle'' None False) demo_session) \<noteq> 2"
proof
  fix w :: "unit answers"
  have "bad_profile (Some ''turbo'')" by (simp add: bad_profile_def power_profile_from_str_def)
  then show "fst (main_run w (CmdPower ''set'' (Some ''turbo'') False) demo_session) = 2
      \<and> fst (main_run w (CmdPower ''cycle'' None False) demo_session) \<noteq> 2"
    using exit_code_two_is_usage [of "CmdPower ''set'' (Some ''turbo'') False" w demo_session, OF _ prod.collapse [symmetric]]
      exit_code_two_is_usage [of "CmdPower ''cycle'' None False" w demo_session, OF _ prod.collapse [symmetric]]
    by simp
qed

end
