(* ===== verification/Paths.thy ===== *)
theory Paths
  imports FileState
begin

text \<open>
  Where the files are: the path functions of \<open>src/paths.rs\<close>, and the directories the state-file task
  of \<open>src/daemon/sources/files.rs\<close> watches for them. The crate that reads the XDG variables is
  external: \<open>xdg\<close> holds what it returns, the configuration directory of an application and the
  runtime directory, or nothing. The constants stand with the definitions that use them.
\<close>

section \<open>Paths\<close>

record xdg =
  xdg_config :: "(string \<Rightarrow> string) option"
  xdg_runtime :: "string option"

text \<open>\<open>PathBuf::join\<close> with a relative path, \<open>Path::parent\<close> of a path that does not end in a slash.\<close>

definition push :: "string \<Rightarrow> string \<Rightarrow> string" where
  "push p n = (if p = [] then n else if last p = CHR ''/'' then p @ n else p @ ''/'' @ n)"

definition parent :: "string \<Rightarrow> string option" where
  "parent p =
     (if p = [] \<or> p = ''/'' then None
      else let d = rev (dropWhile (\<lambda>c. c \<noteq> CHR ''/'') (rev p))
           in if d = [] \<or> d = ''/'' then Some d else Some (butlast d))"

definition hypr_config :: "xdg \<Rightarrow> string \<Rightarrow> string" where
  "hypr_config x file = (case xdg_config x of Some dirs \<Rightarrow> push (dirs ''hypr'') file | None \<Rightarrow> [])"

definition gpu_override_file :: "xdg \<Rightarrow> string" where
  "gpu_override_file x = hypr_config x ''gpu-select''"

definition gpu_breadcrumb_file :: "xdg \<Rightarrow> string" where
  "gpu_breadcrumb_file x = hypr_config x ''gpu-profile''"

definition xdg_runtime_dir :: "xdg \<Rightarrow> string" where
  "xdg_runtime_dir x = (case xdg_runtime x of Some d \<Rightarrow> d | None \<Rightarrow> [])"

definition gpu_state_path :: "xdg \<Rightarrow> string" where
  "gpu_state_path x = push (xdg_runtime_dir x) ''hypr-gpu-primary.json''"

definition telemetry_sock_path :: "xdg \<Rightarrow> string" where
  "telemetry_sock_path x = push (xdg_runtime_dir x) ''hyprstate-telemetry.sock''"

definition SYSTEM_PROFILES_DIR :: string where
  "SYSTEM_PROFILES_DIR = ''/etc/monitor-profiles''"

definition system_profiles_dir :: string where
  "system_profiles_dir = SYSTEM_PROFILES_DIR"

definition profiles_dir :: "xdg \<Rightarrow> string" where
  "profiles_dir x = hypr_config x ''profiles''"

definition active_profile_link :: "xdg \<Rightarrow> string" where
  "active_profile_link x = push (profiles_dir x) ''.active.lua''"

definition edp_off_marker :: "xdg \<Rightarrow> string" where
  "edp_off_marker x = hypr_config x ''edp-off''"

definition power_conf_file :: "xdg \<Rightarrow> string" where
  "power_conf_file x = hypr_config x ''power.conf''"

definition suspend_request_file :: "xdg \<Rightarrow> string option" where
  "suspend_request_file x = (case xdg_runtime x of
      Some d \<Rightarrow> Some (push d ''hyprstate-suspend-request'') | None \<Rightarrow> None)"

definition power_override_file :: "xdg \<Rightarrow> string" where
  "power_override_file x = hypr_config x ''power-override''"

definition kbd_level_file :: "xdg \<Rightarrow> string" where
  "kbd_level_file x = hypr_config x ''kbd-level''"

definition kbd_override_file :: "xdg \<Rightarrow> string option" where
  "kbd_override_file x = (case xdg_runtime x of
      Some d \<Rightarrow> Some (push d ''hyprstate-kbd-override'') | None \<Rightarrow> None)"

definition kbd_status_file :: "xdg \<Rightarrow> string option" where
  "kbd_status_file x = (case xdg_runtime x of
      Some d \<Rightarrow> Some (push (push d ''hyprstate'') ''kbd-status.json'') | None \<Rightarrow> None)"

section \<open>The watches\<close>

text \<open>\<open>DirWatches\<close> with the paths it is built from.\<close>

definition watch_targets :: "xdg \<Rightarrow> (watch_dir \<times> string) list" where
  "watch_targets x = targets (parent (power_override_file x)) (Option.bind (suspend_request_file x) parent)
     (profiles_dir x) system_profiles_dir"

text \<open>What the task looks at when inotify reports something, as its mask says, of the file at a path, with
  every watch in place: a write in place is closed, a write by rename creates and closes a temporary
  name and moves it to the path, a socket is created.\<close>

definition woken_by :: "xdg \<Rightarrow> mask_bit list \<Rightarrow> string \<Rightarrow> check" where
  "woken_by x bits p =
     (case Option.bind (parent p) (\<lambda>d. find (\<lambda>(_, t). t = d) (watch_targets x)) of
        None \<Rightarrow> check_none
      | Some (k, _) \<Rightarrow> route k bits (Some (file_name p)))"

section \<open>Facts\<close>

definition plain_name :: "string \<Rightarrow> bool" where
  "plain_name n \<longleftrightarrow> n \<noteq> [] \<and> CHR ''/'' \<notin> set n"

definition plain_dir :: "string \<Rightarrow> bool" where
  "plain_dir d \<longleftrightarrow> d \<noteq> [] \<and> last d \<noteq> CHR ''/''"

lemma parent_push:
  assumes "plain_dir d" "plain_name n"
  shows "parent (push d n) = Some d"
proof -
  have "dropWhile (\<lambda>c. c \<noteq> CHR ''/'') (rev n @ CHR ''/'' # rev d) = CHR ''/'' # rev d"
    using assms(2) by (auto simp: plain_name_def dropWhile_append3)
  then show ?thesis
    using assms by (auto simp: parent_def push_def plain_dir_def plain_name_def Let_def append_eq_Cons_conv)
qed

lemma file_name_push: "plain_dir d \<Longrightarrow> plain_name n \<Longrightarrow> file_name (push d n) = n"
  using last_split_char [of "CHR ''/''" n d] by (simp add: file_name_def push_def plain_dir_def plain_name_def)

lemma plain_dir_push: "plain_name n \<Longrightarrow> plain_dir (push d n)"
  by (auto simp: plain_dir_def plain_name_def push_def dest: last_in_set)

lemma push_inj: "push d a = push d b \<longleftrightarrow> a = b"
  by (simp add: push_def)

lemma push_not_self: "plain_name n \<Longrightarrow> plain_dir d \<Longrightarrow> push d n \<noteq> d"
  by (simp add: push_def plain_dir_def)

section \<open>Properties\<close>

text \<open>The layout the code relies on: both XDG directories are there, with no trailing slash, and none
  of the four watched directories is another.\<close>

definition plain_layout :: "xdg \<Rightarrow> string \<Rightarrow> string \<Rightarrow> bool" where
  "plain_layout x c r \<longleftrightarrow> (\<exists>dirs. xdg_config x = Some dirs \<and> dirs ''hypr'' = c) \<and> xdg_runtime x = Some r
     \<and> plain_dir c \<and> plain_dir r \<and> distinct [c, r, push c ''profiles'', SYSTEM_PROFILES_DIR]
     \<and> push r ''hyprstate'' \<notin> {c, push c ''profiles'', SYSTEM_PROFILES_DIR}"

lemma layout_paths:
  assumes "plain_layout x c r"
  shows "gpu_override_file x = push c ''gpu-select''" "gpu_breadcrumb_file x = push c ''gpu-profile''"
    "edp_off_marker x = push c ''edp-off''" "power_override_file x = push c ''power-override''"
    "kbd_level_file x = push c ''kbd-level''" "profiles_dir x = push c ''profiles''"
    "active_profile_link x = push (push c ''profiles'') ''.active.lua''"
    "gpu_state_path x = push r ''hypr-gpu-primary.json''" "telemetry_sock_path x = push r ''hyprstate-telemetry.sock''"
    "suspend_request_file x = Some (push r ''hyprstate-suspend-request'')"
    "kbd_override_file x = Some (push r ''hyprstate-kbd-override'')"
    "kbd_status_file x = Some (push (push r ''hyprstate'') ''kbd-status.json'')"
  using assms
  by (auto simp: plain_layout_def gpu_override_file_def gpu_breadcrumb_file_def edp_off_marker_def
      power_override_file_def kbd_level_file_def profiles_dir_def active_profile_link_def gpu_state_path_def
      telemetry_sock_path_def suspend_request_file_def kbd_override_file_def kbd_status_file_def hypr_config_def
      xdg_runtime_dir_def)

lemma layout_targets:
  assumes "plain_layout x c r"
  shows "watch_targets x = [(HyprConfig, c), (Runtime, r), (UserProfiles, push c ''profiles''),
     (SystemProfiles, SYSTEM_PROFILES_DIR)]"
  using assms layout_paths [OF assms]
  by (simp add: watch_targets_def targets_def plain_layout_def parent_push plain_name_def system_profiles_dir_def)

lemma woken_in:
  assumes "plain_layout x c r" "plain_name n"
  shows "woken_by x bits (push c n) = route HyprConfig bits (Some n)"
    "woken_by x bits (push r n) = route Runtime bits (Some n)"
    "woken_by x bits (push (push c ''profiles'') n) = route UserProfiles bits (Some n)"
    "woken_by x bits (push SYSTEM_PROFILES_DIR n) = route SystemProfiles bits (Some n)"
    "woken_by x bits (push (push r ''hyprstate'') n) = check_none"
proof -
  have p: "plain_dir c" "plain_dir r" "plain_dir (push c ''profiles'')" "plain_dir SYSTEM_PROFILES_DIR"
    "plain_dir (push r ''hyprstate'')"
    using assms(1) by (simp_all add: plain_layout_def plain_dir_push plain_name_def)
      (simp add: plain_dir_def SYSTEM_PROFILES_DIR_def)
  note par = parent_push [OF _ assms(2)] and fil = file_name_push [OF _ assms(2)]
  show "woken_by x bits (push c n) = route HyprConfig bits (Some n)"
    "woken_by x bits (push r n) = route Runtime bits (Some n)"
    "woken_by x bits (push (push c ''profiles'') n) = route UserProfiles bits (Some n)"
    "woken_by x bits (push SYSTEM_PROFILES_DIR n) = route SystemProfiles bits (Some n)"
    using assms(1) par [OF p(1)] par [OF p(2)] par [OF p(3)] par [OF p(4)]
      fil [OF p(1)] fil [OF p(2)] fil [OF p(3)] fil [OF p(4)]
    by (simp_all add: woken_by_def layout_targets [OF assms(1)] plain_layout_def)
  have "push r ''hyprstate'' \<noteq> r"
    using push_not_self [of "''hyprstate''" r] p(2) by (simp add: plain_name_def)
  then show "woken_by x bits (push (push r ''hyprstate'') n) = check_none"
    using assms(1) par [OF p(5)] by (auto simp: woken_by_def layout_targets [OF assms(1)] plain_layout_def)
qed

lemma plain_names:
  "plain_name ''gpu-select''" "plain_name ''gpu-profile''" "plain_name ''edp-off''" "plain_name ''power-override''"
  "plain_name ''kbd-level''" "plain_name ''.active.lua''" "plain_name ''hypr-gpu-primary.json''"
  "plain_name ''hyprstate-telemetry.sock''" "plain_name ''hyprstate-suspend-request''"
  "plain_name ''hyprstate-kbd-override''" "plain_name ''kbd-status.json''"
  by (simp_all add: plain_name_def)

text \<open>C27: A state file wakes its own check and no other file wakes any: whatever inotify reports of it
  (a write in place, a creation, a rename; anything but an overflow or the loss of the watch), the GPU, power and
  keyboard-level file of the configuration directory, the suspend request and the keyboard override of
  the runtime directory and a TOML file of either profile directory make the task look at exactly that
  input, whoever wrote them. Every other name in these directories, but for the profile directory
  itself, makes it look at nothing: the breadcrumb, the panel marker, the active link, the renders, the
  GPU state, the telemetry socket and every temporary name on the way to one of them. The keyboard
  status is written in a directory that is not watched.\<close>
theorem state_files_wake_their_check:
  assumes "plain_layout x c r" and "QOverflow \<notin> set bits" "Ignored \<notin> set bits"
  shows "woken_by x bits (gpu_override_file x) = check_none\<lparr>ck_gpu := True\<rparr>
     \<and> woken_by x bits (power_override_file x) = check_none\<lparr>ck_power := True\<rparr>
     \<and> woken_by x bits (kbd_level_file x) = check_none\<lparr>ck_kbd_level := True\<rparr>
     \<and> map_option (woken_by x bits) (suspend_request_file x) = Some (check_none\<lparr>ck_suspend := True\<rparr>)
     \<and> map_option (woken_by x bits) (kbd_override_file x) = Some (check_none\<lparr>ck_kbd_override := True\<rparr>)
     \<and> (\<forall>d \<in> {profiles_dir x, system_profiles_dir}. \<forall>n. plain_name n \<longrightarrow>
          woken_by x bits (push d n) = (if extension n = Some ''toml'' then check_none\<lparr>ck_profiles := True\<rparr> else check_none))
     \<and> (\<forall>n. plain_name n \<and> push c n \<notin> {gpu_override_file x, power_override_file x, kbd_level_file x, profiles_dir x}
          \<longrightarrow> woken_by x bits (push c n) = check_none)
     \<and> (\<forall>n. plain_name n \<and> Some (push r n) \<notin> {suspend_request_file x, kbd_override_file x}
          \<longrightarrow> woken_by x bits (push r n) = check_none)
     \<and> (\<forall>p \<in> {gpu_breadcrumb_file x, edp_off_marker x, active_profile_link x, gpu_state_path x,
            telemetry_sock_path x}. woken_by x bits p = check_none)
     \<and> map_option (woken_by x bits) (kbd_status_file x) = Some check_none"
proof -
  have "extension ''.active.lua'' = Some ''lua''" by (simp add: extension_def)
  then show ?thesis by (simp add: layout_paths [OF assms(1)] woken_in [OF assms(1)] plain_names assms(2,3) system_profiles_dir_def
      push_inj route_def GPU_OVERRIDE_NAME_def POWER_OVERRIDE_NAME_def KBD_LEVEL_NAME_def PROFILES_DIR_NAME_def
      SUSPEND_REQUEST_NAME_def KBD_OVERRIDE_NAME_def)
qed

definition demo_xdg :: xdg where
  "demo_xdg = \<lparr>xdg_config = Some (\<lambda>app. push ''/home/u/.config'' app), xdg_runtime = Some ''/run/user/1000''\<rparr>"

theorem state_files_wake_their_check_witness:
  "map_option (woken_by demo_xdg [Create]) (suspend_request_file demo_xdg) = Some (check_none\<lparr>ck_suspend := True\<rparr>)
   \<and> woken_by demo_xdg [MovedTo] (push (profiles_dir demo_xdg) ''desk.lua'') = check_none
   \<and> woken_by demo_xdg [MovedTo] (push (profiles_dir demo_xdg) ''desk.toml'') = check_none\<lparr>ck_profiles := True\<rparr>"
proof -
  have l: "plain_layout demo_xdg ''/home/u/.config/hypr'' ''/run/user/1000''"
    by (simp add: plain_layout_def demo_xdg_def push_def plain_dir_def SYSTEM_PROFILES_DIR_def)
  have "plain_name ''desk.toml''" "extension ''desk.toml'' = Some ''toml''" "plain_name ''desk.lua''"
    "extension ''desk.lua'' = Some ''lua''"
    by (simp_all add: plain_name_def extension_def)
  then show ?thesis
    using state_files_wake_their_check [OF l, of "[Create]"] state_files_wake_their_check [OF l, of "[MovedTo]"] by simp
qed

text \<open>Without the XDG directories the files fail closed, but for two that fall into the working
  directory: no request and no override marker can be made or found, the files of the configuration
  tree are the empty path, which no call can open; but the active link and the GPU state that
  \<open>gpu select\<close> writes become relative paths.\<close>
lemma without_xdg_two_files_are_relative:
  assumes "xdg_config x = None" "xdg_runtime x = None"
  shows "suspend_request_file x = None \<and> kbd_override_file x = None \<and> kbd_status_file x = None
     \<and> {gpu_override_file x, gpu_breadcrumb_file x, edp_off_marker x, power_conf_file x, power_override_file x,
        kbd_level_file x, profiles_dir x} = {[]}
     \<and> active_profile_link x = ''.active.lua'' \<and> gpu_state_path x = ''hypr-gpu-primary.json''
     \<and> telemetry_sock_path x = ''hyprstate-telemetry.sock''"
  using assms
  by (simp add: gpu_override_file_def gpu_breadcrumb_file_def edp_off_marker_def power_conf_file_def
      power_override_file_def kbd_level_file_def profiles_dir_def active_profile_link_def gpu_state_path_def
      telemetry_sock_path_def suspend_request_file_def kbd_override_file_def kbd_status_file_def hypr_config_def
      xdg_runtime_dir_def push_def)

lemma without_xdg_two_files_are_relative_witness:
  "gpu_state_path \<lparr>xdg_config = None, xdg_runtime = None\<rparr> = ''hypr-gpu-primary.json''"
  using without_xdg_two_files_are_relative [of "\<lparr>xdg_config = None, xdg_runtime = None\<rparr>"] by simp

end
