(* ===== verification/HyprJson.thy ===== *)
theory HyprJson
  imports Worker Sources ProfileCli
begin

text \<open>
  From what hyprctl prints to the answers the rest of the model starts from: the readers of
  \<open>src/sysio/hyprctl.rs\<close> (the daemon) and of \<open>src/sysio/profiles.rs\<close> (the command line). The JSON
  crate is external: \<open>json\<close> holds its accessors over an abstract value type, and the derived
  deserialiser of a list of monitors. A number is a finite \<open>f64\<close>, as JSON has no other.
\<close>

section \<open>Values\<close>

record 'v json =
  js_get :: "'v \<Rightarrow> string \<Rightarrow> 'v option"
  js_str :: "'v \<Rightarrow> string option"
  js_bool :: "'v \<Rightarrow> bool option"
  js_i64 :: "'v \<Rightarrow> int option"
  js_f64 :: "'v \<Rightarrow> rat option"
  js_array :: "'v \<Rightarrow> 'v list option"
  js_monitors :: "'v \<Rightarrow> hypr_monitor list option"

definition js_field :: "'v json \<Rightarrow> ('v \<Rightarrow> 'a option) \<Rightarrow> 'v \<Rightarrow> string \<Rightarrow> 'a option" where
  "js_field J rd m k = Option.bind (js_get J m k) rd"

text \<open>\<open>as\<close> from \<open>f64\<close> to an integer type: towards zero, and to the nearest bound outside it.\<close>

definition truncated :: "rat \<Rightarrow> int" where
  "truncated x = (if x \<ge> 0 then \<lfloor>x\<rfloor> else \<lceil>x\<rceil>)"

definition saturated :: "int \<Rightarrow> int \<Rightarrow> rat \<Rightarrow> int" where
  "saturated lo hi x = max lo (min hi (truncated x))"

section \<open>The daemon's readers\<close>

text \<open>A reply is what the call returned, or nothing when it failed or was no JSON.\<close>

definition hyprctl_json :: "'v json \<Rightarrow> 'v option \<Rightarrow> 'v list option" where
  "hyprctl_json J reply = Option.bind reply (js_array J)"

definition monitors :: "'v json \<Rightarrow> 'v option \<Rightarrow> hypr_monitor list option" where
  "monitors J reply = Option.bind reply (js_monitors J)"

definition locked_reply :: "(bool \<times> string) option \<Rightarrow> bool option" where
  "locked_reply out = (case out of
       None \<Rightarrow> None
     | Some (success, text) \<Rightarrow>
         if \<not> success then None
         else if trim text = ''true'' then Some True
         else if trim text = ''false'' then Some False
         else None)"

definition cursor_pos :: "'v json \<Rightarrow> 'v option \<Rightarrow> (int \<times> int) option" where
  "cursor_pos J reply = Option.bind reply (\<lambda>v.
     Option.bind (js_field J (js_i64 J) v ''x'') (\<lambda>x. map_option (Pair x) (js_field J (js_i64 J) v ''y'')))"

definition workspace_rows :: "'v json \<Rightarrow> 'v option \<Rightarrow> (string option \<times> int option) list option" where
  "workspace_rows J reply = map_option
     (map (\<lambda>w. (js_field J (js_str J) w ''monitor'', js_field J (js_i64 J) w ''id''))) (hyprctl_json J reply)"

definition monitor_names :: "'v json \<Rightarrow> 'v option \<Rightarrow> string option list option" where
  "monitor_names J reply = map_option (map (\<lambda>m. js_field J (js_str J) m ''name'')) (hyprctl_json J reply)"

definition client_rows :: "'v json \<Rightarrow> 'v option \<Rightarrow> bool option list option" where
  "client_rows J reply = map_option (map (\<lambda>c. js_field J (js_bool J) c ''inhibitingIdle'')) (hyprctl_json J reply)"

text \<open>The environments of the daemon and of its worker, with hyprctl answering in JSON.\<close>

definition hyprctl_env :: "'v json \<Rightarrow> (nat \<Rightarrow> 'v option) \<Rightarrow> (nat \<Rightarrow> 'v option) \<Rightarrow> (nat \<Rightarrow> (bool \<times> string) option)
     \<Rightarrow> 'p env \<Rightarrow> 'p env" where
  "hyprctl_env J ms cs lk e = e\<lparr>q_monitors := \<lambda>k. monitors J (ms k), q_clients := \<lambda>k. client_rows J (cs k),
     q_compositor_lock := \<lambda>k. locked_reply (lk k)\<rparr>"

section \<open>The command line's readers\<close>

definition monitor_of :: "'v json \<Rightarrow> 'v \<Rightarrow> monitor_snapshot" where
  "monitor_of J m =
     (let s = (\<lambda>k. or_default [] (js_field J (js_str J) m k));
          n = (\<lambda>k. or_default 0 (js_field J (js_f64 J) m k))
      in \<lparr>mn_name = s ''name'', mn_description = s ''description'',
          mn_width = word_of_int (saturated 0 (2 ^ 32 - 1) (n ''width'')),
          mn_height = word_of_int (saturated 0 (2 ^ 32 - 1) (n ''height'')),
          mn_refresh = n ''refreshRate'',
          mn_x = saturated (- (2 ^ 31)) (2 ^ 31 - 1) (n ''x''),
          mn_y = saturated (- (2 ^ 31)) (2 ^ 31 - 1) (n ''y''),
          mn_scale = n ''scale'',
          mn_transform = word_of_int (saturated 0 255 (n ''transform'')),
          mn_disabled = or_default False (js_field J (js_bool J) m ''disabled'')\<rparr>)"

definition monitor_snapshot_all :: "'v json \<Rightarrow> 'v option \<Rightarrow> monitor_snapshot list" where
  "monitor_snapshot_all J reply = (case hyprctl_json J reply of
      None \<Rightarrow> [] | Some ms \<Rightarrow> map (monitor_of J) ms)"

definition cli_monitor_signature :: "'v json \<Rightarrow> 'v option \<Rightarrow> string list" where
  "cli_monitor_signature J reply = (case hyprctl_json J reply of
      None \<Rightarrow> [] | Some ms \<Rightarrow> map (\<lambda>m. or_default [] (js_field J (js_str J) m ''description'')) ms)"

section \<open>Facts\<close>

lemma saturated_range: "lo \<le> hi \<Longrightarrow> lo \<le> saturated lo hi x \<and> saturated lo hi x \<le> hi"
  by (simp add: saturated_def)

lemma saturated_int: "saturated lo hi (of_int k) = max lo (min hi k)"
  by (simp add: saturated_def truncated_def)

lemma truncated_mono: "x \<le> y \<Longrightarrow> truncated x \<le> truncated y"
proof -
  assume "x \<le> y"
  then show ?thesis
    by (auto simp: truncated_def intro: floor_mono ceiling_mono)
      (meson ceiling_le_zero le_floor_iff of_int_0 order.trans zero_le_floor nle_le)
qed

lemma saturated_mono: "x \<le> y \<Longrightarrow> saturated lo hi x \<le> saturated lo hi y"
  using truncated_mono [of x y] by (auto simp: saturated_def)

lemma uint_saturated:
  "uint (word_of_int (saturated 0 (2 ^ 32 - 1) x) :: u32) = saturated 0 (2 ^ 32 - 1) x"
  "uint (word_of_int (saturated 0 255 x) :: u8) = saturated 0 255 x"
  using saturated_range [of 0 "2 ^ 32 - 1" x] saturated_range [of 0 255 x]
  by (simp_all add: uint_word_of_int take_bit_int_eq_self)

text \<open>What a stored number is to the reported one: in range, the bound the reported one lies beyond,
  or less than one away from it on the side of zero.\<close>

definition fitted :: "int \<Rightarrow> int \<Rightarrow> rat \<Rightarrow> int \<Rightarrow> bool" where
  "fitted lo hi v k \<longleftrightarrow> lo \<le> k \<and> k \<le> hi \<and> (v < of_int lo \<longrightarrow> k = lo) \<and> (of_int hi < v \<longrightarrow> k = hi)
     \<and> (of_int lo \<le> v \<and> v \<le> of_int hi \<longrightarrow> \<bar>of_int k\<bar> \<le> \<bar>v\<bar> \<and> \<bar>v - of_int k\<bar> < 1)"

lemma truncated_near: "\<bar>of_int (truncated v)\<bar> \<le> \<bar>v\<bar>" "\<bar>v - of_int (truncated v)\<bar> < 1"
  unfolding truncated_def by (cases "v \<ge> 0"; simp; linarith)+

lemma truncated_of_int [simp]: "truncated (of_int k) = k"
  by (simp add: truncated_def)

lemma saturated_fitted: "lo \<le> 0 \<Longrightarrow> 0 \<le> hi \<Longrightarrow> fitted lo hi v (saturated lo hi v)"
  using truncated_mono [of v "of_int lo"] truncated_mono [of "of_int hi" v] truncated_mono [of "of_int lo" v]
    truncated_mono [of v "of_int hi"] truncated_near [of v]
  by (auto simp: fitted_def saturated_def)

definition js_number :: "'v json \<Rightarrow> 'v \<Rightarrow> string \<Rightarrow> rat" where
  "js_number J m k = or_default 0 (js_field J (js_f64 J) m k)"

lemma monitor_of_numbers:
  "uint (mn_width (monitor_of J m)) = saturated 0 (2 ^ 32 - 1) (js_number J m ''width'')"
  "uint (mn_height (monitor_of J m)) = saturated 0 (2 ^ 32 - 1) (js_number J m ''height'')"
  "uint (mn_transform (monitor_of J m)) = saturated 0 255 (js_number J m ''transform'')"
  "mn_x (monitor_of J m) = saturated (- (2 ^ 31)) (2 ^ 31 - 1) (js_number J m ''x'')"
  "mn_y (monitor_of J m) = saturated (- (2 ^ 31)) (2 ^ 31 - 1) (js_number J m ''y'')"
  "mn_refresh (monitor_of J m) = js_number J m ''refreshRate''" "mn_scale (monitor_of J m) = js_number J m ''scale''"
  using uint_saturated by (simp_all add: monitor_of_def Let_def js_number_def)

lemma of_nat_zero_small: "n < 2 ^ 32 \<Longrightarrow> (word_of_nat n :: u32) = 0 \<longleftrightarrow> n = 0"
  by (simp add: word_of_nat_eq_0_iff) (metis nat_dvd_not_less not_gr_zero dvd_0_right)

section \<open>Properties\<close>

text \<open>C40: Every number of a captured output fits the type it is stored in, whatever hyprctl reports
  (an absent field counts as 0): width and height as \<open>u32\<close>, x and y as \<open>i32\<close>, the transform as \<open>u8\<close>.
  Each is in range; a reported number beyond a bound, whole or not, is stored as that bound, never
  wrapped; within the range it is cut towards zero by less than one, so a whole number is kept.
  The refresh rate and the scale are stored as they are. Hence two outputs keep their
  left-to-right and their top-to-bottom order.\<close>
theorem captured_numbers_fit:
  "fitted 0 (2 ^ 32 - 1) (js_number J m ''width'') (uint (mn_width (monitor_of J m)))
   \<and> fitted 0 (2 ^ 32 - 1) (js_number J m ''height'') (uint (mn_height (monitor_of J m)))
   \<and> fitted (- (2 ^ 31)) (2 ^ 31 - 1) (js_number J m ''x'') (mn_x (monitor_of J m))
   \<and> fitted (- (2 ^ 31)) (2 ^ 31 - 1) (js_number J m ''y'') (mn_y (monitor_of J m))
   \<and> fitted 0 255 (js_number J m ''transform'') (uint (mn_transform (monitor_of J m)))
   \<and> mn_refresh (monitor_of J m) = js_number J m ''refreshRate'' \<and> mn_scale (monitor_of J m) = js_number J m ''scale''
   \<and> (js_number J m ''x'' \<le> js_number J m' ''x'' \<longrightarrow> mn_x (monitor_of J m) \<le> mn_x (monitor_of J m'))
   \<and> (js_number J m ''y'' \<le> js_number J m' ''y'' \<longrightarrow> mn_y (monitor_of J m) \<le> mn_y (monitor_of J m'))"
  unfolding monitor_of_numbers by (intro conjI impI saturated_fitted saturated_mono) simp_all

text \<open>A concrete value type for the witnesses, with the accessors of the crate.\<close>

datatype demo_value = JNum rat | JStr string | JBool bool | JArr "demo_value list" | JObj "(string \<times> demo_value) list"

definition demo_monitors :: "demo_value \<Rightarrow> hypr_monitor list option" where
  "demo_monitors v = (case v of
       JArr [JObj kvs] \<Rightarrow> (case map_of kvs ''name'' of
          Some (JStr n) \<Rightarrow> Some [\<lparr>hm_name = n, hm_description = [], hm_disabled = False, hm_dpms_status = True\<rparr>]
        | _ \<Rightarrow> None)
     | _ \<Rightarrow> None)"

definition demo_json :: "demo_value json" where
  "demo_json = \<lparr>js_get = (\<lambda>v k. case v of JObj kvs \<Rightarrow> map_of kvs k | _ \<Rightarrow> None),
     js_str = (\<lambda>v. case v of JStr s \<Rightarrow> Some s | _ \<Rightarrow> None), js_bool = (\<lambda>v. case v of JBool b \<Rightarrow> Some b | _ \<Rightarrow> None),
     js_i64 = (\<lambda>v. case v of JNum n \<Rightarrow> if of_int \<lfloor>n\<rfloor> = n then Some \<lfloor>n\<rfloor> else None | _ \<Rightarrow> None),
     js_f64 = (\<lambda>v. case v of JNum n \<Rightarrow> Some n | _ \<Rightarrow> None),
     js_array = (\<lambda>v. case v of JArr vs \<Rightarrow> Some vs | _ \<Rightarrow> None), js_monitors = demo_monitors\<rparr>"

definition demo_output :: "rat \<Rightarrow> rat \<Rightarrow> demo_value" where
  "demo_output x y = JObj [(''name'', JStr ''DP-1''), (''width'', JNum (- 5 / 2)), (''height'', JNum (2 ^ 33 + 1 / 2)),
     (''x'', JNum x), (''y'', JNum y), (''transform'', JNum 300)]"

lemma demo_output_numbers:
  "js_number demo_json (demo_output x y) ''width'' = - 5 / 2"
  "js_number demo_json (demo_output x y) ''height'' = 2 ^ 33 + 1 / 2"
  "js_number demo_json (demo_output x y) ''x'' = x" "js_number demo_json (demo_output x y) ''y'' = y"
  "js_number demo_json (demo_output x y) ''transform'' = 300"
  by (simp_all add: js_number_def js_field_def demo_json_def demo_output_def or_default_def)

theorem captured_numbers_fit_witness:
  "uint (mn_width (monitor_of demo_json (demo_output (- 1920) 0))) = 0
   \<and> uint (mn_height (monitor_of demo_json (demo_output (- 1920) 0))) = 2 ^ 32 - 1
   \<and> uint (mn_transform (monitor_of demo_json (demo_output (- 1920) 0))) = 255
   \<and> mn_x (monitor_of demo_json (demo_output (- 1920) 0)) = - 1920
   \<and> mn_y (monitor_of demo_json (demo_output (- 1920) 0)) \<le> mn_y (monitor_of demo_json (demo_output 0 (1080 + 1 / 2)))"
  using captured_numbers_fit [of demo_json "demo_output (- 1920) 0" "demo_output 0 (1080 + 1 / 2)"]
  unfolding demo_output_numbers by (auto simp: fitted_def)

text \<open>What the derived deserialiser promises on a list of objects: the names are there, and an
  absent description is the empty one.\<close>

definition reads_objects :: "'v json \<Rightarrow> 'v \<Rightarrow> bool" where
  "reads_objects J v \<longleftrightarrow> (\<forall>ms. js_monitors J v = Some ms \<longrightarrow> (\<exists>vs. js_array J v = Some vs
     \<and> list_all2 (\<lambda>m h. js_field J (js_str J) m ''name'' = Some (hm_name h)
          \<and> or_default [] (js_field J (js_str J) m ''description'') = hm_description h) vs ms))"

lemma first_external_names:
  "first_external (map (\<lambda>h. Some (hm_name h)) ms)
     = map_option hm_name (find (\<lambda>h. \<not> starts_with ''eDP'' (hm_name h)) ms)"
  by (induction ms) auto

text \<open>The strict reader and the lenient ones agree on every list the strict one accepts: the command
  line and the daemon see the same signature, and the worker finds a monitor to move workspaces to
  exactly when the daemon counts an external one.\<close>
lemma readers_agree:
  assumes "reads_objects J v" and "monitors J (Some v) = Some ms" and "length ms < 2 ^ 32"
    and "q_monitors e (tick s) = monitors J (Some v)"
    and "we_monitor_names we (wk_tick w) = monitor_names J (Some v)"
  shows "cli_monitor_signature J (Some v) = fst (monitor_signature e s)
     \<and> fst (first_external_monitor we w) = map_option hm_name (find (\<lambda>h. \<not> starts_with ''eDP'' (hm_name h)) ms)
     \<and> (fst (first_external_monitor we w) = None \<longleftrightarrow> fst (ext_monitor_count e prev s) = 0)"
proof -
  obtain vs where vs: "js_array J v = Some vs"
    and all: "list_all2 (\<lambda>m h. js_field J (js_str J) m ''name'' = Some (hm_name h)
          \<and> or_default [] (js_field J (js_str J) m ''description'') = hm_description h) vs ms"
    using assms(1,2) by (auto simp: reads_objects_def monitors_def)
  from all have names: "map (\<lambda>m. js_field J (js_str J) m ''name'') vs = map (\<lambda>h. Some (hm_name h)) ms"
    and descs: "map (\<lambda>m. or_default [] (js_field J (js_str J) m ''description'')) vs = map hm_description ms"
    by (induction rule: list_all2_induct) simp_all
  have first: "fst (first_external_monitor we w) = map_option hm_name (find (\<lambda>h. \<not> starts_with ''eDP'' (hm_name h)) ms)"
    using assms(5) vs names first_external_names [of ms]
    by (simp add: first_external_monitor_def wask_def monitor_names_def hyprctl_json_def Let_def)
  have "length (filter (\<lambda>h. \<not> starts_with ''eDP'' (hm_name h)) ms) < 2 ^ 32"
    using assms(3) le_less_trans [OF length_filter_le] by blast
  then have "fst (ext_monitor_count e prev s) = 0 \<longleftrightarrow> filter (\<lambda>h. \<not> starts_with ''eDP'' (hm_name h)) ms = []"
    using assms(2,4)
    by (simp add: ext_monitor_count_def ext_monitor_count_in_def ask_def Let_def of_nat_zero_small)
  moreover have "find (\<lambda>h. \<not> starts_with ''eDP'' (hm_name h)) ms = None
      \<longleftrightarrow> filter (\<lambda>h. \<not> starts_with ''eDP'' (hm_name h)) ms = []"
    by (auto simp: find_None_iff filter_empty_conv)
  moreover have "cli_monitor_signature J (Some v) = fst (monitor_signature e s)"
    using assms(2,4) vs descs
    by (simp add: cli_monitor_signature_def hyprctl_json_def monitor_signature_def ask_def Let_def)
  ultimately show ?thesis using first by simp
qed

definition demo_reply :: demo_value where
  "demo_reply = JArr [JObj [(''name'', JStr ''DP-1'')]]"

definition reply_env :: "unit env" where
  "reply_env = demo_env\<lparr>q_monitors := \<lambda>_. monitors demo_json (Some demo_reply)\<rparr>"

definition reply_worker_env :: worker_env where
  "reply_worker_env = \<lparr>we_monitors_all = \<lambda>_. None, we_monitor_names = \<lambda>_. monitor_names demo_json (Some demo_reply),
     we_workspaces = \<lambda>_. None, we_hyprctl_ok = \<lambda>_ _. True, we_marker_io = \<lambda>_. True\<rparr>"

lemma readers_agree_witness:
  "fst (first_external_monitor reply_worker_env \<lparr>wk_calls = [], wk_marker = False, wk_sent = [], wk_tick = 0\<rparr>) = Some ''DP-1''
   \<and> cli_monitor_signature demo_json (Some demo_reply) = [[]]"
proof -
  let ?ms = "[\<lparr>hm_name = ''DP-1'', hm_description = [], hm_disabled = False, hm_dpms_status = True\<rparr>]"
  have m: "monitors demo_json (Some demo_reply) = Some ?ms"
    by (simp add: monitors_def demo_json_def demo_reply_def demo_monitors_def)
  have r: "reads_objects demo_json demo_reply"
    by (simp add: reads_objects_def demo_json_def demo_reply_def demo_monitors_def js_field_def or_default_def)
  have "fst (monitor_signature reply_env (demo_sys False)) = [[]]"
    by (simp add: monitor_signature_def ask_def Let_def reply_env_def m)
  then show ?thesis
    using readers_agree [OF r m, of reply_env "demo_sys False" reply_worker_env
        "\<lparr>wk_calls = [], wk_marker = False, wk_sent = [], wk_tick = 0\<rparr>"]
    by (simp add: reply_env_def reply_worker_env_def starts_with_def)
qed

end
