(* ===== verification/FileTask.thy ===== *)
theory FileTask
  imports FileState Boot
begin

text \<open>
  The parts of the state-file task (\<open>src/daemon/sources/files.rs\<close>) around the pass that \<open>FileState\<close>
  models: the watch on \<open>platform_profile\<close>, the loop that reads it until the kernel is quiet, the
  loop that skips failed inotify reads, and the start of the task with its first reading. The two
  loops may not end; they are partial functions, and a result that is not \<open>None\<close> is an end.
\<close>

section \<open>The platform watch\<close>

text \<open>The open attribute by the number of the question: whether the seek works, what a read gives,
  and whether a poll finds that it changed again.\<close>

record platform_watch =
  pw_seek :: "nat \<Rightarrow> bool"
  pw_text :: "nat \<Rightarrow> string option"
  pw_poll :: "nat \<Rightarrow> bool"

definition pw_open :: "platform_watch option \<Rightarrow> bool \<Rightarrow> platform_watch option" where
  "pw_open file registered = (case file of
      None \<Rightarrow> None
    | Some w \<Rightarrow> if registered then Some w else None)"

definition pw_read :: "platform_watch \<Rightarrow> nat \<Rightarrow> string option" where
  "pw_read w k = (if pw_seek w k then Option.bind (pw_text w k) first_word else None)"

definition changed_again :: "platform_watch option \<Rightarrow> nat \<Rightarrow> bool" where
  "changed_again watch k = (case watch of Some w \<Rightarrow> pw_poll w k | None \<Rightarrow> False)"

definition platform_value :: "(nat \<Rightarrow> filesystem) \<Rightarrow> platform_watch option \<Rightarrow> nat \<Rightarrow> string option" where
  "platform_value fs watch k = (case watch of
      Some w \<Rightarrow> pw_read w k
    | None \<Rightarrow> read_first_word (fs k) PLATFORM_PROFILE_PATH)"

text \<open>\<open>send_platform\<close>: whether the dispatcher is still there, the events sent, the last value.\<close>

partial_function (option) send_platform_loop ::
  "(nat \<Rightarrow> filesystem) \<Rightarrow> platform_watch option \<Rightarrow> (nat \<Rightarrow> bool) \<Rightarrow> nat \<Rightarrow> string option \<Rightarrow> event list
     \<Rightarrow> (bool \<times> event list \<times> string option) option" where
  "send_platform_loop fs watch sent k prev evs =
     (let cur = platform_value fs watch k in
      if cur \<noteq> prev \<and> \<not> sent k then Some (False, evs, cur)
      else let evs = (if cur \<noteq> prev then evs @ [PlatformProfileChanged cur] else evs) in
        if \<not> changed_again watch k then Some (True, evs, cur)
        else send_platform_loop fs watch sent (Suc k) cur evs)"

text \<open>\<open>next_inotify\<close> on a stream that gives an event, an error or its end.\<close>

datatype 'e stream_item = Item 'e | ReadError | Ended

partial_function (option) next_inotify :: "(nat \<Rightarrow> 'e stream_item) \<Rightarrow> nat \<Rightarrow> 'e option option" where
  "next_inotify stream k = (case stream k of
      Item ev \<Rightarrow> Some (Some ev)
    | ReadError \<Rightarrow> next_inotify stream (Suc k)
    | Ended \<Rightarrow> Some None)"

section \<open>The start of the task\<close>

text \<open>\<open>Last::read_now\<close> over the files, with the fingerprint and the two existence checks given.\<close>

definition read_now :: "filesystem \<Rightarrow> string \<Rightarrow> string \<Rightarrow> string \<Rightarrow> bool \<Rightarrow> nat \<Rightarrow> bool \<Rightarrow> inputs" where
  "read_now fs gpu pow level standing fingerprint marker =
     \<lparr>in_platform = read_first_word fs PLATFORM_PROFILE_PATH, in_gpu = read_first_word fs gpu,
      in_power = read_first_word fs pow, in_suspend = standing, in_profiles = fingerprint,
      in_kbd_level = read_kbd_level fs level, in_kbd_override = marker\<rparr>"

definition task_start ::
  "(string \<Rightarrow> watch_result) \<Rightarrow> (watch_dir \<times> string) list \<Rightarrow> bool \<Rightarrow> bool \<Rightarrow> bool \<Rightarrow> inputs \<Rightarrow> watching \<times> inputs" where
  "task_start add ts inotify_ok stream_ok platform_ok cur =
     (\<lparr>wt_wds = (if inotify_ok then ensure_watches add ts [] else []),
       wt_stream = inotify_ok \<and> stream_ok, wt_watches = inotify_ok \<and> stream_ok, wt_platform = platform_ok\<rparr>,
      cur)"

text \<open>The loop over what wakes the task, with the readings of each pass.\<close>

fun file_run ::
  "(string \<Rightarrow> watch_result) \<Rightarrow> (watch_dir \<times> string) list \<Rightarrow> (wakeup \<times> string option list \<times> inputs) list
     \<Rightarrow> watching \<times> inputs \<Rightarrow> event list \<times> watching \<times> inputs" where
  "file_run add ts [] s = ([], s)"
| "file_run add ts ((w, platform, cur) # rest) s =
     (let (evs, s) = file_step add ts w platform cur s;
          (later, s) = file_run add ts rest s
      in (evs @ later, s))"

section \<open>Facts\<close>

lemma loop_settles:
  assumes "\<And>i. i < n \<Longrightarrow> changed_again watch (k + i)" "\<not> changed_again watch (k + n)"
  shows "send_platform_loop fs watch (\<lambda>_. True) k prev evs =
     Some (True, evs @ fst (send_platform (map (platform_value fs watch) [k..<Suc (k + n)]) prev),
           platform_value fs watch (k + n))"
  using assms
proof (induction n arbitrary: k prev evs)
  case 0
  then show ?case by (simp add: send_platform_loop.simps Let_def)
next
  case (Suc n)
  have "changed_again watch k" using Suc.prems(1) [of 0] by simp
  moreover have "[k..<Suc (Suc (k + n))] = k # [Suc k..<Suc (Suc (k + n))]" by (rule upt_conv_Cons) simp
  ultimately show ?case
    using Suc.IH [of "Suc k"] Suc.prems(1) [of "Suc i" for i] Suc.prems(2)
    by (subst send_platform_loop.simps) (simp add: Let_def split_beta del: upt_Suc)
qed

text \<open>A result can only come from a poll that found nothing, or from a dispatcher that is gone.\<close>

lemma loop_result:
  assumes "send_platform_loop fs watch sent k prev evs = Some r"
  shows "\<exists>i \<ge> k. \<not> changed_again watch i \<or> \<not> sent i"
proof (rule send_platform_loop.raw_induct
    [where P = "\<lambda>fs watch sent k prev evs r. \<exists>i \<ge> k. \<not> changed_again watch i \<or> \<not> sent i", OF _ assms])
  fix f fs watch sent k prev evs r
  assume IH: "\<And>fs watch sent k prev evs r. f fs watch sent k prev evs = Some r
      \<Longrightarrow> \<exists>i \<ge> k. \<not> changed_again watch i \<or> \<not> sent i"
    and eq: "(let cur = platform_value fs watch k in
      if cur \<noteq> prev \<and> \<not> sent k then Some (False, evs, cur)
      else let evs = (if cur \<noteq> prev then evs @ [PlatformProfileChanged cur] else evs) in
        if \<not> changed_again watch k then Some (True, evs, cur)
        else f fs watch sent (Suc k) cur evs) = Some r"
  show "\<exists>i \<ge> k. \<not> changed_again watch i \<or> \<not> sent i"
  proof (cases "changed_again watch k \<and> sent k")
    case True
    with eq obtain evs' where "f fs watch sent (Suc k) (platform_value fs watch k) evs' = Some r"
      by (auto simp: Let_def)
    then show ?thesis using IH Suc_leD by blast
  qed auto
qed

lemma next_inotify_skips:
  "(\<And>i. i < n \<Longrightarrow> stream (k + i) = ReadError) \<Longrightarrow> stream (k + n) \<noteq> ReadError \<Longrightarrow>
     next_inotify stream k = Some (case stream (k + n) of Item ev \<Rightarrow> Some ev | _ \<Rightarrow> None)"
proof (induction n arbitrary: k)
  case 0
  then show ?case by (simp add: next_inotify.simps split: stream_item.split)
next
  case (Suc n)
  have "stream k = ReadError" using Suc.prems(1) [of 0] by simp
  then show ?case
    using Suc.IH [of "Suc k"] Suc.prems(1) [of "Suc i" for i] Suc.prems(2)
    by (subst next_inotify.simps) simp
qed

text \<open>A task whose readings stay what its first reading was has nothing to say.\<close>

lemma quiet_step:
  assumes "\<forall>v \<in> set platform. v = in_platform cur"
  shows "fst (file_step add ts w platform cur (st, cur)) = []
     \<and> snd (snd (file_step add ts w platform cur (st, cur))) = cur"
proof -
  have "changes (in_platform cur) platform = []" "last (in_platform cur # platform) = in_platform cur"
    using assms by (induction platform) auto
  then show ?thesis
    by (simp add: file_step_def file_pass_def Let_def split_beta send_platform_changes)
qed

lemma quiet_run:
  "\<forall>(w, platform, r) \<in> set steps. r = cur \<and> (\<forall>v \<in> set platform. v = in_platform cur)
     \<Longrightarrow> fst (file_run add ts steps (st, cur)) = []"
proof (induction steps arbitrary: st)
  case (Cons x steps)
  obtain w platform r where x: "x = (w, platform, r)" by (cases x)
  with Cons.prems have "r = cur" and q: "\<forall>v \<in> set platform. v = in_platform cur" by auto
  moreover obtain evs st' prev where "file_step add ts w platform cur (st, cur) = (evs, st', prev)"
    by (metis surj_pair)
  moreover from this have "evs = []" "prev = cur" using quiet_step [OF q, of add ts w st] by simp_all
  ultimately show ?case using x Cons.IH [of st'] Cons.prems by (simp add: Let_def split_beta)
qed simp

text \<open>What the startup leaves of the keyboard level.\<close>

lemma boot_kbd_level:
  assumes "boot e a s0 = Some (s, q)"
  shows "kbd_level s = or_default DEFAULT_KBD_LEVEL_PCT
      (map_option clamp_level (Option.bind (Option.bind (ba_kbd_level a) first_word) parse_i64))"
    and "KbdLevelChanged v \<notin> set q"
proof -
  have keep: "kbd_level (snd (battery_low_request_check e t)) = kbd_level t"
    "kbd_level (boot_world e a t) = kbd_level t" "kbd_level (boot_profile e t) = kbd_level t"
    "kbd_level (boot_locked a t) = kbd_level t" "kbd_level (discover_kbd e t) = kbd_level t" for t
    by (auto simp: battery_low_request_check_def request_suspend_def clear_battery_low_request_def boot_world_def
        boot_profile_def boot_locked_def discover_kbd_def active_profile_name_def ask_def emit_def
        wayland_idle_inhibited_def ext_monitor_count_def Let_def split_beta
        split: option.split battery_low_act.split)
  show "kbd_level s = or_default DEFAULT_KBD_LEVEL_PCT
      (map_option clamp_level (Option.bind (Option.bind (ba_kbd_level a) first_word) parse_i64))"
    "KbdLevelChanged v \<notin> set q"
    using assms by (auto simp: boot_def boot_queue_def Let_def keep boot_kbd_def split: if_splits)
qed

section \<open>Properties\<close>

text \<open>C25: The loop that reads \<open>platform_profile\<close> returns exactly when the kernel stops reporting changes:
  with a dispatcher that takes the events it ends if and only if some poll finds the attribute
  unchanged, and then it has sent every change between consecutive readings, in order, and holds
  the last value read.\<close>
theorem platform_loop_terminates:
  "((\<exists>r. send_platform_loop fs watch (\<lambda>_. True) k prev [] = Some r) \<longleftrightarrow> (\<exists>n. \<not> changed_again watch (k + n)))
   \<and> (\<forall>n. (\<forall>i < n. changed_again watch (k + i)) \<and> \<not> changed_again watch (k + n) \<longrightarrow>
        send_platform_loop fs watch (\<lambda>_. True) k prev [] =
          Some (True, map PlatformProfileChanged (changes prev (map (platform_value fs watch) [k..<Suc (k + n)])),
                platform_value fs watch (k + n)))"
proof (intro conjI allI impI iffI)
  assume "\<exists>r. send_platform_loop fs watch (\<lambda>_. True) k prev [] = Some r"
  then obtain i where "i \<ge> k" "\<not> changed_again watch i" using loop_result by blast
  then show "\<exists>n. \<not> changed_again watch (k + n)" by (metis le_add_diff_inverse)
next
  assume ex: "\<exists>n. \<not> changed_again watch (k + n)"
  define n where "n = (LEAST n. \<not> changed_again watch (k + n))"
  have "\<not> changed_again watch (k + n)" unfolding n_def using ex by (rule LeastI_ex)
  moreover have "changed_again watch (k + i)" if "i < n" for i using not_less_Least that unfolding n_def by blast
  ultimately show "\<exists>r. send_platform_loop fs watch (\<lambda>_. True) k prev [] = Some r"
    using loop_settles [of n watch k fs prev "[]"] by auto
next
  fix n
  assume "(\<forall>i < n. changed_again watch (k + i)) \<and> \<not> changed_again watch (k + n)"
  then show "send_platform_loop fs watch (\<lambda>_. True) k prev [] =
      Some (True, map PlatformProfileChanged (changes prev (map (platform_value fs watch) [k..<Suc (k + n)])),
            platform_value fs watch (k + n))"
    using loop_settles [of n watch k fs prev "[]"] by (simp add: send_platform_changes)
qed

definition demo_watch :: platform_watch where
  "demo_watch = \<lparr>pw_seek = \<lambda>_. True, pw_text = \<lambda>k. Some (if k = 0 then ''balanced'' else ''performance''),
     pw_poll = \<lambda>k. k < 1\<rparr>"

theorem platform_loop_terminates_witness:
  "send_platform_loop (\<lambda>_. empty_fs) (Some demo_watch) (\<lambda>_. True) 0 None [] =
     Some (True, [PlatformProfileChanged (Some ''balanced''), PlatformProfileChanged (Some ''performance'')],
           Some ''performance'')"
proof -
  have "first_word ''balanced'' = Some ''balanced''" "first_word ''performance'' = Some ''performance''"
    by code_simp+
  then have v: "platform_value (\<lambda>_. empty_fs) (Some demo_watch) 0 = Some ''balanced''"
    "platform_value (\<lambda>_. empty_fs) (Some demo_watch) 1 = Some ''performance''"
    by (simp_all add: platform_value_def pw_read_def demo_watch_def)
  have "\<forall>i < (1::nat). changed_again (Some demo_watch) (0 + i)" "\<not> changed_again (Some demo_watch) (0 + 1)"
    by (simp_all add: changed_again_def demo_watch_def)
  then show ?thesis
    using conjunct2 [OF platform_loop_terminates [of "\<lambda>_. empty_fs" "Some demo_watch" 0 None], THEN spec, of 1] v
    by (simp add: upt_rec)
qed

text \<open>C26: A state file that changes while the daemon starts can be lost for good: the startup reads the
  keyboard level into the context, and the state-file task takes its own first reading, later, as
  already reported. If the file changed in between, no tick and no other event ever makes the task
  report it as long as the files stand still, and the startup queues no level event either, so the
  daemon keeps the old level.\<close>
theorem change_before_first_reading_is_lost:
  assumes "boot e a s0 = Some (s, q)" and "in_kbd_level cur = Some l" and "l \<noteq> kbd_level s"
    and "\<forall>(w, platform, r) \<in> set steps. r = cur \<and> (\<forall>v \<in> set platform. v = in_platform cur)"
  shows "fst (file_run add ts steps (task_start add ts io1 io2 io3 cur)) = []
     \<and> (\<forall>v. KbdLevelChanged v \<notin> set q)
     \<and> kbd_level s = or_default DEFAULT_KBD_LEVEL_PCT
         (map_option clamp_level (Option.bind (Option.bind (ba_kbd_level a) first_word) parse_i64))"
  using quiet_run [OF assms(4)] boot_kbd_level [OF assms(1)] by (simp add: task_start_def)

definition late_inputs :: inputs where
  "late_inputs = \<lparr>in_platform = None, in_gpu = None, in_power = None, in_suspend = False, in_profiles = 0,
     in_kbd_level = Some 40, in_kbd_override = False\<rparr>"

theorem change_before_first_reading_is_lost_witness:
  "\<exists>s q. boot demo_env (demo_answers None True) (demo_sys False) = Some (s, q) \<and> kbd_level s \<noteq> 40
     \<and> fst (file_run (\<lambda>_. WatchAbsent) [] (replicate 9 (Tick, [None], late_inputs))
          (task_start (\<lambda>_. WatchAbsent) [] True True False late_inputs)) = []"
proof -
  obtain s q where b: "boot demo_env (demo_answers None True) (demo_sys False) = Some (s, q)"
    using demo_boots by blast
  have l: "kbd_level s \<noteq> 40"
    using boot_kbd_level(1) [OF b] by (simp add: demo_answers_def or_default_def DEFAULT_KBD_LEVEL_PCT_def)
  have "in_kbd_level late_inputs = Some 40" "in_platform late_inputs = None" by (simp_all add: late_inputs_def)
  then have "fst (file_run (\<lambda>_. WatchAbsent) [] (replicate 9 (Tick, [None], late_inputs))
          (task_start (\<lambda>_. WatchAbsent) [] True True False late_inputs)) = []"
    using change_before_first_reading_is_lost [OF b, of late_inputs 40 "replicate 9 (Tick, [None], late_inputs)"] l
    by simp
  with b l show ?thesis by blast
qed

end
