(* ===== verification/Spans.thy ===== *)
theory Spans
  imports Telemetry
begin

text \<open>
  What the dispatcher writes about its own states (\<open>src/daemon/dispatcher.rs\<close>): the line and the
  record of a transition (\<open>log_state_transition\<close>), and the span that covers the state it is in
  (\<open>enter_state_span\<close>), opened at startup and after a transition that went through, closed by the next one and by
  the end of \<open>run\<close>. The tracing crate is external: a span here is its state with the time it was
  opened, and with the time it was dropped once it is closed.
\<close>

section \<open>Transition records\<close>

record transition_record =
  tr_from :: string
  tr_to :: string
  tr_cause :: string
  tr_ext_mon :: u32
  tr_inhibitor :: bool
  tr_locked :: bool
  tr_on_ac :: bool
  tr_suspend_requested :: bool
  tr_lid_ac_hold :: bool

definition log_state_transition :: "'p sys \<Rightarrow> fsm_state \<Rightarrow> fsm_state \<Rightarrow> string \<Rightarrow> transition_record" where
  "log_state_transition s from to label =
     \<lparr>tr_from = state_as_str from, tr_to = state_as_str to, tr_cause = label, tr_ext_mon = ext_mon_count s,
      tr_inhibitor = inhibitor s, tr_locked = locked s, tr_on_ac = on_ac s,
      tr_suspend_requested = suspend_requested s, tr_lid_ac_hold = wi_lid_ac_hold (world s)\<rparr>"

text \<open>What one evaluation writes: the record goes out before the state is entered, the span after.\<close>

definition evaluate_records :: "event_kind \<Rightarrow> string \<Rightarrow> 'p sys \<Rightarrow> transition_record list" where
  "evaluate_records kind label s = (case desired_state (state s) kind (world s) of
      None \<Rightarrow> []
    | Some new \<Rightarrow> if new = state s then [] else [log_state_transition s (state s) new label])"

definition evaluate_spans :: "'p env \<Rightarrow> event_kind \<Rightarrow> string \<Rightarrow> 'p sys \<Rightarrow> fsm_state list" where
  "evaluate_spans e kind label s = (case desired_state (state s) kind (world s) of
      None \<Rightarrow> []
    | Some new \<Rightarrow>
        if new = state s then []
        else let s1 = emit (Transition (state s) new label) s;
                 entered = (if new = fsm_state.Suspending then fst (on_enter e new Fresh s1)
                            else fst (on_enter e new Fresh (s1\<lparr>state := new\<rparr>)))
             in if entered then [state (evaluate_fsms e kind label s)] else [])"

definition turn_spans :: "'p env \<Rightarrow> event \<Rightarrow> 'p sys \<Rightarrow> fsm_state list" where
  "turn_spans e ev s =
     (let kind = event_kind_of ev; label = event_label ev;
          (falls, s1) = route_event e ev s
      in if falls then evaluate_spans e kind label (before_fsms e kind label s1)
         else case ev of
             ReconcileTick snap \<Rightarrow>
               (let (fsm_drift, power_drift, d) = repair_snapshot snap s;
                    p = (if power_drift then repair_power e d else d)
                in if fsm_drift then evaluate_spans e event_kind.CtxRepaired ''CtxRepaired'' p else [])
           | _ \<Rightarrow> [])"

section \<open>Occupancy\<close>

record occupancy =
  oc_closed :: "(fsm_state \<times> nat \<times> nat) list"
  oc_open :: "(fsm_state \<times> nat) option"

definition drop_span :: "nat \<Rightarrow> occupancy \<Rightarrow> occupancy" where
  "drop_span now oc = (case oc_open oc of
      None \<Rightarrow> oc
    | Some (st, since) \<Rightarrow> oc\<lparr>oc_closed := oc_closed oc @ [(st, since, now)], oc_open := None\<rparr>)"

definition enter_state_span :: "nat \<Rightarrow> fsm_state \<Rightarrow> occupancy \<Rightarrow> occupancy" where
  "enter_state_span now to oc = (drop_span now oc)\<lparr>oc_open := Some (to, now)\<rparr>"

text \<open>\<open>run\<close>: the span of the starting state, one turn per event, and the drop of the context when
  the loop ends, by a signal or because no sender is left.\<close>

definition serve_turn :: "'p env \<Rightarrow> event \<Rightarrow> nat \<Rightarrow> 'p sys \<times> occupancy \<Rightarrow> 'p sys \<times> occupancy" where
  "serve_turn e ev now x =
     (turn e ev (fst x), fold (enter_state_span now) (turn_spans e ev (fst x)) (snd x))"

fun serve :: "'p env \<Rightarrow> (event \<times> nat) list \<Rightarrow> 'p sys \<times> occupancy \<Rightarrow> 'p sys \<times> occupancy" where
  "serve e [] x = x"
| "serve e ((ev, now) # later) x = serve e later (serve_turn e ev now x)"

definition run_spans :: "'p env \<Rightarrow> nat \<Rightarrow> (event \<times> nat) list \<Rightarrow> nat \<Rightarrow> 'p sys \<Rightarrow> (fsm_state \<times> nat \<times> nat) list" where
  "run_spans e began evs ended s =
     (let oc = enter_state_span began (world_state (world s)) \<lparr>oc_closed = [], oc_open = None\<rparr>
      in oc_closed (drop_span ended (snd (serve e evs (start e s, oc)))))"

text \<open>What ends the loop: the first of the three signals whose stream could be registered
  (\<open>shutdown_signal\<close>). A signal without a stream keeps its default action and kills the process, so
  the open span is never dropped.\<close>

datatype loop_input = Queued event nat | Signalled string nat

datatype ending = Waiting | Clean string nat | Killed nat

fun shutdown_signal :: "(string \<Rightarrow> bool) \<Rightarrow> loop_input list \<Rightarrow> (event \<times> nat) list \<times> ending" where
  "shutdown_signal registered [] = ([], Waiting)"
| "shutdown_signal registered (Queued ev now # later) =
     (let (evs, over) = shutdown_signal registered later in ((ev, now) # evs, over))"
| "shutdown_signal registered (Signalled name now # later) =
     ([], if registered name then Clean name now else Killed now)"

definition daemon_spans ::
  "'p env \<Rightarrow> (string \<Rightarrow> bool) \<Rightarrow> nat \<Rightarrow> loop_input list \<Rightarrow> 'p sys \<Rightarrow> (fsm_state \<times> nat \<times> nat) list" where
  "daemon_spans e registered began inputs s =
     (let (evs, over) = shutdown_signal registered inputs;
          oc = enter_state_span began (world_state (world s)) \<lparr>oc_closed = [], oc_open = None\<rparr>
      in case over of
           Clean name now \<Rightarrow> run_spans e began evs now s
         | _ \<Rightarrow> oc_closed (snd (serve e evs (start e s, oc))))"

section \<open>Facts\<close>

lemma evaluate_spans_state:
  "evaluate_spans e kind label s =
     (if state (evaluate_fsms e kind label s) = state s then [] else [state (evaluate_fsms e kind label s)])"
  by (auto simp: evaluate_spans_def state_evaluate_fsms on_enter_entered Let_def split: option.split)

lemma turn_spans_state:
  "turn_spans e ev s = (if state (turn e ev s) = state s then [] else [state (turn e ev s)])"
proof (cases "is_tick ev")
  case True
  then obtain snap where ev: "ev = ReconcileTick snap" by (cases ev) (simp_all add: is_tick_def)
  let ?r = "repair_snapshot snap s"
  let ?p = "if fst (snd ?r) then repair_power e (snd (snd ?r)) else snd (snd ?r)"
  have p: "state ?p = state s"
    using state_repair_snapshot [of s snap] same_timer_repair_power [of "snd (snd ?r)" e]
    by (simp add: same_timer_def)
  have "state (turn e ev s) = (if fst ?r then state (evaluate_fsms e event_kind.CtxRepaired ''CtxRepaired'' ?p) else state s)"
    using p by (simp add: ev turn_unfold route_event_def state_world_sync_waybar handle_reconcile_tick_def Let_def
        split_beta state_tick_tail)
  then show ?thesis
    using p by (simp add: ev turn_spans_def route_event_def evaluate_spans_state Let_def split_beta)
next
  case False
  let ?r = "route_event e ev s"
  let ?b = "before_fsms e (event_kind_of ev) (event_label ev) (snd ?r)"
  have b: "state ?b = state s" using state_route [OF False, of e s] by (simp add: state_before_fsms)
  have "state (turn e ev s) = (if fst ?r then state (evaluate_fsms e (event_kind_of ev) (event_label ev) ?b) else state s)"
    using state_route [OF False, of e s] by (simp add: turn_unfold state_world_sync_waybar)
  moreover have "turn_spans e ev s = (if fst ?r then evaluate_spans e (event_kind_of ev) (event_label ev) ?b else [])"
    using False by (auto simp: turn_spans_def Let_def split_beta is_tick_def split: event.split)
  ultimately show ?thesis using b by (simp add: evaluate_spans_state)
qed

text \<open>Closed spans that lie end to end from one time to another.\<close>

fun tiles :: "nat \<Rightarrow> (fsm_state \<times> nat \<times> nat) list \<Rightarrow> nat \<Rightarrow> bool" where
  "tiles a [] b \<longleftrightarrow> a = b"
| "tiles a ((_, x, y) # rest) b \<longleftrightarrow> x = a \<and> x \<le> y \<and> tiles y rest b"

definition spent :: "(fsm_state \<times> nat \<times> nat) list \<Rightarrow> nat" where
  "spent spans = (\<Sum>(_, x, y) \<leftarrow> spans. y - x)"

lemma tiles_append: "tiles a (us @ [(st, x, y)]) b \<longleftrightarrow> tiles a us x \<and> x \<le> y \<and> y = b"
  by (induction us arbitrary: a) auto

lemma tiles_spent: "tiles a us b \<Longrightarrow> a \<le> b \<and> spent us = b - a"
  by (induction a us b rule: tiles.induct) (auto simp: spent_def)

definition covered :: "nat \<Rightarrow> nat \<Rightarrow> 'p sys \<times> occupancy \<Rightarrow> bool" where
  "covered began now x \<longleftrightarrow> (\<exists>since. oc_open (snd x) = Some (state (fst x), since)
     \<and> tiles began (oc_closed (snd x)) since \<and> since \<le> now)"

lemma covered_turn:
  assumes "covered began now x" "now \<le> later"
  shows "covered began later (serve_turn e ev later x)"
  using assms
  by (auto simp: covered_def serve_turn_def turn_spans_state enter_state_span_def drop_span_def tiles_append)

lemma covered_serve:
  "covered began now x \<Longrightarrow> sorted (now # map snd evs) \<Longrightarrow> covered began (last (now # map snd evs)) (serve e evs x)"
proof (induction e evs x arbitrary: now rule: serve.induct)
  case (2 e ev t later x)
  then have "covered began t (serve_turn e ev t x)" using covered_turn [of began now x t e ev] by simp
  with 2 show ?case by fastforce
qed simp

lemma serve_state: "fst (serve e evs (s, oc)) = fst (serve e evs (s, oc'))"
proof (induction evs arbitrary: s oc oc')
  case (Cons x evs)
  then show ?case by (cases x) (auto simp: serve_turn_def)
qed simp

lemma served_open:
  assumes "sorted (began # map snd evs)"
  shows "covered began (last (began # map snd evs))
     (serve e evs (start e s, enter_state_span began (world_state (world s)) \<lparr>oc_closed = [], oc_open = None\<rparr>))"
proof -
  have "state (start e s) = world_state (world s)" using fsm_viewD(1) [OF view_start, of e s] by simp
  then show ?thesis
    by (intro covered_serve assms) (simp add: covered_def enter_state_span_def drop_span_def)
qed

text \<open>A signal that kills the process loses exactly the span of the state the daemon died in.\<close>
lemma killed_daemon_loses_its_last_span:
  assumes "shutdown_signal registered inputs = (evs, Killed now)" and "sorted (began # map snd evs)"
  shows "\<exists>since. run_spans e began evs now s = daemon_spans e registered began inputs s
     @ [(state (fst (serve e evs (start e s, \<lparr>oc_closed = [], oc_open = None\<rparr>))), since, now)]"
  using assms(1) served_open [OF assms(2), of e s]
    serve_state [of e evs "start e s"
      "enter_state_span began (world_state (world s)) \<lparr>oc_closed = [], oc_open = None\<rparr>" "\<lparr>oc_closed = [], oc_open = None\<rparr>"]
  by (auto simp: daemon_spans_def run_spans_def covered_def drop_span_def Let_def)

section \<open>Properties\<close>

text \<open>A suspend that is refused is in the record as one that happened: the record of a transition to
  Suspending goes out before the state is entered, and nothing takes it back when the locker or
  logind refuses, although the state stays and no span is opened.\<close>
lemma refused_suspend_is_recorded:
  assumes "desired_state (state s) kind (world s) = Some fsm_state.Suspending"
    and "state s \<noteq> fsm_state.Suspending" and "state (evaluate_fsms e kind label s) = state s"
  shows "evaluate_records kind label s = [log_state_transition s (state s) fsm_state.Suspending label]
     \<and> evaluate_spans e kind label s = []"
  using assms by (simp add: evaluate_records_def evaluate_spans_state)

text \<open>C34: The occupancy spans tell where the daemon was at every moment: over any run of events with
  times that do not go back, the spans emitted lie end to end from the start to the shutdown, so
  their lengths add up to the time the daemon ran, and the last one is that of the state it ended
  in; no moment is lost, counted twice or booked on a state that a refused suspend never entered.\<close>
theorem spans_cover_the_run:
  assumes "sorted (began # map snd evs @ [ended])"
  shows "tiles began (run_spans e began evs ended s) ended \<and> spent (run_spans e began evs ended s) = ended - began
     \<and> fst (last (run_spans e began evs ended s))
         = state (fst (serve e evs (start e s, \<lparr>oc_closed = [], oc_open = None\<rparr>)))"
proof -
  let ?oc = "enter_state_span began (world_state (world s)) \<lparr>oc_closed = [], oc_open = None\<rparr>"
  let ?x = "serve e evs (start e s, ?oc)"
  have "sorted (began # map snd evs)" "last (began # map snd evs) \<le> ended"
    using assms last_in_set [of "map snd evs"] by (auto simp: sorted_append simp del: last_map)
      (metis snd_conv)
  then obtain since where x: "oc_open (snd ?x) = Some (state (fst ?x), since)"
      "tiles began (oc_closed (snd ?x)) since" "since \<le> ended"
    using served_open [of began evs e s] by (auto simp: covered_def)
  then have r: "run_spans e began evs ended s = oc_closed (snd ?x) @ [(state (fst ?x), since, ended)]"
    by (simp add: run_spans_def drop_span_def Let_def)
  have "tiles began (run_spans e began evs ended s) ended" using x r by (simp add: tiles_append)
  with tiles_spent [OF this] r show ?thesis using serve_state [of e evs "start e s" ?oc "\<lparr>oc_closed = [], oc_open = None\<rparr>"] by simp
qed

theorem spans_cover_the_run_witness:
  "spent (run_spans demo_env 5 [(event.TimerExpired, 35), (event.Resumed, 1000)] 1200 (demo_sys False)) = 1195"
  using spans_cover_the_run [of 5 "[(event.TimerExpired, 35), (event.Resumed, 1000)]" 1200 demo_env "demo_sys False"]
  by simp

end
