(* ===== verification/Fingerprint.thy ===== *)
theory Fingerprint
  imports ProfileStore "HOL-Library.Multiset"
begin

text \<open>
  The change detector of the profile directories, \<open>profiles_source_fingerprint\<close> of
  \<open>src/sysio/profiles.rs\<close>, which the state-file task compares before it reports changed profiles. The
  standard library's hasher is a parameter: it gets the sequence of what is hashed.
\<close>

section \<open>What is hashed\<close>

record file_meta =
  fm_len :: nat
  fm_modified :: "nat option"

text \<open>A directory as \<open>read_dir\<close> and \<open>metadata\<close> show it: its names, and the metadata of a path.\<close>

type_synonym dir_reading = "string list \<times> (string \<Rightarrow> file_meta option)"

datatype hash_item = HPath string | HLen nat | HTime nat

definition toml_paths :: "string \<Rightarrow> string list \<Rightarrow> string list" where
  "toml_paths dir names = sort (map (path_join dir) (filter (\<lambda>n. extension n = Some ''toml'') names))"

definition meta_items :: "file_meta option \<Rightarrow> hash_item list" where
  "meta_items m = (case m of
      None \<Rightarrow> []
    | Some fm \<Rightarrow> HLen (fm_len fm) # (case fm_modified fm of Some t \<Rightarrow> [HTime t] | None \<Rightarrow> []))"

definition dir_items :: "string \<Rightarrow> dir_reading option \<Rightarrow> hash_item list" where
  "dir_items dir rd = HPath dir # (case rd of
      None \<Rightarrow> []
    | Some (names, meta) \<Rightarrow> concat (map (\<lambda>p. HPath p # meta_items (meta p)) (toml_paths dir names)))"

definition profiles_source_fingerprint ::
  "(hash_item list \<Rightarrow> nat) \<Rightarrow> string \<times> dir_reading option \<Rightarrow> string \<times> dir_reading option \<Rightarrow> nat" where
  "profiles_source_fingerprint digest system user =
     digest (dir_items (fst system) (snd system) @ dir_items (fst user) (snd user))"

section \<open>Facts\<close>

lemma meta_items_inj: "meta_items m = meta_items m' \<longleftrightarrow> m = m'"
  by (auto simp: meta_items_def split: option.splits)

lemma meta_items_no_path: "HPath p \<notin> set (meta_items m)"
  by (auto simp: meta_items_def split: option.splits)

definition path_or_end :: "hash_item list \<Rightarrow> bool" where
  "path_or_end xs \<longleftrightarrow> xs = [] \<or> (\<exists>p. hd xs = HPath p)"

lemma meta_items_split:
  assumes "meta_items m @ xs = meta_items m' @ ys" and "path_or_end xs" "path_or_end ys"
  shows "m = m' \<and> xs = ys"
proof -
  let ?P = "\<lambda>i. \<forall>p. i \<noteq> HPath p"
  have t: "takeWhile ?P (meta_items k @ zs) = meta_items k" if "path_or_end zs" for k zs
  proof -
    have "takeWhile ?P zs = []" using that by (cases zs) (auto simp: path_or_end_def)
    moreover have "\<forall>i \<in> set (meta_items k). ?P i" using meta_items_no_path [of _ k] by blast
    ultimately show ?thesis by (simp add: takeWhile_append2)
  qed
  have "meta_items m = meta_items m'" using t [OF assms(2)] t [OF assms(3)] assms(1) by metis
  with assms(1) show ?thesis by (simp add: meta_items_inj)
qed

lemma entry_items_inj:
  "concat (map (\<lambda>p. HPath p # meta_items (f p)) ps) = concat (map (\<lambda>p. HPath p # meta_items (g p)) qs)
     \<longleftrightarrow> ps = qs \<and> (\<forall>p \<in> set ps. f p = g p)"
proof (induction ps arbitrary: qs)
  case Nil
  then show ?case by (cases qs) auto
next
  case (Cons p ps)
  have e: "path_or_end (concat (map (\<lambda>p. HPath p # meta_items (h p)) rs))" for h rs
    by (cases rs) (auto simp: path_or_end_def)
  show ?case
  proof (cases qs)
    case qs: (Cons q qs')
    have "meta_items (f p) @ concat (map (\<lambda>p. HPath p # meta_items (f p)) ps)
        = meta_items (g q) @ concat (map (\<lambda>p. HPath p # meta_items (g p)) qs')
      \<longleftrightarrow> f p = g q \<and> concat (map (\<lambda>p. HPath p # meta_items (f p)) ps) = concat (map (\<lambda>p. HPath p # meta_items (g p)) qs')"
      (is "?l = ?r \<longleftrightarrow> _")
    proof
      assume "?l = ?r"
      then show "f p = g q \<and> concat (map (\<lambda>p. HPath p # meta_items (f p)) ps)
          = concat (map (\<lambda>p. HPath p # meta_items (g p)) qs')"
        by (rule meta_items_split [OF _ e e])
    qed simp
    then show ?thesis using Cons.IH [of qs'] unfolding qs by auto
  qed simp
qed

lemma dir_items_inj:
  "dir_items dir (Some (names, meta)) = dir_items dir (Some (names', meta'))
     \<longleftrightarrow> toml_paths dir names = toml_paths dir names' \<and> (\<forall>p \<in> set (toml_paths dir names). meta p = meta' p)"
  by (simp add: dir_items_def entry_items_inj)

lemma toml_paths_mset:
  "toml_paths dir names = toml_paths dir names' \<longleftrightarrow>
     mset (filter (\<lambda>n. extension n = Some ''toml'') names) = mset (filter (\<lambda>n. extension n = Some ''toml'') names')"
proof -
  have strip: "mset xs = image_mset (drop (Suc (length dir))) (mset (map (path_join dir) xs))" for xs
    by (induction xs) (simp_all add: path_join_def)
  have same: "sort xs = sort ys \<longleftrightarrow> mset xs = mset ys" for xs ys :: "string list"
  proof
    assume "sort xs = sort ys"
    then have "mset (sort xs) = mset (sort ys)" by simp
    then show "mset xs = mset ys" by simp
  next
    assume "mset xs = mset ys"
    then show "sort xs = sort ys" by (intro properties_for_sort) simp_all
  qed
  have "toml_paths dir names = toml_paths dir names'
      \<longleftrightarrow> mset (map (path_join dir) (filter (\<lambda>n. extension n = Some ''toml'') names))
        = mset (map (path_join dir) (filter (\<lambda>n. extension n = Some ''toml'') names'))"
    unfolding toml_paths_def by (rule same)
  also have "\<dots> \<longleftrightarrow> mset (filter (\<lambda>n. extension n = Some ''toml'') names) = mset (filter (\<lambda>n. extension n = Some ''toml'') names')"
    (is "mset (map _ ?a) = mset (map _ ?b) \<longleftrightarrow> _")
  proof
    assume "mset (map (path_join dir) ?a) = mset (map (path_join dir) ?b)"
    then show "mset ?a = mset ?b" using strip [of ?a] strip [of ?b] by (simp only:)
  qed (simp only: mset_map)
  finally show ?thesis .
qed

section \<open>Properties\<close>

text \<open>The fingerprint of the profile directories sees the TOML sources and nothing else: with a digest
  that does not collide on the two readings, it is the same before and after exactly when the same
  TOML names are there, in whatever order they are listed, with the same metadata. So the renders
  and the active link that loading profiles writes into the watched directory never make the task
  report changed profiles, and a changed source that keeps its length and its time is not seen.\<close>
lemma fingerprint_sees_the_toml_sources:
  assumes "inj_on digest {dir_items (fst system) (snd system) @ dir_items dir (Some (names, meta)),
       dir_items (fst system) (snd system) @ dir_items dir (Some (names', meta'))}"
  shows "profiles_source_fingerprint digest system (dir, Some (names, meta))
       = profiles_source_fingerprint digest system (dir, Some (names', meta'))
     \<longleftrightarrow> mset (filter (\<lambda>n. extension n = Some ''toml'') names) = mset (filter (\<lambda>n. extension n = Some ''toml'') names')
       \<and> (\<forall>n \<in> set names. extension n = Some ''toml'' \<longrightarrow> meta (path_join dir n) = meta' (path_join dir n))"
proof -
  have "profiles_source_fingerprint digest system (dir, Some (names, meta))
       = profiles_source_fingerprint digest system (dir, Some (names', meta'))
     \<longleftrightarrow> dir_items dir (Some (names, meta)) = dir_items dir (Some (names', meta'))"
    using inj_on_eq_iff [OF assms] by (simp add: profiles_source_fingerprint_def)
  then show ?thesis by (simp add: dir_items_inj toml_paths_mset) (auto simp: toml_paths_def)
qed

lemma fingerprint_sees_the_toml_sources_witness:
  "profiles_source_fingerprint length (''/etc/monitor-profiles'', None)
       (''/p'', Some ([''desk.toml''], \<lambda>_. Some \<lparr>fm_len = 9, fm_modified = None\<rparr>))
     = profiles_source_fingerprint length (''/etc/monitor-profiles'', None)
       (''/p'', Some ([''desk.lua'', ''desk.toml''], \<lambda>_. Some \<lparr>fm_len = 9, fm_modified = None\<rparr>))"
proof -
  let ?m = "\<lambda>_. Some \<lparr>fm_len = 9, fm_modified = None\<rparr>"
  have e: "extension ''desk.toml'' = Some ''toml''" "extension ''desk.lua'' = Some ''lua''"
    by (simp_all add: extension_def)
  then have "dir_items ''/p'' (Some ([''desk.toml''], ?m)) = dir_items ''/p'' (Some ([''desk.lua'', ''desk.toml''], ?m))"
    by (simp add: dir_items_def toml_paths_def)
  then show ?thesis
    using fingerprint_sees_the_toml_sources [of length "(''/etc/monitor-profiles'', None)" "''/p''" "[''desk.toml'']" ?m
        "[''desk.lua'', ''desk.toml'']" ?m] e
    by simp
qed

end
