(* ===== verification/IdleCycle.thy ===== *)
theory IdleCycle
  imports LidCycle Cli FileState
begin

text \<open>
  An idle suspend from end to end: \<open>hyprstate suspend request\<close> (\<open>src/cli/suspend.rs\<close>) writes the
  request file, the state-file task (\<open>src/daemon/sources/files.rs\<close>) reports it, the dispatcher
  (\<open>src/daemon/dispatcher.rs\<close>) counts down, suspends, and on resume clears it; or
  \<open>hyprstate suspend cancel\<close> takes the file away in time.
\<close>

section \<open>From the file to the event\<close>

lemma request_change_reported:
  assumes "map_of (wt_wds st) wd = Some Runtime" "QOverflow \<notin> set bits" "Ignored \<notin> set bits"
  shows "fst (file_step add ts (InotifyEv wd bits (Some SUSPEND_REQUEST_NAME)) platform cur (st, prev)) =
     (if in_suspend cur = in_suspend prev then []
      else [SuspendRequestChanged (if in_suspend cur then Some ''idle'' else None)])"
  using assms
  by (simp add: file_step_def wake_def inotify_event_def route_def file_pass_def check_none_def report_def Let_def)

section \<open>The files the machine leaves alone\<close>

lemma sync_waybar_files:
  "request_file (sync_waybar s) = request_file s" "runtime_dir (sync_waybar s) = runtime_dir s"
  by (simp_all add: sync_waybar_def Let_def)

lemma enter_files:
  assumes "st \<noteq> fsm_state.Suspending"
  shows "request_file (snd (on_enter e st en s)) = request_file s"
    "runtime_dir (snd (on_enter e st en s)) = runtime_dir s"
  using assms
  by (cases st; auto simp: on_enter_def Let_def start_grace_timer_def cancel_grace_timer_def set_edp_def send_cmd_def
      cancel_claim_watch_def start_claim_watch_def pause_media_def split_beta split: option.split edp_policy.split)+

lemma enter_countdown_requested:
  assumes "suspend_requested s"
  shows "grace_timer (snd (on_enter e fsm_state.Countdown Fresh s)) = Some (Task GRACE_SECONDS False)"
proof -
  let ?t = "set_edp e False (cancel_claim_watch s)"
  have "suspend_requested ?t = suspend_requested s"
    by (simp add: fsm_viewD(9) [OF fsm_view_set_edp] fsm_viewD(9) [OF fsm_view_cancel_claim_watch])
  then show ?thesis
    using assms by (simp add: on_enter_def Let_def fresh_grace)
qed

lemma enter_docked_no_timer: "grace_timer (snd (on_enter e fsm_state.Docked en s)) = None"
  by (auto simp: on_enter_def Let_def cancel_grace_timer_def set_edp_def send_cmd_def
      cancel_claim_watch_def split_beta split: option.split edp_policy.split)

section \<open>Request, withdrawal, resume\<close>

definition unclaimed :: "'p env \<Rightarrow> 'p sys \<Rightarrow> bool" where
  "unclaimed e s \<longleftrightarrow> \<not> logind_inhibitor s \<and> (\<forall>k. q_clients e k = Some [])"

lemma request_counts_down:
  assumes "state s \<in> {fsm_state.LidOpen, fsm_state.Docked}" "unclaimed e s"
  shows "state (turn e (SuspendRequestChanged (Some w)) s) = fsm_state.Countdown"
    and "grace_timer (turn e (SuspendRequestChanged (Some w)) s) = Some (Task GRACE_SECONDS False)"
    and "world (turn e (SuspendRequestChanged (Some w)) s) = world (s\<lparr>suspend_requested := True, wayland_inhibitor := False\<rparr>)"
    and "has_session (turn e (SuspendRequestChanged (Some w)) s) = has_session s"
    and "request_file (turn e (SuspendRequestChanged (Some w)) s) = request_file s"
    and "runtime_dir (turn e (SuspendRequestChanged (Some w)) s) = runtime_dir s"
    and "shadow (turn e (SuspendRequestChanged (Some w)) s) = shadow s"
proof -
  let ?ev = "SuspendRequestChanged (Some w)"
  let ?r = "s\<lparr>suspend_requested := True, tick := Suc (tick s), wayland_inhibitor := False\<rparr>"
  let ?l = "event_label ?ev"
  let ?x = "(emit (Transition (state ?r) fsm_state.Countdown ?l) ?r)\<lparr>state := fsm_state.Countdown\<rparr>"
  have w: "world ?r = world (s\<lparr>suspend_requested := True, wayland_inhibitor := False\<rparr>)"
    by (simp add: world_def inhibitor_def)
  have r: "refresh_wayland_claim e (s\<lparr>suspend_requested := True\<rparr>) = ?r"
    using assms(2) by (simp add: refresh_no_claim unclaimed_def)
  have "world_state (world ?r) = fsm_state.Countdown"
    using assms(2) by (simp add: unclaimed_def world_def inhibitor_def world_state_def claim_governs_def)
  then have d: "desired_state (state ?r) (event_kind_of ?ev) (world ?r) = Some fsm_state.Countdown"
    using assms(1) by (auto simp: desired_state_def)
  have t: "turn e ?ev s = sync_waybar (snd (on_enter e fsm_state.Countdown Fresh ?x))"
    using evaluate_moves [OF d] assms(1)
    by (auto simp: turn_unfold route_event_def before_fsms_def gpu_gate_def power_gate_def Let_def r)
  show "state (turn e ?ev s) = fsm_state.Countdown"
    "world (turn e ?ev s) = world (s\<lparr>suspend_requested := True, wayland_inhibitor := False\<rparr>)"
    by (simp_all add: t state_world_sync_waybar on_enter_fields world_cong inhibitor_def w [symmetric])
  show "grace_timer (turn e ?ev s) = Some (Task GRACE_SECONDS False)"
    by (simp add: t sync_waybar_fields enter_countdown_requested)
  show "has_session (turn e ?ev s) = has_session s" "shadow (turn e ?ev s) = shadow s"
    by (simp_all add: t fsm_viewD(6,7) [OF fsm_view_sync_waybar] on_enter_fields)
  show "request_file (turn e ?ev s) = request_file s" "runtime_dir (turn e ?ev s) = runtime_dir s"
    by (simp_all add: t sync_waybar_files enter_files)
qed

text \<open>The expiry finds the file gone: the report of it is still on its way, and the daemon goes back
  to where it was.\<close>

lemma withdrawn_at_expiry:
  assumes "state s = fsm_state.Countdown" "suspend_requested s" "request_file s = None"
    and "world_state (world (s\<lparr>suspend_requested := False\<rparr>)) = st" "st \<in> {fsm_state.LidOpen, fsm_state.Docked}"
  shows "state (turn e event.TimerExpired s) = st" "grace_timer (turn e event.TimerExpired s) = None"
    "\<not> suspend_requested (turn e event.TimerExpired s)"
proof -
  let ?r = "s\<lparr>suspend_requested := False\<rparr>"
  let ?l = "event_label event.TimerExpired"
  have d: "desired_state (state ?r) event_kind.TimerExpired (world ?r) = Some st"
    using assms by (auto simp: desired_state_def)
  have t: "turn e event.TimerExpired s
      = sync_waybar (snd (on_enter e st Fresh ((emit (Transition (state ?r) st ?l) ?r)\<lparr>state := st\<rparr>)))"
    using evaluate_moves [OF d] assms
    by (auto simp: turn_unfold route_event_def before_fsms_def gpu_gate_def power_gate_def Let_def suspend_request_standing_def)
  show "state (turn e event.TimerExpired s) = st" "\<not> suspend_requested (turn e event.TimerExpired s)"
    by (simp_all add: t state_world_sync_waybar on_enter_fields sync_waybar_fields)
  show "grace_timer (turn e event.TimerExpired s) = None"
    using assms(5) by (auto simp: t sync_waybar_fields enter_lid_open_no_timer enter_docked_no_timer)
qed

lemma suspending_parts_files:
  "request_file (snd (live_locker e s)) = request_file s" "runtime_dir (snd (live_locker e s)) = runtime_dir s"
  "request_file (request_lock e s) = request_file s" "runtime_dir (request_lock e s) = runtime_dir s"
  "request_file (snd (wait_for_lock e s)) = request_file s" "runtime_dir (snd (wait_for_lock e s)) = runtime_dir s"
  "request_file (snd (do_suspend e s)) = request_file s" "runtime_dir (snd (do_suspend e s)) = runtime_dir s"
  by (simp_all add: live_locker_def request_lock_def wait_for_lock_def do_suspend_def Let_def split_beta)

lemma suspending_files:
  "request_file (snd (suspending_tail e s)) = request_file s" "runtime_dir (snd (suspending_tail e s)) = runtime_dir s"
  by (simp_all add: suspending_tail_def Let_def split_beta suspending_parts_files)

lemma expiry_files:
  assumes "state s = fsm_state.Countdown" "world_state (world s) = fsm_state.Countdown"
    and "\<not> suspend_requested s \<or> suspend_request_standing s"
  shows "request_file (turn e event.TimerExpired s) = request_file s" "runtime_dir (turn e event.TimerExpired s) = runtime_dir s"
    "world (turn e event.TimerExpired s) = world s"
proof -
  have "desired_state (state s) event_kind.TimerExpired (world s) = Some fsm_state.Suspending"
    using assms(1,2) main_fsm.fire_src [of "world s"] by simp
  then show "request_file (turn e event.TimerExpired s) = request_file s" "runtime_dir (turn e event.TimerExpired s) = runtime_dir s"
    using assms(1)
    by (simp_all add: turn_timer_expired [OF assms(3)] sync_waybar_files evaluate_fsms_def Let_def split_beta
        on_enter_def suspending_files start_grace_timer_def cancel_grace_timer_def cancel_claim_watch_def split: option.split)
  show "world (turn e event.TimerExpired s) = world s"
    by (simp add: turn_timer_expired [OF assms(3)] state_world_sync_waybar world_evaluate_fsms)
qed

lemma kbd_parts_files:
  "request_file (sample_lux e s) = request_file s" "runtime_dir (sample_lux e s) = runtime_dir s"
  "request_file (kbd_set e pct s) = request_file s" "runtime_dir (kbd_set e pct s) = runtime_dir s"
  "request_file (kbd_write_status e lit s) = request_file s" "runtime_dir (kbd_write_status e lit s) = runtime_dir s"
  by (auto simp: sample_lux_def kbd_set_def kbd_write_status_def Let_def split_beta split: option.split prod.split)

lemma kbd_check_files:
  "request_file (kbd_policy_check e smp s) = request_file s" "runtime_dir (kbd_policy_check e smp s) = runtime_dir s"
  by (simp_all add: kbd_policy_check_def Let_def kbd_parts_files)

lemma rearm_files: "request_file (brightness_rearm e s) = request_file s"
  by (simp add: brightness_rearm_def brightness_read_def Let_def split_beta split: option.split)

text \<open>An own resume: the file goes, and the state is what the world without the request derives.\<close>

lemma resumed_clears:
  assumes "state s = fsm_state.Suspending" "runtime_dir s" "\<not> shadow s" "\<forall>k. q_io e k"
    and "world_state (world (s\<lparr>suspend_requested := False\<rparr>)) = st" "st \<in> {fsm_state.LidOpen, fsm_state.Docked}"
  shows "state (turn e event.Resumed s) = st" and "request_file (turn e event.Resumed s) = None"
    and "grace_timer (turn e event.Resumed s) = None"
proof -
  let ?c = "clear_suspend_request e (s\<lparr>suspend_requested := False\<rparr>)"
  let ?r = "snd (route_event e event.Resumed s)"
  let ?b = "before_fsms e event_kind.Resumed (event_label event.Resumed) ?r"
  have c: "request_file ?c = None"
    using assms(2-4) by (simp add: clear_suspend_request_def Let_def split_beta split: option.split)
  have r: "request_file ?r = None" by (simp add: route_event_def Let_def kbd_check_files request_reconcile_def c)
  have b: "request_file ?b = None"
    by (simp add: before_fsms_def gpu_gate_def power_gate_def rearm_files r Let_def)
  have "world ?r = world (s\<lparr>suspend_requested := False\<rparr>)"
    by (simp add: route_event_def Let_def fsm_viewD(2) [OF fsm_view_kbd_policy_check] world_cong
        fsm_viewD(2) [OF fsm_view_request_reconcile] fsm_viewD(2) [OF fsm_view_clear_suspend_request])
  then have w: "world_state (world ?b) = st" using assms(5) by (simp add: world_before_fsms)
  have st: "state ?b = fsm_state.Suspending"
    using assms(1) state_route [of event.Resumed e s] by (simp add: state_before_fsms is_tick_def)
  have d: "desired_state (state ?b) event_kind.Resumed (world ?b) = Some st"
    using st w by (simp add: desired_state_def)
  have t: "turn e event.Resumed s = sync_waybar (snd (on_enter e st Fresh
      ((emit (Transition (state ?b) st (event_label event.Resumed)) ?b)\<lparr>state := st\<rparr>)))"
    using evaluate_moves [OF d] st assms(6)
    by (auto simp: turn_unfold) (auto simp: route_event_def Let_def)
  show "state (turn e event.Resumed s) = st" by (simp add: t state_world_sync_waybar on_enter_fields)
  have "st \<noteq> fsm_state.Suspending" using assms(6) by auto
  then show "request_file (turn e event.Resumed s) = None" by (simp add: t sync_waybar_files enter_files b)
  show "grace_timer (turn e event.Resumed s) = None"
    using assms(6) by (auto simp: t sync_waybar_fields enter_lid_open_no_timer enter_docked_no_timer)
qed

section \<open>Properties\<close>

text \<open>C5: An idle request suspends a machine that nobody keeps awake, once, and a cancel wins up to the
  last moment. After \<open>hyprstate suspend request\<close> the task reports the file to a daemon at rest,
  which counts down from the fixed thirty seconds, lid open or not; the expiry suspends it; the
  resume removes the file and brings it back to where it was, without a timer, so no second suspend
  follows. If \<open>hyprstate suspend cancel\<close> took the file away before the expiry is handled, the
  machine is back to where it was, although the report of it has not arrived.\<close>
theorem idle_request_suspends_once:
  assumes "suspend_run io1 ''request'' fs = (0, out1, fs1)" and "suspend_run io2 ''cancel'' fs1 = (0, out2, fs2)"
    and "map_of (wt_wds st) wd = Some Runtime" "QOverflow \<notin> set bits" "Ignored \<notin> set bits"
    and "\<not> in_suspend prev" "in_suspend cur = (uf_request fs1 \<noteq> None)" "request_file s = uf_request fs1"
    and "state s = world_state (world s)" "state s \<in> {fsm_state.LidOpen, fsm_state.Docked}" "\<not> suspend_requested s"
    and "unclaimed e s" "has_session s" "runtime_dir s" "\<not> shadow s" "\<forall>k. q_io e k"
    and "\<forall>k. q_locked_hint e k = Some True" "\<forall>k. q_compositor_lock e k = Some True" "\<forall>k. q_suspend e k"
    and "t = fold (turn e) (fst (file_step add ts (InotifyEv wd bits (Some SUSPEND_REQUEST_NAME)) platform cur (st, prev))) s"
    and "u = t\<lparr>grace_timer := slept (grace_timer t)\<rparr>"
  shows "state t = fsm_state.Countdown \<and> grace_timer t = Some (Task GRACE_SECONDS False)
     \<and> (let v = turn e event.TimerExpired u; w = turn e event.Resumed v in
          state v = fsm_state.Suspending \<and> state w = state s \<and> request_file w = None \<and> grace_timer w = None)
     \<and> (let w = turn e event.TimerExpired (u\<lparr>request_file := uf_request fs2\<rparr>) in
          state w = state s \<and> grace_timer w = None)"
proof -
  have req: "uf_request fs1 \<noteq> None" and gone: "uf_request fs2 = None"
    using assms(1,2) by (auto simp: suspend_run_def split: option.splits if_splits)
  have t: "t = turn e (SuspendRequestChanged (Some ''idle'')) s"
    using req assms(6,7,20) by (simp add: request_change_reported [OF assms(3-5)])
  note c = request_counts_down [OF assms(10,12), of "''idle''", folded t]
  let ?w = "world (s\<lparr>wayland_inhibitor := False\<rparr>)"
  have rest: "world_state ?w = state s"
    using assms(9-11) by (auto simp: world_def world_state_def inhibitor_def claim_governs_def Let_def split: if_splits)
  have wt: "world_state (world t) = fsm_state.Countdown"
    unfolding c(3) using assms(12) by (simp add: unclaimed_def world_def inhibitor_def world_state_def claim_governs_def)
  have "wi_suspend_requested (world t)" unfolding c(3) by (simp add: world_def)
  then have rq: "suspend_requested t" by (simp add: world_def)
  have unreq: "world (x\<lparr>suspend_requested := False\<rparr>) = ?w" if "world x = world t" for x :: "'a sys"
    using that [unfolded c(3)] assms(11) by (simp add: world_def inhibitor_def)
  have u: "state u = state t" "world u = world t" "suspend_requested u" "has_session u" "shadow u = shadow s"
      "request_file u = uf_request fs1" "runtime_dir u"
    using c(4-7) rq assms(8,13,14) by (simp_all add: assms(21))
  let ?v = "turn e event.TimerExpired u"
  have stands: "\<not> suspend_requested u \<or> suspend_request_standing u"
    using u(6,7) req by (simp add: suspend_request_standing_def)
  have v: "state ?v = fsm_state.Suspending"
    using expiry_completes [of u e] u c(1) wt stands assms(17-19) by simp
  note f = expiry_files [of u e, unfolded u(1,2) c(1) wt, OF refl refl stands]
  have r: "runtime_dir ?v" "\<not> shadow ?v" "world_state (world (?v\<lparr>suspend_requested := False\<rparr>)) = state s"
    using f(2,3) u(5,7) assms(15) rest unreq [of ?v] turn_static [of e event.TimerExpired u] by simp_all
  have resumed: "state (turn e event.Resumed ?v) = state s" "request_file (turn e event.Resumed ?v) = None"
    "grace_timer (turn e event.Resumed ?v) = None"
    by (rule resumed_clears [OF v r(1,2) assms(16) r(3) assms(10)])+
  let ?u = "u\<lparr>request_file := uf_request fs2\<rparr>"
  have "world ?u = world u" by (simp add: world_def inhibitor_def)
  then have x: "state ?u = fsm_state.Countdown" "suspend_requested ?u" "request_file ?u = None"
      "world_state (world (?u\<lparr>suspend_requested := False\<rparr>)) = state s"
    using u(1-3) c(1) gone rest unreq [of ?u] by simp_all
  note cancelled = withdrawn_at_expiry(1,2) [OF x assms(10)]
  show ?thesis using c(1,2) v resumed cancelled by (simp add: Let_def)
qed

definition demo_files :: user_files where
  "demo_files = \<lparr>uf_runtime_dir = Some ''/run/user/1000'', uf_request = None, uf_override = None,
     uf_kbd_level = None, uf_kbd_marker = None\<rparr>"

definition demo_requested :: "unit sys" where
  "demo_requested = demo_open\<lparr>request_file := Some (text_line ''idle'')\<rparr>"

definition demo_inputs :: "bool \<Rightarrow> inputs" where
  "demo_inputs b = \<lparr>in_platform = None, in_gpu = None, in_power = None, in_suspend = b, in_profiles = 0,
     in_kbd_level = None, in_kbd_override = False\<rparr>"

definition demo_watching :: watching where
  "demo_watching = \<lparr>wt_wds = [(1, Runtime)], wt_stream = True, wt_watches = True, wt_platform = False\<rparr>"

theorem idle_request_suspends_once_witness:
  "let t = fold (turn demo_env) (fst (file_step (\<lambda>_. WatchAbsent) [] (InotifyEv 1 [Create] (Some SUSPEND_REQUEST_NAME))
         [None] (demo_inputs True) (demo_watching, demo_inputs False))) demo_requested;
       v = turn demo_env event.TimerExpired (t\<lparr>grace_timer := slept (grace_timer t)\<rparr>)
   in state t = fsm_state.Countdown \<and> state v = fsm_state.Suspending \<and> state (turn demo_env event.Resumed v) = fsm_state.LidOpen"
proof -
  let ?f = "demo_files\<lparr>uf_request := Some (text_line ''idle'')\<rparr>"
  have cli: "suspend_run True ''request'' demo_files = (0, [], ?f)"
    "suspend_run True ''cancel'' ?f = (0, [], ?f\<lparr>uf_request := None\<rparr>)"
    by (simp_all add: suspend_run_def demo_files_def)
  have watch: "map_of (wt_wds demo_watching) 1 = Some Runtime" "QOverflow \<notin> set [Create]" "Ignored \<notin> set [Create]"
    "\<not> in_suspend (demo_inputs False)" "in_suspend (demo_inputs True) = (uf_request ?f \<noteq> None)"
    by (simp_all add: demo_watching_def demo_inputs_def)
  have s: "state demo_requested = fsm_state.LidOpen" "world_state (world demo_requested) = fsm_state.LidOpen"
    "\<not> suspend_requested demo_requested" "has_session demo_requested" "runtime_dir demo_requested"
    "\<not> shadow demo_requested" "unclaimed demo_env demo_requested" "request_file demo_requested = uf_request ?f"
    by (simp_all add: demo_requested_def demo_open_def demo_sys_def default_context_def daemon_ctx.defs world_def
        world_state_def inhibitor_def unclaimed_def demo_env_def)
  have env: "\<forall>k. q_io demo_env k" "\<forall>k. q_locked_hint demo_env k = Some True"
    "\<forall>k. q_compositor_lock demo_env k = Some True" "\<forall>k. q_suspend demo_env k"
    by (simp_all add: demo_env_def)
  have rest: "state demo_requested = world_state (world demo_requested)"
    "state demo_requested \<in> {fsm_state.LidOpen, fsm_state.Docked}" using s(1,2) by simp_all
  show ?thesis
    using idle_request_suspends_once [OF cli watch(1-5) s(8) rest s(3,7,4,5,6) env refl refl] s(1)
    unfolding Let_def by metis
qed

end
