(* ===== verification/BatteryCycle.thy ===== *)
theory BatteryCycle
  imports IdleCycle
begin

text \<open>
  The last story of the dispatcher (\<open>src/daemon/dispatcher.rs\<close>): the battery runs low, the daemon
  asks itself for a suspend, and the charger takes the request back if it comes in time.
\<close>

section \<open>The request file under the policies\<close>

named_theorems request_frame \<open>operations that leave the request file alone\<close>

definition file_view :: "'p sys \<Rightarrow> string option \<times> bool" where
  "file_view s = (request_file s, runtime_dir s)"

lemma file_view_update [simp]:
  "file_view (emit x s) = file_view s" "file_view (s\<lparr>tick := n\<rparr>) = file_view s"
  "file_view (s\<lparr>power_debounce := g\<rparr>) = file_view s" "file_view (s\<lparr>dgpu_pinned := dp\<rparr>) = file_view s"
  "file_view (s\<lparr>power_applied := pa\<rparr>) = file_view s" "file_view (s\<lparr>self_writes := sw\<rparr>) = file_view s"
  "file_view (s\<lparr>powerd_available := b\<rparr>) = file_view s" "file_view (s\<lparr>powerd_warned := b\<rparr>) = file_view s"
  "file_view (s\<lparr>power_override := pa\<rparr>) = file_view s" "file_view (s\<lparr>power_override_base := pb\<rparr>) = file_view s"
  "file_view (s\<lparr>power_last_base := pb\<rparr>) = file_view s" "file_view (s\<lparr>override_file := f\<rparr>) = file_view s"
  "file_view (s\<lparr>brightness_set := bs\<rparr>) = file_view s" "file_view (s\<lparr>brightness_saved := bs\<rparr>) = file_view s"
  "file_view (s\<lparr>gpu_actual := ga\<rparr>) = file_view s" "file_view (s\<lparr>gpu_actual_pending := b\<rparr>) = file_view s"
  "file_view (s\<lparr>gpu_last_notified := f\<rparr>) = file_view s" "file_view (s\<lparr>gpu_last_notify_at := la\<rparr>) = file_view s"
  by (simp_all add: file_view_def)

lemma request_commands [request_frame]:
  "file_view (send_cmd e c s) = file_view s" "file_view (notify_power e n s) = file_view s"
  "file_view (notify_gpu_drift e ds r tg s) = file_view s" "file_view (request_reconcile k s) = file_view s"
  "file_view (schedule_power_settle s) = file_view s"
  by (simp_all add: send_cmd_def notify_power_def notify_gpu_drift_def request_reconcile_def schedule_power_settle_def
      Let_def split_beta split: option.split)

lemma request_power [request_frame]:
  "file_view (apply_power_profile e p s) = file_view s" "file_view (sync_dgpu_pin e b s) = file_view s"
  "file_view (clear_power_override e s) = file_view s"
  by (simp_all add: apply_power_profile_def sync_dgpu_pin_def clear_power_override_def powerd_lost_def
      Let_def split_beta split: option.split)

lemma request_brightness_parts [request_frame]:
  "file_view (snd (brightness_read e s)) = file_view s" "file_view (snd (brightness_user_took_over e s)) = file_view s"
  "file_view (brightness_write e v s) = file_view s"
  by (simp_all add: brightness_read_def brightness_user_took_over_def brightness_write_def Let_def split_beta split: option.split)

lemma request_brightness [request_frame]:
  "file_view (brightness_yield e s) = file_view s" "file_view (brightness_save_and_cap e d s) = file_view s"
  "file_view (brightness_cap e d s) = file_view s" "file_view (brightness_restore e s) = file_view s"
  "file_view (brightness_rearm e s) = file_view s"
  by (simp_all add: brightness_rearm_def brightness_yield_def brightness_save_and_cap_def brightness_cap_def brightness_restore_def
      request_frame Let_def split_beta split: option.split)

lemma request_policies [request_frame]:
  "file_view (check_override e b s) = file_view s" "file_view (brightness_edges e p b s) = file_view s"
  by (simp_all add: check_override_def brightness_edges_def request_frame Let_def split: option.split)

lemma request_power_policy_check [request_frame]: "file_view (power_policy_check e s) = file_view s"
  by (simp add: power_policy_check_def request_frame Let_def)

lemma request_gpu_parts [request_frame]:
  "file_view (resolve_gpu_actual e s) = file_view s" "file_view (notify_if_new e tg ds r s) = file_view s"
  "file_view (snd (resolve_session_gpu_mode e pref s)) = file_view s"
  by (simp_all add: resolve_gpu_actual_def notify_if_new_def resolve_session_gpu_mode_def request_frame
      Let_def split_beta split: option.split)

lemma request_advise_gpu [request_frame]: "file_view (advise_gpu e l s) = file_view s"
  by (simp add: advise_gpu_def chosen_profile_def monitor_signature_def gpu_drift_check_def check_and_notify_drift_def
      request_frame Let_def split_beta split: option.split)

lemma request_before [request_frame]: "file_view (before_fsms e k l s) = file_view s"
  by (simp add: before_fsms_def request_frame Let_def)

lemma file_viewD:
  "file_view t = file_view s \<Longrightarrow> request_file t = request_file s" "file_view t = file_view s \<Longrightarrow> runtime_dir t = runtime_dir s"
  by (simp_all add: file_view_def)

section \<open>A turn that moves the machine\<close>

text \<open>What an event that is neither an expiry, a resume nor a pass does when its handler leaves a world
  that asks for another state: it enters that state.\<close>

lemma turn_enters:
  assumes "fst (route_event e ev s)" "\<not> is_tick ev" "ev \<noteq> event.TimerExpired" "ev \<noteq> event.Resumed"
    and "state s \<noteq> fsm_state.Suspending" "world_state (world (snd (route_event e ev s))) = new" "new \<noteq> state s"
  shows "state (turn e ev s) = new" "world (turn e ev s) = world (snd (route_event e ev s))"
    "on_ac (turn e ev s) = on_ac (snd (route_event e ev s))"
    "request_file (turn e ev s) = request_file (snd (route_event e ev s))"
    "runtime_dir (turn e ev s) = runtime_dir (snd (route_event e ev s))"
    "new = fsm_state.Countdown \<Longrightarrow> suspend_requested (snd (route_event e ev s)) \<Longrightarrow>
       grace_timer (turn e ev s) = Some (Task GRACE_SECONDS False)"
    "new \<in> {fsm_state.LidOpen, fsm_state.Docked} \<Longrightarrow> grace_timer (turn e ev s) = None"
proof -
  let ?r = "snd (route_event e ev s)"
  let ?b = "before_fsms e (event_kind_of ev) (event_label ev) ?r"
  let ?x = "(emit (Transition (state ?b) new (event_label ev)) ?b)\<lparr>state := new\<rparr>"
  have ns: "new \<noteq> fsm_state.Suspending" using assms(6) main_fsm.derive_not_commit by auto
  have st: "state ?b = state s" using state_route [OF assms(2), of e s] by (simp add: state_before_fsms)
  have w: "world ?b = world ?r" by (rule world_before_fsms)
  have k: "event_kind_of ev \<noteq> event_kind.TimerExpired" "event_kind_of ev \<noteq> event_kind.Resumed"
    using assms(3,4) kind_timer_expired kind_resumed by auto
  have d: "desired_state (state ?b) (event_kind_of ev) (world ?b) = Some new"
    using st w k assms(5-7) by (simp add: desired_state_def)
  have t: "turn e ev s = sync_waybar (snd (on_enter e new Fresh ?x))"
    using evaluate_moves [OF d _ ns] assms(1,7) st by (simp add: turn_unfold)
  have x: "world ?x = world ?r" "file_view ?x = file_view ?r"
    using w by (simp_all add: world_def inhibitor_def file_view_def file_viewD [OF request_before])
  show "state (turn e ev s) = new" "world (turn e ev s) = world ?r"
    using x(1) by (simp_all add: t state_world_sync_waybar on_enter_fields)
  show "on_ac (turn e ev s) = on_ac ?r"
    by (simp add: t fsm_viewD(3) [OF fsm_view_sync_waybar] on_enter_fields fsm_viewD(3) [OF fsm_view_before_fsms])
  show "request_file (turn e ev s) = request_file ?r" "runtime_dir (turn e ev s) = runtime_dir ?r"
    using file_viewD [OF x(2)] by (simp_all add: t sync_waybar_files enter_files [OF ns])
  show "grace_timer (turn e ev s) = Some (Task GRACE_SECONDS False)" if "new = fsm_state.Countdown" "suspend_requested ?r"
  proof -
    have "suspend_requested ?x" using x(1) that(2) by (simp add: world_def)
    then show ?thesis using that(1) by (simp add: t sync_waybar_fields enter_countdown_requested)
  qed
  show "grace_timer (turn e ev s) = None" if "new \<in> {fsm_state.LidOpen, fsm_state.Docked}"
    using that by (auto simp: t sync_waybar_fields enter_lid_open_no_timer enter_docked_no_timer)
qed

section \<open>Low battery and the charger\<close>

lemma rests_again:
  assumes "world_state w = st" "st \<in> {fsm_state.LidOpen, fsm_state.Docked}" "\<not> wi_suspend_requested w"
    and "wi_lid_closed w' = wi_lid_closed w" "wi_ext_mon_count w' = wi_ext_mon_count w" "\<not> wi_suspend_requested w'"
  shows "world_state w' = st"
  using assms by (auto simp: world_state_def Let_def split: if_splits)

lemma low_battery_route:
  assumes "\<not> suspend_requested s" "\<not> on_ac s" "\<not> on_ac_settled s" "battery_low_step (low_battery s) pct (battery_low_pct s)"
    and "\<not> shadow s" "runtime_dir s" "\<forall>k. q_io e k"
  shows "fst (route_event e (BatteryPercent pct) s)"
    and "request_file (snd (route_event e (BatteryPercent pct) s)) = Some (''battery-low'' @ [newline])"
    and "runtime_dir (snd (route_event e (BatteryPercent pct) s))"
    and "on_ac (snd (route_event e (BatteryPercent pct) s)) = on_ac s"
    and "suspend_requested (snd (route_event e (BatteryPercent pct) s))"
    and "world (snd (route_event e (BatteryPercent pct) s)) = world (s\<lparr>low_battery := True, suspend_requested := True\<rparr>)"
  using assms
  by (cases "low_battery s"; simp add: route_event_def handle_battery_percent_def battery_low_request_check_def
      battery_low_action_def request_suspend_def request_reconcile_def world_def inhibitor_def Let_def split_beta)+

lemma charger_route:
  assumes "suspend_requested s" "\<not> on_ac s" "\<not> shadow s" "runtime_dir s" "\<forall>k. q_io e k"
    and "request_file s = Some (''battery-low'' @ [newline])"
  shows "fst (route_event e (AcChanged True) s)" and "request_file (snd (route_event e (AcChanged True) s)) = None"
    and "world (snd (route_event e (AcChanged True) s)) = world (s\<lparr>on_ac := True, suspend_requested := False\<rparr>)"
  using assms
  by (simp_all add: route_event_def handle_ac_changed_def battery_low_request_check_def battery_low_action_def
      clear_battery_low_request_def schedule_power_settle_def request_reconcile_def world_def inhibitor_def starts_with_def
      Let_def split_beta split: option.split)

lemma expiry_at_rest:
  assumes "state s \<in> {fsm_state.LidOpen, fsm_state.Docked}" "\<not> suspend_requested s"
  shows "state (turn e event.TimerExpired s) = state s"
  using assms by (auto simp: turn_timer_expired evaluate_fsms_def desired_state_def state_world_sync_waybar)

section \<open>Properties\<close>

text \<open>C6: A battery that runs low off the charger suspends a machine at rest (lid open, docked, or a closed
  lid that a claim keeps awake) on which no request stands, whatever claims are held: the reading
  that makes it low writes the daemon's own request and starts the thirty seconds in the same turn;
  with a session, a live locker and a logind that accepts, their expiry suspends the machine. With the
  lid open or docked, a charger plugged in before takes the file away and brings the machine back to
  where it was, without a timer, and an expiry that was already queued then does nothing.\<close>
theorem low_battery_suspends_unless_charged:
  assumes "state s = world_state (world s)" "state s \<in> {fsm_state.LidOpen, fsm_state.Docked, fsm_state.Deferred}"
    and "\<not> suspend_requested s" "\<not> on_ac s" "\<not> on_ac_settled s" "battery_low_step (low_battery s) pct (battery_low_pct s)"
    and "has_session s" "runtime_dir s" "\<not> shadow s" "\<forall>k. q_io e k"
    and "\<forall>k. q_locked_hint e k = Some True" "\<forall>k. q_compositor_lock e k = Some True" "\<forall>k. q_suspend e k"
    and "t = turn e (BatteryPercent pct) s" and "u = t\<lparr>grace_timer := slept (grace_timer t)\<rparr>"
  shows "state t = fsm_state.Countdown \<and> grace_timer t = Some (Task GRACE_SECONDS False)
     \<and> request_file t = Some (''battery-low'' @ [newline])
     \<and> state (turn e event.TimerExpired u) = fsm_state.Suspending
     \<and> (\<forall>v \<in> {t, u}. state s \<noteq> fsm_state.Deferred \<longrightarrow> (let w = turn e (AcChanged True) v in
          state w = state s \<and> request_file w = None \<and> grace_timer w = None \<and> state (turn e event.TimerExpired w) = state s))"
proof -
  let ?ev = "BatteryPercent pct"
  note r = low_battery_route [OF assms(3-6,9,8,10)]
  have nt: "\<not> is_tick ?ev" "state s \<noteq> fsm_state.Suspending" "fsm_state.Countdown \<noteq> state s" using assms(2) by (auto simp: is_tick_def)
  have cd: "world_state (world (snd (route_event e ?ev s))) = fsm_state.Countdown"
    unfolding r(6) using assms(5) by (simp add: world_def world_state_def claim_governs_def)
  note c = turn_enters [OF r(1) nt(1) _ _ nt(2) cd nt(3), folded assms(14), simplified]
  have sh: "\<not> shadow t" "has_session t" using turn_static [of e ?ev s] assms(7,9) by (simp_all add: assms(14))
  have wt: "world t = world (s\<lparr>low_battery := True, suspend_requested := True\<rparr>)" using c(2) r(6) by simp
  have rq: "wi_suspend_requested (world t)" unfolding wt by (simp add: world_def)
  have wi_requested: "wi_suspend_requested (world x) = suspend_requested x" for x :: "'a sys" by (simp add: world_def)
  have wu: "world u = world t" by (simp only: assms(15) world_grace_timer)
  have st: "suspend_requested t" using rq by (simp add: wi_requested)
  have at: "state t = fsm_state.Countdown" "on_ac t = on_ac s" "request_file t = Some (''battery-low'' @ [newline])" "runtime_dir t"
    using c(1,3-5) r(2-4) by simp_all
  have au: "state u = state t" "on_ac u = on_ac t" "request_file u = request_file t" "runtime_dir u = runtime_dir t"
      "shadow u = shadow t" "has_session u = has_session t"
    by (simp_all add: assms(15))
  have su: "suspend_requested u" using wi_requested [of u] wi_requested [of t] wu st by simp
  have v: "state v = fsm_state.Countdown" "world v = world t" "on_ac v = on_ac s"
      "request_file v = Some (''battery-low'' @ [newline])" "runtime_dir v" "\<not> shadow v" "has_session v" "suspend_requested v"
    if "v = t \<or> v = u" for v
    using that at au sh st su wu by metis+
  have "suspend_request_standing u" using v(4,5) [of u] by (simp add: suspend_request_standing_def)
  then have expires: "state (turn e event.TimerExpired u) = fsm_state.Suspending"
    using expiry_completes [of u e] v [of u] cd c(2) assms(11-13) by simp
  have charged: "let w = turn e (AcChanged True) v in
      state w = state s \<and> request_file w = None \<and> grace_timer w = None \<and> state (turn e event.TimerExpired w) = state s"
    if vv: "v = t \<or> v = u" and nd: "state s \<noteq> fsm_state.Deferred" for v
  proof -
    have rest: "state s \<in> {fsm_state.LidOpen, fsm_state.Docked}" using assms(2) nd by simp
    let ?ac = "AcChanged True"
    have off: "\<not> on_ac v" using v(3) [OF vv] assms(4) by simp
    note q = charger_route [OF v(8) [OF vv] off v(6) [OF vv] v(5) [OF vv] assms(10) v(4) [OF vv]]
    let ?w = "world (v\<lparr>on_ac := True, suspend_requested := False\<rparr>)"
    have lid: "wi_lid_closed ?w = wi_lid_closed (world v)" "wi_ext_mon_count ?w = wi_ext_mon_count (world v)"
        "\<not> wi_suspend_requested ?w"
      by (simp_all add: world_def)
    have "world_state ?w = state s"
      using rests_again [OF assms(1) [symmetric] rest, of ?w] lid v(2) [OF vv] wt assms(3) by (simp add: world_def)
    then have st: "world_state (world (snd (route_event e ?ac v))) = state s" using q(3) by simp
    have n: "\<not> is_tick ?ac" "state v \<noteq> fsm_state.Suspending" "state s \<noteq> state v"
      using v(1) [OF vv] nt(3) by (auto simp: is_tick_def)
    note w = turn_enters [OF q(1) n(1) _ _ n(2) st n(3), simplified]
    have "\<not> wi_suspend_requested (world (turn e ?ac v))" using w(2) q(3) lid(3) by simp
    then have "\<not> suspend_requested (turn e ?ac v)" by (simp add: world_def)
    then show ?thesis using w(1,4,7) q(2) rest expiry_at_rest [of "turn e ?ac v" e] by (simp add: Let_def)
  qed
  have g: "grace_timer t = Some (Task GRACE_SECONDS False)" using c(6) r(5) by simp
  show ?thesis by (intro conjI ballI impI at g expires charged) simp_all
qed

theorem low_battery_suspends_unless_charged_witness:
  "let s = demo_open\<lparr>on_ac := False, on_ac_settled := False, battery_low_pct := 5, logind_inhibitor := True\<rparr>;
       t = turn demo_env (BatteryPercent (f64_of_nat 3)) s; u = t\<lparr>grace_timer := slept (grace_timer t)\<rparr>
   in state t = fsm_state.Countdown \<and> state (turn demo_env event.TimerExpired u) = fsm_state.Suspending
     \<and> state (turn demo_env event.TimerExpired (turn demo_env (AcChanged True) u)) = fsm_state.LidOpen"
proof -
  let ?s = "demo_open\<lparr>on_ac := False, on_ac_settled := False, battery_low_pct := 5, logind_inhibitor := True\<rparr>"
  have s: "state ?s = fsm_state.LidOpen" "world_state (world ?s) = fsm_state.LidOpen" "\<not> suspend_requested ?s" "\<not> on_ac ?s"
    "\<not> on_ac_settled ?s" "battery_low_step (low_battery ?s) (f64_of_nat 3) (battery_low_pct ?s)" "has_session ?s"
    "runtime_dir ?s" "\<not> shadow ?s"
    by (simp_all add: demo_open_def demo_sys_def default_context_def daemon_ctx.defs world_def world_state_def inhibitor_def
        battery_low_step_def f64_of_nat_def)
  have env: "\<forall>k. q_io demo_env k" "\<forall>k. q_locked_hint demo_env k = Some True"
    "\<forall>k. q_compositor_lock demo_env k = Some True" "\<forall>k. q_suspend demo_env k"
    by (simp_all add: demo_env_def)
  have rest: "state ?s = world_state (world ?s)" "state ?s \<in> {fsm_state.LidOpen, fsm_state.Docked, fsm_state.Deferred}" using s(1,2) by simp_all
  show ?thesis
    using low_battery_suspends_unless_charged [OF rest s(3-9) env refl refl] s(1)
    unfolding Let_def by (metis insertCI fsm_state.distinct(3))
qed

end
