(* ===== verification/PowerCycle.thy ===== *)
theory PowerCycle
  imports Machine Cli FileState Powerd
begin

text \<open>
  A power profile from the command line to the hardware: \<open>hyprstate power set\<close>
  (\<open>src/cli/power.rs\<close>) writes the override, the state-file task reports it, the dispatcher adopts
  it and calls powerd (\<open>src/daemon/power_policy.rs\<close>), and powerd applies it.
\<close>

section \<open>From the file to the event\<close>

lemma override_change_reported:
  assumes "map_of (wt_wds st) wd = Some HyprConfig" "QOverflow \<notin> set bits" "Ignored \<notin> set bits"
  shows "fst (file_step add ts (InotifyEv wd bits (Some POWER_OVERRIDE_NAME)) platform cur (st, prev)) =
     (if in_power cur = in_power prev then [] else [PowerOverrideChanged (in_power cur)])"
  using assms
  by (simp add: file_step_def wake_def inotify_event_def route_def file_pass_def check_none_def report_def Let_def
      POWER_OVERRIDE_NAME_def GPU_OVERRIDE_NAME_def)

section \<open>The main machine does not touch the power policy\<close>

lemma power_view_updates [simp]:
  "power_view (s\<lparr>state := st\<rparr>) = power_view s" "power_view (s\<lparr>grace_timer := g\<rparr>) = power_view s"
  "power_view (s\<lparr>claim_watch := g\<rparr>) = power_view s" "power_view (s\<lparr>tick := n\<rparr>) = power_view s"
  "power_view (s\<lparr>waybar_seen := wv\<rparr>) = power_view s" "power_view (emit x s) = power_view s"
  by (simp_all add: power_view_def)

lemma power_view_effectors:
  "power_view (send_cmd e c s) = power_view s" "power_view (cancel_grace_timer s) = power_view s"
  "power_view (cancel_claim_watch s) = power_view s" "power_view (start_claim_watch s) = power_view s"
  "power_view (start_grace_timer fresh s) = power_view s" "power_view (snd (live_locker e s)) = power_view s"
  "power_view (request_lock e s) = power_view s" "power_view (snd (wait_for_lock e s)) = power_view s"
  "power_view (snd (do_suspend e s)) = power_view s" "power_view (sync_waybar s) = power_view s"
  by (simp_all add: send_cmd_def cancel_grace_timer_def cancel_claim_watch_def start_claim_watch_def
      start_grace_timer_def live_locker_def request_lock_def wait_for_lock_def do_suspend_def sync_waybar_def
      Let_def split_beta split: option.split)

lemma power_view_on_enter: "power_view (snd (on_enter e st en s)) = power_view s"
  by (cases st)
    (simp_all add: on_enter_def set_edp_def pause_media_def suspending_tail_def power_view_effectors
      Let_def split_beta split: edp_policy.split)

lemma power_view_evaluate: "power_view (evaluate_fsms e k l s) = power_view s"
  by (simp add: evaluate_fsms_def Let_def split_beta power_view_on_enter power_view_effectors split: option.split)

section \<open>Adoption\<close>

lemma turn_override:
  "turn e (PowerOverrideChanged w) s = sync_waybar (evaluate_fsms e event_kind.PowerOverrideChanged
     (event_label (PowerOverrideChanged w)) (power_policy_check e (ingest_override w s)))"
  by (simp add: turn_unfold route_event_def before_fsms_def gpu_gate_def power_gate_def Let_def)

lemma turn_override_power:
  "power_view (turn e (PowerOverrideChanged w) s) = power_view (power_policy_check e (ingest_override w s))"
  by (simp add: turn_override power_view_effectors power_view_evaluate)

lemma base_of_ingest: "base_of (ingest_override w s) = base_of s"
  by (simp add: base_of_def ingest_override_def split: option.split)

text \<open>The trace after a policy check starts with the call to powerd, when there is one to make.\<close>

lemma apply_answered:
  assumes "powerd_available s" "\<not> shadow s" "\<forall>k. q_powerd e k"
  shows "power_applied (apply_power_profile e p s) = Some p"
    and "power_applied s \<noteq> Some p \<Longrightarrow> log (apply_power_profile e p s) = log s @ [PowerdApply p True]"
  using assms by (simp_all add: apply_power_profile_def Let_def split_beta)

lemma check_stamped_log:
  assumes "power_override s = None \<or> power_override_base s = None"
  shows "log (check_override e b s) = log s" "powerd_available (check_override e b s) = powerd_available s"
    "shadow (check_override e b s) = shadow s" "power_applied (check_override e b s) = power_applied s"
    "power_override (check_override e b s) = power_override s"
  using assms by (auto simp: check_override_def split: option.split)

lemma policy_check_answered:
  assumes "powerd_available s" "\<not> shadow s" "\<forall>k. q_powerd e k"
    and "power_override s = None \<or> power_override_base s = None"
  shows "power_applied (power_policy_check e s) = Some (desired_profile (base_of s) s)"
    and "power_applied s \<noteq> Some (desired_profile (base_of s) s) \<Longrightarrow>
      \<exists>es. log (power_policy_check e s) = log s @ PowerdApply (desired_profile (base_of s) s) True # es"
proof -
  let ?p = "desired_profile (base_of s) s"
  let ?c = "check_override e (base_of s) s"
  note c = check_stamped_log [OF assms(4), of e "base_of s"]
  have d: "desired_profile (base_of s) ?c = ?p"
    unfolding desired_profile_def c(5) check_override_power(1) ..
  let ?a = "apply_power_profile e ?p ?c"
  let ?b = "?a\<lparr>power_last_base := Some (base_of s)\<rparr>"
  have t: "power_policy_check e s = brightness_edges e (power_last_base ?a) (base_of s) ?b"
    by (simp add: power_policy_check_def Let_def d)
  have a: "power_applied ?a = Some ?p"
      "power_applied ?c \<noteq> Some ?p \<Longrightarrow> log ?a = log ?c @ [PowerdApply ?p True]"
    using apply_answered [of ?c e ?p] assms(1-3) c by simp_all
  then show "power_applied (power_policy_check e s) = Some ?p"
    by (simp add: t power_viewD(3) [OF power_view_brightness_edges])
  obtain es where "log (brightness_edges e (power_last_base ?a) (base_of s) ?b) = log ?b @ es"
    using log_extended [OF law_brightness_edges [OF law.extends_refl]] by blast
  then show "\<exists>es. log (power_policy_check e s) = log s @ PowerdApply ?p True # es"
    if "power_applied s \<noteq> Some ?p" using that a(2) c(1,4) by (simp add: t)
qed

lemma override_turn_log: "\<exists>es. log (turn e (PowerOverrideChanged w) s) = log (power_policy_check e (ingest_override w s)) @ es"
  unfolding turn_override by (rule log_extended, intro law_intros law.extends_refl)

text \<open>One call on an idle powerd.\<close>

lemma idle_powerd_applies:
  assumes "pd_holder d = None" "pd_waiting d = []"
  shows "pd_waiting (call_apply i (power_profile_as_str p) d) = [(i, p)]"
    and "pd_active (acquire b i p ((call_apply i (power_profile_as_str p) d)\<lparr>pd_waiting := []\<rparr>)) = p"
    and "pd_on_hardware (acquire b i p ((call_apply i (power_profile_as_str p) d)\<lparr>pd_waiting := []\<rparr>)) = Some p"
  using assms acquire_latest [of "(call_apply i (power_profile_as_str p) d)\<lparr>pd_waiting := []\<rparr>" p b i]
  by (simp_all add: call_apply_def profile_word.from_as_str)

section \<open>Properties\<close>

text \<open>C15: \<open>hyprstate power set\<close> reaches the hardware: when the command succeeded with a profile the
  daemon does not hold as its override yet, the word in the file differs from the one the state-file
  task read last, and powerd is there and takes every call, then the task reports exactly the new word;
  the daemon, outside shadow mode, takes it as its override, stamped with the base state of now, records it as
  applied and, unless it was applied already, calls powerd with it as the first thing it does; powerd,
  when idle, makes it the active profile on the hardware and reports the same word back.
  \<open>power set auto\<close> gives the profile the policy holds for the base state instead, by the same way.\<close>
theorem power_set_reaches_hardware:
  assumes "power_run True pol reply ''set'' (Some v) fs = (0, out, fs1)"
    and "map_of (wt_wds st) wd = Some HyprConfig" "QOverflow \<notin> set bits" "Ignored \<notin> set bits"
    and "in_power cur = Option.bind (uf_override fs1) first_word" "in_power prev \<noteq> in_power cur"
    and "powerd_available s" "\<not> shadow s" "\<forall>k. q_powerd e k"
    and "power_override s \<noteq> power_profile_from_str v" "pd_holder d = None" "pd_waiting d = []"
    and "evs = fst (file_step add ts (InotifyEv wd bits (Some POWER_OVERRIDE_NAME)) platform cur (st, prev))"
    and "t = fold (turn e) evs s"
    and "p = or_default (for_base (power_policy s) (base_of s)) (power_profile_from_str v)"
  shows "evs = [PowerOverrideChanged (if v = ''auto'' then None else Some v)]
     \<and> power_override t = power_profile_from_str v \<and> power_applied t = Some p
     \<and> (v \<noteq> ''auto'' \<longrightarrow> power_override_base t = Some (base_of s) \<and> power_profile_as_str p = v)
     \<and> (power_applied s \<noteq> Some p \<longrightarrow> (\<exists>es. log t = log s @ PowerdApply p True # es))
     \<and> (let d1 = call_apply i (power_profile_as_str p) d; d2 = acquire written i p (d1\<lparr>pd_waiting := []\<rparr>)
        in pd_waiting d1 = [(i, p)] \<and> pd_on_hardware d2 = Some p \<and> get_profile d2 = power_profile_as_str p)"
proof -
  let ?w = "if v = ''auto'' then None else Some v"
  let ?i = "ingest_override ?w s"
  have noauto: "power_profile_from_str ''auto'' = None" by (simp add: power_profile_from_str_def)
  have v: "v = ''auto'' \<or> (\<exists>q. power_profile_from_str v = Some q)"
    using assms(1) by (auto simp: power_run_def power_set_def split: if_splits)
  have word1: "Option.bind (uf_override fs1) first_word = ?w"
    using assms(1) v profile_word.from_str_iff profile_word.stored_word
    by (auto simp: power_run_def power_set_def text_line_def noauto split: if_splits)
  have evs: "evs = [PowerOverrideChanged ?w]"
    using assms(6) by (simp add: assms(13) override_change_reported [OF assms(2-4)] assms(5) word1)
  then have t: "t = turn e (PowerOverrideChanged ?w) s" by (simp add: assms(14))
  have i: "power_override ?i = power_profile_from_str v" "power_override_base ?i = None" "power_policy ?i = power_policy s"
      "powerd_available ?i" "\<not> shadow ?i" "power_applied ?i = power_applied s" "log ?i = log s"
    using v assms(7,8,10) noauto by (auto simp: ingest_override_def split: option.splits)
  have dp: "desired_profile (base_of ?i) ?i = p"
    unfolding base_of_ingest desired_profile_def i(1,3) assms(15) or_default_def ..
  note c = policy_check_answered [of ?i e, unfolded dp, OF i(4,5) assms(9) disjI2 [OF i(2)]]
  note pv = power_viewD [OF turn_override_power [of e ?w s], folded t]
  have o: "power_override t = power_profile_from_str v"
    unfolding pv policy_check_override check_override_cases i by (simp split: option.split)
  have ob: "power_override_base t = Some (base_of s)" if "v \<noteq> ''auto''"
    using v that unfolding pv policy_check_override check_override_cases i base_of_ingest by auto
  have word: "v \<noteq> ''auto'' \<Longrightarrow> power_profile_as_str p = v"
    using v profile_word.as_from_str by (auto simp: assms(15) or_default_def)
  have calls: "\<exists>es. log t = log s @ PowerdApply p True # es" if "power_applied s \<noteq> Some p"
    using that c(2) i(6,7) override_turn_log [of e ?w s] unfolding t by auto
  show ?thesis
    using evs o ob c(1) pv(3) word calls idle_powerd_applies(1) [OF assms(11,12), of i p]
      idle_powerd_applies(2,3) [OF assms(11,12), where i = i and p = p and b = written]
    by (simp add: Let_def get_profile_def)
qed

definition demo_override :: inputs where
  "demo_override = \<lparr>in_platform = None, in_gpu = None, in_power = Some ''performance'', in_suspend = False,
     in_profiles = 0, in_kbd_level = None, in_kbd_override = False\<rparr>"

theorem power_set_reaches_hardware_witness:
  "power_applied (turn demo_env (PowerOverrideChanged (Some ''performance'')) (demo_sys False)) = Some Performance
   \<and> pd_on_hardware (acquire True 7 Performance ((call_apply 7 ''performance'' (powerd_start demo_machine))\<lparr>pd_waiting := []\<rparr>)) = Some Performance"
proof -
  let ?fs = "\<lparr>uf_runtime_dir = None, uf_request = None, uf_override = None, uf_kbd_level = None, uf_kbd_marker = None\<rparr>"
  let ?st = "\<lparr>wt_wds = [(1, HyprConfig)], wt_stream = True, wt_watches = True, wt_platform = False\<rparr>"
  have p: "power_profile_from_str ''performance'' = Some Performance" "power_profile_as_str Performance = ''performance''"
    "first_word (text_line ''performance'') = Some ''performance''"
    using profile_word.stored_word [of Performance] by (simp_all add: power_profile_from_str_def text_line_def)
  obtain out where cli: "power_run True default_power_policy (Inl []) ''set'' (Some ''performance'') ?fs
      = (0, out, ?fs\<lparr>uf_override := Some (text_line ''performance'')\<rparr>)"
    by (simp add: power_run_def power_set_def p)
  have s: "powerd_available (demo_sys False)" "\<not> shadow (demo_sys False)" "\<forall>k. q_powerd demo_env k"
    "power_override (demo_sys False) \<noteq> power_profile_from_str ''performance''"
    "power_override (demo_sys False) = None"
    by (simp_all add: demo_sys_def default_context_def daemon_ctx.defs demo_env_def p)
  have d: "pd_holder (powerd_start demo_machine) = None" "pd_waiting (powerd_start demo_machine) = []"
    by (simp_all add: powerd_start_def)
  have r: "in_power demo_override = Option.bind (uf_override (?fs\<lparr>uf_override := Some (text_line ''performance'')\<rparr>)) first_word"
    "in_power (demo_override\<lparr>in_power := None\<rparr>) \<noteq> in_power demo_override"
    by (simp_all add: demo_override_def p)
  note w = power_set_reaches_hardware [OF cli, of ?st 1 "[CloseWrite]" demo_override "demo_override\<lparr>in_power := None\<rparr>"
      "demo_sys False" demo_env "powerd_start demo_machine", OF _ _ _ r s(1-4) d refl refl refl, of "\<lambda>_. WatchAbsent" "[]" "[None]" 7 True]
  show ?thesis
    using w
    by (simp add: Let_def p or_default_def override_change_reported demo_override_def)
qed

end
