(* ===== verification/Spec2Isabelle.thy ===== *)
theory Spec2Isabelle
  imports Machine Knobs Powerd Profiles Worker Sources FileState ProfileStore SleepHook Cli
    Boot Telemetry WaylandIdle ProfileCli
    SourceTasks StatusCli LidCycle Repair Entry Paths HyprJson FileTask Spans Fingerprint
    IdleCycle BatteryCycle PowerCycle ProfileCycle
begin

text \<open>
  hyprstate is the session state machine of a Hyprland laptop: one user daemon that owns the lid,
  the internal panel, monitor profiles, locking, suspending, the power profile and the keyboard
  backlight; a root daemon (powerd) that writes the sysfs knobs of a power profile; a sleep hook;
  and a command line that talks to both through files. This library models the Rust code under
  \<open>src/\<close> and \<open>crates/hyprstate-fsm/src/\<close> and proves what makes it correct.

  \<^bold>\<open>How the parts interact.\<close> Event sources put events into one queue. The dispatcher takes one
  event per turn: a handler updates the context, then the pure machine recomputes the state from
  the context (\<open>world_state\<close>) and the effectors of the state entered run. Effectors that touch the
  compositor go as commands to one worker, in order. A reconciler re-reads the world after events
  that can have moved it and on a slow tick; the dispatcher repairs what drifted.

  \<^bold>\<open>Theories and the code they model.\<close>
  \<^item> \<open>Prelude\<close>: Rust strings (a list of characters, one per code point up to U+00FF; the one longer
    character the code prints is kept by its bytes), integer parsing and printing, \<open>f64\<close>
    comparison, durations in nanoseconds, and the locale \<open>word_codec\<close> of the stored words.
  \<^item> The pure crate. \<open>Fsm\<close>: \<open>fsm.rs\<close>; \<open>KbdRules\<close>: \<open>kbd.rs\<close>; \<open>PowerRules\<close> and \<open>PowerConf\<close>:
    \<open>power.rs\<close>; \<open>Gpu\<close>: \<open>gpu.rs\<close>; \<open>Profiles\<close>: \<open>profiles.rs\<close> (the legacy parser, the capture of a
    live layout, its Lua render, the Hyprland calls with their Lua string literals).
  \<^item> Readers. \<open>Sysfs\<close>: \<open>sysio/sysfs.rs\<close>, \<open>sysio/kbd.rs\<close> and the discovery functions of
    \<open>daemon/mod.rs\<close> over a file system given as three maps.
  \<^item> The daemon. \<open>Events\<close>: \<open>event.rs\<close>. \<open>Ctx\<close>: \<open>ctx.rs\<close> as the record \<open>daemon_ctx\<close>, extended by the
    files the daemon owns, a clock that counts the questions asked so far, and the trace of what
    left the process (\<open>sys\<close>). \<open>Effectors\<close>: \<open>effectors.rs\<close> with the queries of \<open>hyprctl.rs\<close>.
    \<open>PowerPolicy\<close>, \<open>KbdPolicy\<close>, \<open>GpuDrift\<close>: the modules of those names. \<open>Dispatcher\<close>:
    \<open>dispatcher.rs\<close>, one definition per handler, composed in \<open>dispatch\<close> and \<open>turn\<close> in the code's
    order, and \<open>start\<close> for what \<open>run\<close> does before its loop. \<open>Machine\<close>: the dispatcher with its queue
    and its sleeping tasks, as the step relation \<open>run\<close>. \<open>LidCycle\<close>: the turns of one closing of the
    lid, from the lid event to the suspend or to the opening that cancels it; \<open>IdleCycle\<close>: an idle suspend
    from \<open>hyprstate suspend request\<close> through the state-file task and the countdown to the resume that
    clears it; \<open>BatteryCycle\<close>: the request the daemon makes itself on a low battery, and the charger that
    takes it back; \<open>PowerCycle\<close>: \<open>hyprstate power set\<close> through task, dispatcher and powerd to the
    hardware; \<open>ProfileCycle\<close>: a monitor profile from its selection through every event it causes. \<open>Repair\<close>: one reconcile
    pass from what was read to the turn that adopts it. \<open>Telemetry\<close> and \<open>Spans\<close>: what the daemon reports of
    itself, the frames of \<open>telemetry.rs\<close> and the records and occupancy spans of \<open>run\<close>. \<open>Boot\<close>: the startup.
  \<^item> Around it. \<open>Worker\<close>: \<open>effector_worker\<close>. \<open>Sources\<close>: \<open>daemon/sources/\<close> (socket2 lines, logind
    and UPower signals, uevents, inhibitor and claim watchers, the reconciler); \<open>SourceTasks\<close>: the
    tasks around them, with their subscriptions, the queue that may be gone and the reconcile loop. \<open>FileState\<close>:
    \<open>sources/files.rs\<close>, with its start, its reading loops (\<open>FileTask\<close>) and the fingerprint of the profile
    directories (\<open>Fingerprint\<close>). \<open>Paths\<close>: \<open>paths.rs\<close>, the paths the environment decides. \<open>HyprJson\<close>: what
    \<open>sysio/hyprctl.rs\<close> and \<open>sysio/profiles.rs\<close> take from a JSON reply. \<open>WaylandIdle\<close>: \<open>sources/wayland_idle.rs\<close>. \<open>Knobs\<close> and \<open>Powerd\<close>: \<open>powerd/\<close>, the knob matrix (a machine
    records the files opened, reads included, as opening a knob can wake its device) and the D-Bus object under
    concurrent calls. \<open>ProfileStore\<close> and \<open>ProfileCli\<close>: \<open>sysio/profiles.rs\<close> and \<open>cli/profile.rs\<close>. \<open>SleepHook\<close>:
    \<open>sleep_hook.rs\<close>. \<open>Cli\<close>: \<open>cli/suspend.rs\<close>, \<open>power.rs\<close>, \<open>kbd.rs\<close>, \<open>gpu.rs\<close>, \<open>sysio/gpu_state.rs\<close>;
    \<open>StatusCli\<close>: \<open>gpu status\<close>, \<open>cli/status.rs\<close>, \<open>sysio/procs.rs\<close>. \<open>Entry\<close>: \<open>main.rs\<close>, from a parsed command
    line to its exit code over one session of files.

  \<^bold>\<open>What is outside.\<close> Everything the code asks of the rest of the system is answered by the record
  \<open>env\<close>: hyprctl, logind, UPower, powerd, the file system. Each answer depends on a question number
  that only grows, so the world may change between any two questions and no theorem assumes that
  it stands still unless a hypothesis says so. What the code does to the world is an entry of
  \<open>log\<close>, in order, with the outcome where the code learns one (\<open>CallSuspend accepted\<close>,
  \<open>LiveLocker found\<close>, a refused worker command as \<open>Dropped\<close>). Two entries are there for what is
  done on the way to something else, in shadow mode too: \<open>RenderProfiles\<close> (loading the profiles
  writes their Lua renders) and \<open>BindTelemetry\<close> (the start removes the telemetry socket and binds
  it anew). External packages (the profile crate, serde, zbus) are parameters.

  \<^bold>\<open>What the lemmas show.\<close> \<open>Ctx\<close> states a contract on the trace (\<open>lawful\<close>: a suspend directly after
  a successful lock proof, in shadow mode nothing outward but those two entries, no panel-off command without an
  external monitor); the locale \<open>trace_law\<close> turns it into a preorder on states, and
  \<open>EffectorLaws\<close> and \<open>DispatcherLaws\<close> carry it through every effector and handler. \<open>Timers\<close> does
  the same for the grace timer. \<open>Machine\<close> lifts both to runs and adds that the state follows the
  world. The locale \<open>gated_moore\<close> of \<open>Fsm\<close> gives the shape of the pure machine that the
  daemon relies on; the other locales are the hysteresis of \<open>PowerRules\<close>, the idempotent writer of
  \<open>Knobs\<close>, the sources that report edges (\<open>SourceTasks\<close>) and the word codecs. The properties below are about the daemon; those of the other parts
  stand at the end of their theories.

  \<^bold>\<open>Termination and fuel.\<close> Every loop is structural recursion over the data read (lines, entries,
  rows, polls) or ends by a measure; the rebind attempts of the sleep hook are counted down, as in
  the code, and the two-second wait for a locker is one answer. No definition needs fuel. The two loops of \<open>FileTask\<close>
  that end only if the kernel lets them are partial functions into \<open>option\<close>, and
  \<open>platform_loop_terminates\<close> says when the first returns. Endless loops of the code (the dispatcher, the
  watchers) are step relations or functions of a finite prefix of their inputs.

  \<^bold>\<open>Not modelled.\<close> The argument parser (the clap crate; \<open>admitted\<close> holds its word lists) and the
  logging setup, the D-Bus proxy declarations (\<open>dbus/\<close>), opening sockets and resolving the session proxy, the Wayland wire
  protocol, the JSON encoding of telemetry and what the programs run by \<open>status\<close> print: they are
  input and output, and what they hand to the modelled code are the events and answers
  over which the theorems quantify.
\<close>
section \<open>Suspend\<close>

text \<open>No run of the daemon calls logind's Suspend except directly after a lock proof that
  succeeded: whatever events arrive in whatever order and whatever other processes do to the
  files, the entry before a \<open>CallSuspend\<close> in the trace is \<open>LiveLocker True\<close>.\<close>
lemma run_suspends_locked:
  assumes "run e s0 s q" and "log s0 = []"
    and "i < length (log s)" and "log s ! i = CallSuspend accepted"
  shows "0 < i \<and> log s ! (i - 1) = LiveLocker True"
  using suspends_proved_nth [OF run_suspends_proved [OF assms(1,2)] assms(3)] assms(4) by simp

lemma trace_has_suspend:
  assumes "log t = l @ xs @ [LiveLocker True, CallSuspend True] @ ys"
  shows "length l + length xs + 1 < length (log t) \<and> log t ! (length l + length xs + 1) = CallSuspend True"
  using assms by (simp add: nth_append)

lemma run_suspends_locked_witness:
  "\<exists>s i. run demo_env (demo_sys False) s [] \<and> i < length (log s) \<and> log s ! i = CallSuspend True
     \<and> 0 < i \<and> log s ! (i - 1) = LiveLocker True"
proof -
  let ?s = "turn demo_env event.TimerExpired (demo_fired False)"
  from turn_enters_suspending [OF _ demo_suspends [of False]] obtain xs ys
    where "log ?s = log (demo_fired False) @ xs @ [LiveLocker True, CallSuspend True] @ ys"
    by (auto simp: demo_fired_fields)
  from trace_has_suspend [OF this] obtain i where i: "i < length (log ?s)" "log ?s ! i = CallSuspend True"
    by blast
  then show ?thesis
    using run_suspends_locked [OF demo_run_suspended [of False] demo_sys_fields(1) i]
      demo_run_suspended [of False] by blast
qed

text \<open>C2: Outside shadow mode a turn enters Suspending only from Countdown, on the timer's expiry, with
  the world as it is at that moment still asking for Countdown (a stale expiry never suspends), and
  only after, in this turn, a lock proof succeeded and logind accepted the suspend call made directly
  after it.\<close>
theorem suspending_entered:
  assumes "state s \<noteq> fsm_state.Suspending" and "state (turn e ev s) = fsm_state.Suspending"
    and "\<not> shadow s"
  shows "ev = event.TimerExpired \<and> state s = fsm_state.Countdown
     \<and> world_state (world (turn e ev s)) = fsm_state.Countdown
     \<and> (\<exists>xs ys. log (turn e ev s) = log s @ xs @ [LiveLocker True, CallSuspend True] @ ys)"
  using turn_enters_suspending [OF assms] .

theorem suspending_entered_witness:
  "world_state (world (turn demo_env event.TimerExpired (demo_fired False))) = fsm_state.Countdown
   \<and> (\<exists>xs ys. log (turn demo_env event.TimerExpired (demo_fired False))
        = log (demo_fired False) @ xs @ [LiveLocker True, CallSuspend True] @ ys)"
  using suspending_entered [OF _ demo_suspends [of False]] by (simp add: demo_fired_fields)

text \<open>C3: The countdown is never lost: in every run, the daemon in Countdown has a grace timer that
  is still running or an expiry in its queue, and in every other state it has no grace timer.\<close>
theorem countdown_always_armed:
  assumes "run e s0 s q"
  shows "(state s = fsm_state.Countdown \<longrightarrow> running (grace_timer s) \<or> event.TimerExpired \<in> set q)
     \<and> (state s \<noteq> fsm_state.Countdown \<longrightarrow> grace_timer s = None)"
  using run_armed [OF assms] by (auto simp: armed_inv_def split: if_splits)

theorem countdown_always_armed_witness:
  "\<not> running (grace_timer (demo_fired False)) \<and> event.TimerExpired \<in> set [event.TimerExpired]
   \<and> (running (grace_timer (demo_fired False)) \<or> event.TimerExpired \<in> set [event.TimerExpired])
   \<and> grace_timer (turn demo_env event.TimerExpired (demo_fired False)) = None"
  using countdown_always_armed [OF demo_run_fired [of False]]
    countdown_always_armed [OF demo_run_suspended [of False]] demo_suspends [of False]
  by (auto simp: demo_fired_def Let_def slept_def running_def split: option.splits)

text \<open>An expired grace period does suspend: in Countdown, with the world still asking for it,
  the request (if there is one) still on disk, a session, a locker that is live and a logind that
  accepts, the turn that takes the expiry ends in Suspending.\<close>
lemma expiry_suspends:
  assumes "state s = fsm_state.Countdown" "world_state (world s) = fsm_state.Countdown"
    and "\<not> suspend_requested s \<or> suspend_request_standing s"
    and "has_session s" "\<And>k. q_locked_hint e k = Some True" "\<And>k. q_compositor_lock e k = Some True"
    and "\<And>k. q_suspend e k"
  shows "state (turn e event.TimerExpired s) = fsm_state.Suspending"
  using expiry_completes [OF assms] .

lemma expiry_suspends_witness:
  "state (turn demo_env event.TimerExpired (demo_fired True)) = fsm_state.Suspending"
  by (rule expiry_suspends) (simp_all add: demo_fired_fields demo_env_answers)





text \<open>Suspending is left on Resumed and on nothing else; the resume re-derives the state from
  the world as it is then, and has dropped the request the suspend was made for, so that one
  request never suspends twice.\<close>
lemma suspending_left_by_resume:
  assumes "state s = fsm_state.Suspending"
  shows "(ev \<noteq> event.Resumed \<longrightarrow> state (turn e ev s) = fsm_state.Suspending)
     \<and> state (turn e event.Resumed s) = world_state (world (turn e event.Resumed s))
     \<and> \<not> suspend_requested (turn e event.Resumed s)"
  using turn_suspending [OF assms] resumed_rederives [OF assms] resumed_request by blast

lemma suspending_left_by_resume_witness:
  "state (turn demo_env (Lid False) (turn demo_env event.TimerExpired (demo_fired False)))
     = fsm_state.Suspending
   \<and> \<not> suspend_requested (turn demo_env event.Resumed
         (turn demo_env event.TimerExpired (demo_fired False)))"
  using suspending_left_by_resume [OF demo_suspends [of False], of "Lid False" demo_env] by simp

section \<open>Following the world\<close>

text \<open>C9: Outside Suspending the state is at every moment the one the world derives: a turn keeps
  it so for every event, but for an expiry that finds the request file gone outside Countdown, a
  resume that was not the daemon's own, and a reconcile pass that changes the AC state.\<close>
theorem state_follows_world:
  assumes "state s = fsm_state.Suspending \<or> state s = world_state (world s)"
    and "ev = event.TimerExpired \<Longrightarrow> state s = fsm_state.Countdown \<or> \<not> suspend_requested s
           \<or> suspend_request_standing s"
    and "ev = event.Resumed \<Longrightarrow> state s = fsm_state.Suspending"
    and "\<And>snap. ev = ReconcileTick snap \<Longrightarrow> rs_on_ac snap = None \<or> rs_on_ac snap = Some (on_ac s)"
  shows "state (turn e ev s) = fsm_state.Suspending
     \<or> state (turn e ev s) = world_state (world (turn e ev s))"
proof -
  have "keeps_up ev s" using assms(2-4) by (cases ev) (auto simp: keeps_up_def)
  with assms(1) turn_converges [of s ev e] show ?thesis by (simp add: converged_def)
qed

theorem state_follows_world_witness:
  "state (turn demo_env (Lid False) (demo_fired False))
     = world_state (world (turn demo_env (Lid False) (demo_fired False)))"
proof -
  have "state (turn demo_env (Lid False) (demo_fired False)) \<noteq> fsm_state.Suspending"
    using suspending_entered [of "demo_fired False" demo_env "Lid False"] by (auto simp: demo_fired_fields)
  then show ?thesis
    using state_follows_world [of "demo_fired False" "Lid False" demo_env] by (simp add: demo_fired_fields)
qed


lemma law_new_effects:
  "\<exists>es. log (turn e ev s) = log s @ es \<and> lawful (shadow s, has_session s, ext_mon_count (turn e ev s)) es
     \<and> drop (length (log s)) (log (turn e ev s)) = es"
  using turn_trace [of e ev s] by auto

text \<open>A reconcile pass that finds nothing wrong but the AC state repairs the power inputs and
  does not evaluate the main machine: a lid that lid-ac = defer parked on the charger stays
  Deferred on battery, where the world asks for Countdown.\<close>
lemma ac_repair_leaves_state:
  assumes "\<not> fst (repair_snapshot snap s)" "rs_on_ac snap = Some False" "state s = fsm_state.Deferred"
    and "lid_closed s" "ext_mon_count s = 0" "\<not> inhibitor s" "\<not> suspend_requested s" "\<not> low_battery s"
  shows "state (turn e (ReconcileTick snap) s) = fsm_state.Deferred
     \<and> world_state (world (turn e (ReconcileTick snap) s)) = fsm_state.Countdown"
  using ac_repair_unevaluated [OF assms] .

definition demo_parked :: "unit sys" where
  "demo_parked = (demo_sys False)\<lparr>lid_ac := lid_ac_policy.Defer, state := fsm_state.Deferred\<rparr>"

definition demo_unplugged :: reconcile_snapshot where
  "demo_unplugged = \<lparr>rs_reasons = [], rs_lid_closed = True, rs_ext_mon_count = 0,
     rs_logind_inhibitor = False, rs_wayland_inhibitor = Some False, rs_locked = Some False,
     rs_on_ac = Some False, rs_edp_disabled = None, rs_dpms_off = None, rs_cursor_pos = None\<rparr>"

lemma demo_parked_quiet: "\<not> fst (repair_snapshot demo_unplugged demo_parked)"
  by (simp add: repair_snapshot_def repair_lid_def repair_request_def repair_ext_mon_def
      repair_claims_def repair_lock_def repair_ac_def suspend_request_standing_def demo_parked_def
      demo_unplugged_def demo_sys_def default_context_def daemon_ctx.defs)

lemma ac_repair_leaves_state_witness:
  "world_state (world demo_parked) = fsm_state.Deferred
   \<and> state (turn demo_env (ReconcileTick demo_unplugged) demo_parked) = fsm_state.Deferred
   \<and> world_state (world (turn demo_env (ReconcileTick demo_unplugged) demo_parked)) = fsm_state.Countdown"
  using ac_repair_leaves_state [OF demo_parked_quiet, of demo_env]
  by (simp add: demo_parked_def demo_unplugged_def demo_sys_def default_context_def daemon_ctx.defs
      world_def inhibitor_def world_state_def claim_governs_def)

lemma on_ac_evaluate_fsms: "on_ac (evaluate_fsms e k l s) = on_ac s"
  by (simp add: evaluate_fsms_def Let_def split_beta on_enter_fields start_grace_fields split: option.split)

text \<open>When two sources report the same AC edge, the second report changes nothing: it neither
  restarts the settle timer nor reaches the machine.\<close>
lemma second_ac_report_ignored:
  "dispatch e' (AcChanged ac) (dispatch e (AcChanged ac) s) = dispatch e (AcChanged ac) s"
proof -
  have on: "on_ac (dispatch e (AcChanged ac) s) = ac"
  proof (cases "ac = on_ac s")
    case True
    then show ?thesis by (simp add: dispatch_def Let_def split_beta route_event_def handle_ac_changed_def)
  next
    case False
    let ?l = "event_label (AcChanged ac)" and ?k = "event_kind_of (AcChanged ac)"
    let ?h = "snd (handle_ac_changed e ac s)"
    have "on_ac ?h = ac"
      using False battery_low_check_fields(2) [OF refl, of e "s\<lparr>on_ac := ac\<rparr>"]
      by (simp add: handle_ac_changed_def Let_def fsm_viewD(3) [OF fsm_view_request_reconcile]
          fsm_viewD(3) [OF fsm_view_schedule_power_settle])
    moreover have "dispatch e (AcChanged ac) s = evaluate_fsms e ?k ?l (before_fsms e ?k ?l ?h)"
      using False by (simp add: dispatch_def Let_def split_beta route_event_def handle_ac_changed_def
          del: event_kind_of.simps)
    ultimately show ?thesis
      by (simp add: on_ac_evaluate_fsms fsm_viewD(3) [OF fsm_view_before_fsms] del: event_kind_of.simps)
  qed
  then show ?thesis
    by (simp add: dispatch_def [of e'] Let_def split_beta route_event_def handle_ac_changed_def)
qed

text \<open>In shadow mode no run has any effect outside the process: no worker command, no call to
  logind or powerd, no file written or removed, no signal.\<close>
lemma shadow_silent:
  assumes "run e s0 s q" "log s0 = []" "shadow s0"
  shows "\<forall>x \<in> set (log s). \<not> outward x"
  using run_shadow [OF assms] .

lemma shadow_silent_witness:
  "filter outward (log (turn demo_env event.TimerExpired (demo_fired True))) = []"
  using shadow_silent [OF demo_run_suspended [of True]] by (simp add: demo_sys_fields filter_empty_conv)

text \<open>C12: The dispatcher never asks for the internal panel to go off without an external monitor:
  if a turn hands the worker \<open>SetEdp False\<close>, the monitor count the turn leaves is positive.\<close>
theorem panel_off_needs_external:
  assumes "Worker (SetEdp False) \<in> set (drop (length (log s)) (log (turn e ev s)))"
  shows "ext_mon_count (turn e ev s) > 0"
  using law_new_effects [of e ev s] assms by (auto simp: lawful_def)

definition demo_docking :: "unit sys" where
  "demo_docking = (demo_sys False)\<lparr>state := fsm_state.LidOpen, lid_closed := False, ext_mon_count := 1\<rparr>"

lemma demo_docking_fields:
  "state demo_docking = fsm_state.LidOpen" "lid_present demo_docking" "edp_policy demo_docking = edp_policy.Auto"
  "\<not> shadow demo_docking"
  by (simp_all add: demo_docking_def demo_sys_def default_context_def daemon_ctx.defs)

lemma demo_docked_state:
  "world_state (world (demo_docking\<lparr>lid_closed := True, tick := k, wayland_inhibitor := False\<rparr>)) = fsm_state.Docked"
  by (simp add: demo_docking_def demo_sys_def default_context_def daemon_ctx.defs world_def
      inhibitor_def world_state_def claim_governs_def)

lemma set_edp_off_log:
  "edp_policy s = edp_policy.Auto \<Longrightarrow> ext_mon_count s > 0 \<Longrightarrow> \<not> shadow s \<Longrightarrow> q_worker e (tick s)
     \<Longrightarrow> Worker (SetEdp False) \<in> set (log (set_edp e False s))"
  by (simp add: set_edp_def send_cmd_def edp_may_disable_def Let_def split_beta)

lemma cancel_timers_fields:
  "edp_policy (cancel_grace_timer (cancel_claim_watch s)) = edp_policy s"
  "ext_mon_count (cancel_grace_timer (cancel_claim_watch s)) = ext_mon_count s"
  "shadow (cancel_grace_timer (cancel_claim_watch s)) = shadow s"
  by (simp_all add: cancel_grace_timer_def cancel_claim_watch_def split: option.split)

lemma demo_docking_off:
  "Worker (SetEdp False) \<in> set (drop (length (log demo_docking)) (log (turn demo_env (Lid True) demo_docking)))"
proof -
  let ?r = "demo_docking\<lparr>lid_closed := True, tick := Suc (tick demo_docking), wayland_inhibitor := False\<rparr>"
  have r: "route_event demo_env (Lid True) demo_docking = (True, ?r)"
    by (simp add: route_event_def demo_docking_fields refresh_wayland_claim_def Let_def
        wayland_idle_inhibited_def split_beta any_client_inhibiting_idle_in_def demo_env_def)
  have b: "before_fsms demo_env event_kind.LidClose l ?r = ?r" for l
    by (simp add: before_fsms_def gpu_gate_def power_gate_def Let_def)
  let ?x = "(emit (Transition fsm_state.LidOpen fsm_state.Docked (event_label (Lid True))) ?r)\<lparr>state := fsm_state.Docked\<rparr>"
  let ?t = "set_edp demo_env False (cancel_grace_timer (cancel_claim_watch ?x))"
  have t: "turn demo_env (Lid True) demo_docking = sync_waybar ?t"
    using demo_docked_state [of "Suc (tick demo_docking)"]
    by (simp add: turn_unfold r b evaluate_fsms_def desired_state_def demo_docking_fields on_enter_def Let_def)
  have "ext_mon_count ?x > 0" by (simp add: demo_docking_def)
  then have "Worker (SetEdp False) \<in> set (log ?t)"
    by (intro set_edp_off_log) (simp_all add: cancel_timers_fields demo_docking_fields, simp add: demo_env_def)
  moreover have "log demo_docking = []" by (simp add: demo_docking_def demo_sys_fields)
  moreover have "\<exists>es. log (sync_waybar ?t) = log ?t @ es"
    by (rule log_extended) (rule law_sync_waybar [OF law_self])
  ultimately show ?thesis unfolding t by auto
qed

theorem panel_off_needs_external_witness:
  "ext_mon_count (turn demo_env (Lid True) demo_docking) > 0"
  by (rule panel_off_needs_external [OF demo_docking_off])

section \<open>Battery-low requests\<close>

text \<open>The daemon's own low-battery request is scoped: the request file changes only by writing
  the daemon's body where none was standing, on a machine that is low and off the charger on
  both axes, or by removing a file that carries the daemon's body, once the charger is back or
  the battery has recovered. An idle request is never withdrawn.\<close>
lemma battery_low_request_scoped:
  assumes "request_file (snd (battery_low_request_check e s)) \<noteq> request_file s"
  shows "(low_battery s \<and> \<not> on_ac s \<and> \<not> on_ac_settled s \<and> \<not> suspend_requested s
          \<and> suspend_requested (snd (battery_low_request_check e s))
          \<and> request_file (snd (battery_low_request_check e s)) = Some (''battery-low'' @ [newline]))
     \<or> (suspend_requested s \<and> (on_ac s \<or> \<not> low_battery s)
          \<and> \<not> suspend_requested (snd (battery_low_request_check e s))
          \<and> request_file (snd (battery_low_request_check e s)) = None
          \<and> (\<exists>body. request_file s = Some body \<and> starts_with ''battery-low'' body))"
  using assms
  by (auto simp: battery_low_request_check_def battery_low_action_def request_suspend_def
      clear_battery_low_request_def Let_def split_beta split: if_splits option.splits)

lemma battery_low_request_scoped_witness:
  "let s = (demo_sys False)\<lparr>low_battery := True, on_ac := False, on_ac_settled := False\<rparr> in
     request_file (snd (battery_low_request_check demo_env s)) = Some (''battery-low'' @ [newline])
     \<and> suspend_requested (snd (battery_low_request_check demo_env s))"
proof -
  let ?s = "(demo_sys False)\<lparr>low_battery := True, on_ac := False, on_ac_settled := False\<rparr>"
  have "request_file (snd (battery_low_request_check demo_env ?s)) \<noteq> request_file ?s"
    by (simp add: battery_low_request_check_def battery_low_action_def request_suspend_def Let_def
        split_beta demo_sys_def demo_env_def default_context_def daemon_ctx.defs)
  from battery_low_request_scoped [OF this] show ?thesis
    by (simp add: Let_def demo_sys_fields)
qed

section \<open>Power policy\<close>

text \<open>C13: One policy check settles the policy: afterwards the profile that override and base state
  ask for is the one recorded as applied, unless powerd is gone, and a second check in the same
  world does nothing at all: no call, no write, no brightness change.\<close>
theorem policy_check_settles:
  "(power_applied (power_policy_check e s)
      = Some (desired_profile (base_of (power_policy_check e s)) (power_policy_check e s))
    \<or> \<not> powerd_available (power_policy_check e s))
   \<and> power_policy_check e' (power_policy_check e s) = power_policy_check e s"
  using policy_check_settled [where e = e and s = s] policy_check_noop [of "power_policy_check e s" e']
  by blast

theorem policy_check_settles_witness:
  "power_policy_check demo_env (power_policy_check demo_env (demo_sys False))
     = power_policy_check demo_env (demo_sys False)"
  using policy_check_settles [of demo_env "demo_sys False" demo_env] by blast

text \<open>C14: A policy check keeps a manual override, stamping it with the base state it first meets,
  and drops it exactly when the AC axis differs from the stamp or the battery has newly become
  low; an override that stays is what gets applied.\<close>
theorem override_lifetime:
  "power_override (power_policy_check e s) =
     (case (power_override s, power_override_base s) of
        (Some p, Some st) \<Rightarrow>
          (if ac_axis (base_of s) \<noteq> ac_axis st \<or> (base_of s = BatteryLow \<and> st \<noteq> BatteryLow)
           then None else Some p)
      | (p, _) \<Rightarrow> p)
   \<and> (power_override (power_policy_check e s) \<noteq> None \<longrightarrow>
        power_override_base (power_policy_check e s) =
          (case power_override_base s of Some st \<Rightarrow> Some st | None \<Rightarrow> Some (base_of s)))
   \<and> (\<forall>p. power_override (power_policy_check e s) = Some p \<longrightarrow>
        power_applied (power_policy_check e s) = Some p \<or> \<not> powerd_available (power_policy_check e s))"
  using policy_check_applied [of e s]
  by (auto simp: policy_check_override check_override_cases override_expires_def desired_profile_def
      split: option.splits if_splits)

theorem override_lifetime_witness:
  "power_override (power_policy_check demo_env ((demo_sys False)
     \<lparr>power_override := Some Performance, power_override_base := Some base_state.Battery\<rparr>)) = None
   \<and> power_override (power_policy_check demo_env ((demo_sys False)
     \<lparr>power_override := Some Performance, power_override_base := Some base_state.DockedAc\<rparr>)) = Some Performance"
proof -
  have b: "ac_axis (base_of ((demo_sys False)\<lparr>power_override := p, power_override_base := b\<rparr>)) = AxisAc
      \<and> base_of ((demo_sys False)\<lparr>power_override := p, power_override_base := b\<rparr>) \<noteq> BatteryLow"
    for p :: "power_profile option" and b
    by (simp add: base_of_def power_base_state_def demo_sys_def default_context_def daemon_ctx.defs)
  show ?thesis
    using override_lifetime [of demo_env "(demo_sys False)
        \<lparr>power_override := Some Performance, power_override_base := Some base_state.Battery\<rparr>"]
      override_lifetime [of demo_env "(demo_sys False)
        \<lparr>power_override := Some Performance, power_override_base := Some base_state.DockedAc\<rparr>"]
    using b [where p = "Some Performance" and b = "Some base_state.Battery"]
      b [where p = "Some Performance" and b = "Some base_state.DockedAc"] by simp
qed

section \<open>Keyboard backlight\<close>

text \<open>C18: With the policy active in a session and outside shadow mode, a check brings the LED to the
  level exactly when the keys are to be lit (not locked, not sleeping, typing, and dark or
  overridden), otherwise to zero: when the value on record differs, it makes exactly one brightness
  call, on this LED and with this raw value; when it does not, none. The value goes on record when
  logind took it and only then. Besides, the check at most writes its status file.\<close>
theorem kbd_check_sets_led:
  assumes "kbd_active s" "kbd_led s = Some (name, mx)" "has_session s" "\<not> shadow s"
    and "t = kbd_policy_check e smp s"
    and "want = (if \<not> locked s \<and> \<not> kbd_sleeping s \<and> kbd_typing s \<and> (kbd_dark t \<or> kbd_override s)
                 then level_to_raw (kbd_level s) mx else 0)"
  shows "\<exists>accepted status.
       log t = log s @ (if kbd_applied s = Some want then [] else [CallSetBrightness Leds name want accepted]) @ status
     \<and> set status \<subseteq> range WriteKbdStatus
     \<and> kbd_applied t = (if kbd_applied s = Some want \<or> accepted then Some want else kbd_applied s)"
proof -
  let ?t = "if smp then sample_lux e s else s"
  let ?lit = "kbd_lit (kbd_inputs_of ?t)"
  let ?u = "kbd_set e (kbd_target ?t) ?t"
  have c: "t = kbd_write_status e ?lit ?u"
    using kbd_policy_check_unfold [OF assms(1), of e smp] by (simp add: assms(5) Let_def)
  have led: "kbd_led ?t = Some (name, mx)" "has_session ?t" "\<not> shadow ?t" "log ?t = log s" "kbd_applied ?t = kbd_applied s"
    using assms(2-4) by simp_all
  have d: "kbd_dark t = kbd_dark ?t"
    by (simp add: c kbd_write_status_def kbd_set_def Let_def split_beta split: option.split)
  have l: "?lit \<longleftrightarrow> \<not> locked s \<and> \<not> kbd_sleeping s \<and> kbd_typing s \<and> (kbd_dark t \<or> kbd_override s)"
    unfolding d by (simp add: kbd_lit_iff kbd_inputs_of_def)
  have g: "level_to_raw (kbd_target ?t) mx = want"
    unfolding assms(6) l [symmetric] by (simp add: kbd_target_def level_to_raw_zero)
  obtain accepted where u: "log ?u = log s @ (if kbd_applied s = Some want then [] else [CallSetBrightness Leds name want accepted])"
    "kbd_applied ?u = (if kbd_applied s = Some want \<or> accepted then Some want else kbd_applied s)"
    using kbd_set_exact [OF led(1-3), of e "kbd_target ?t"] unfolding g led(4,5) by blast
  obtain status where "log t = log ?u @ status" "set status \<subseteq> range WriteKbdStatus"
    using kbd_write_status_log [of e ?lit ?u] unfolding c by blast
  then show ?thesis using u by (auto simp: c)
qed

definition demo_keys :: "unit sys" where
  "demo_keys = (demo_sys False)\<lparr>kbd_led := Some (''kbd'', 200), kbd_als := Some ''als'',
     kbd_typing := True, kbd_override := True\<rparr>"

theorem kbd_check_sets_led_witness:
  "CallSetBrightness Leds ''kbd'' (level_to_raw 50 200) True \<in> set (log (kbd_policy_check demo_env False demo_keys))
   \<or> CallSetBrightness Leds ''kbd'' (level_to_raw 50 200) False \<in> set (log (kbd_policy_check demo_env False demo_keys))"
proof -
  have k: "kbd_active demo_keys" "kbd_led demo_keys = Some (''kbd'', 200)" "has_session demo_keys" "\<not> shadow demo_keys"
    "kbd_applied demo_keys = None" "\<not> locked demo_keys" "\<not> kbd_sleeping demo_keys" "kbd_typing demo_keys"
    "kbd_override demo_keys" "kbd_level demo_keys = 50"
    by (simp_all add: demo_keys_def demo_sys_def default_context_def daemon_ctx.defs kbd_active_def
        DEFAULT_KBD_LEVEL_PCT_def)
  have "\<exists>ok. CallSetBrightness Leds ''kbd'' (level_to_raw 50 200) ok \<in> set (log (kbd_policy_check demo_env False demo_keys))"
    using kbd_check_sets_led [OF k(1-4) refl refl, of demo_env False] k(5-10) by auto
  then obtain ok where "CallSetBrightness Leds ''kbd'' (level_to_raw 50 200) ok \<in> set (log (kbd_policy_check demo_env False demo_keys))" ..
  then show ?thesis by (cases ok) auto
qed

end
